theory Spec2Isabelle
  imports Complex_Main "HOL-Library.AList"
begin

section \<open>Common Python values\<close>

text \<open>
  Exceptions the modelled code can raise.  Every raise of the source is an \<open>Inl\<close> branch
  of the model; the mutations made before the raise are not observed by any result below.
\<close>

datatype py_error = KeyError | IndexError | TypeError | AssertionError

text \<open>
  Camera identifiers are dynamically typed in the source: the configuration constants
  \<open>CAMERA_n_ID\<close> and the keys of the camera configuration are strings such as
  \<open>'camera4'\<close>, while \<open>MCMOT.process_camera_frame\<close> compares the identifier with the
  integer literal \<open>4\<close>.
\<close>

datatype camera = CamStr string | CamInt int

type_synonym feature = "real list"
type_synonym bbox = "int \<times> int \<times> int \<times> int"

text \<open>
  Python list indexing \<open>xs[i]\<close>: a position from \<open>-len(xs)\<close> up to
  \<open>len(xs) - 1\<close> is valid, the negative ones counting back from the end.
\<close>

definition py_index :: "'a list \<Rightarrow> int \<Rightarrow> py_error + 'a" where
  "py_index xs i =
     (if 0 \<le> i \<and> i < int (length xs) then Inr (xs ! nat i)
      else if i < 0 \<and> - int (length xs) \<le> i then Inr (xs ! nat (int (length xs) + i))
      else Inl IndexError)"

section \<open>The nearest-neighbour index (FAISS \<open>IndexFlatL2\<close>)\<close>

text \<open>
  The index is an external library.  It is modelled by what the code relies on.  An index
  is created for vectors of dimension 512; \<open>add\<close> and \<open>search\<close> raise AssertionError
  on a vector of another dimension.  \<open>add\<close> appends one vector; \<open>search(q, 1)\<close>
  returns the position and the squared Euclidean distance of the closest stored vector,
  and \<open>(FLT_MAX, -1)\<close> on an empty index.  Vectors are idealised as lists of reals (the
  source casts them to float32); among equally close vectors the first position is taken.
\<close>

definition faiss_dim :: nat where
  "faiss_dim = 512"

definition sq_l2 :: "feature \<Rightarrow> feature \<Rightarrow> real" where
  "sq_l2 x y = (\<Sum>(a, b)\<leftarrow>zip x y. (a - b)\<^sup>2)"

definition FLT_MAX :: real where
  "FLT_MAX = 340282346638528859811704183484516925440"

fun nearest :: "real \<times> int \<Rightarrow> int \<Rightarrow> real list \<Rightarrow> real \<times> int" where
  "nearest b i [] = b"
| "nearest (d, j) i (x # xs) = nearest (if x < d then (x, i) else (d, j)) (i + 1) xs"

definition faiss_add :: "feature list \<Rightarrow> feature \<Rightarrow> py_error + feature list" where
  "faiss_add index v =
     (if length v = faiss_dim then Inr (index @ [v]) else Inl AssertionError)"

definition faiss_search :: "feature list \<Rightarrow> feature \<Rightarrow> py_error + (real \<times> int)" where
  "faiss_search index q =
     (if length q = faiss_dim then Inr (nearest (FLT_MAX, -1) 0 (map (sq_l2 q) index))
      else Inl AssertionError)"

section \<open>Detections\<close>

text \<open>
  The dictionary built by \<open>DetectionService.detect_object\<close> for one object.  Keys that can
  be absent are options: \<open>update_info\<close> adds \<open>camera_id\<close> and deletes \<open>feature\<close>;
  \<open>local_id\<close> and \<open>global_id\<close> can hold \<open>None\<close>.
\<close>

record detected_object =
  class_name :: string
  local_id :: "int option"
  global_id :: "int option"
  bbox :: bbox
  score :: real
  feature :: "feature option"
  camera_id :: "camera option"

section \<open>Configuration constants\<close>

text \<open>
  \<open>detection_manager/config/config.py\<close> is not among the sources; its constants are
  parameters of the model.
\<close>

record config =
  CAMERA_1_ID :: camera
  CAMERA_2_ID :: camera
  CAMERA_3_ID :: camera
  CAMERA_4_ID :: camera
  VESSEL_SIZE_THRESHOLD :: real
  GALLERY_MATCH_THRESHOLD :: real

section \<open>MCMOT and VesselMCMOT state\<close>

text \<open>
  The attributes set by \<open>MCMOT.__init__\<close>; \<open>VesselMCMOT\<close> extends them.  A gallery
  \<open>gallery[obj_type]\<close> maps a global id to a feature vector in \<open>MCMOT\<close> and to the
  dictionary \<open>camera_features\<close> in \<open>VesselMCMOT\<close>, hence the type parameter.  Dictionaries
  whose insertion order or whose values the code reads are association lists
  (\<open>map_of\<close> looks up, \<open>AList.update\<close> assigns: in place for a present key, at the end
  for a new one); the others are maps.
\<close>

record 'e mcmot =
  object_types :: "string list"
  gallery :: "string \<rightharpoonup> (int \<times> 'e) list"
  local_to_global_id :: "string \<rightharpoonup> (camera \<rightharpoonup> (int option \<times> int) list)"
  global_id_counter :: "string \<rightharpoonup> int"
  faiss_indexes :: "string \<rightharpoonup> feature list"

record vessel_mcmot = "(camera \<rightharpoonup> feature) mcmot" +
  size_threshold :: real
  vessel_trajectory :: "int option \<rightharpoonup> bbox"
  max_size_record :: "int \<rightharpoonup> (camera \<rightharpoonup> int)"
  camera_query_scope :: "camera \<rightharpoonup> camera list"

definition per_type :: "string list \<Rightarrow> 'v \<Rightarrow> (string \<rightharpoonup> 'v)" where
  "per_type ts v = map_of (map (\<lambda>t. (t, v)) ts)"

definition MCMOT_init :: "string list \<Rightarrow> feature mcmot" where
  "MCMOT_init ts =
     \<lparr> object_types = ts,
       gallery = per_type ts [],
       local_to_global_id = per_type ts Map.empty,
       global_id_counter = per_type ts 0,
       faiss_indexes = per_type ts [] \<rparr>"

definition VesselMCMOT_init :: "config \<Rightarrow> string list \<Rightarrow> real \<Rightarrow> vessel_mcmot" where
  "VesselMCMOT_init cfg ts thr =
     \<lparr> object_types = ts,
       gallery = per_type ts [],
       local_to_global_id = per_type ts Map.empty,
       global_id_counter = per_type ts 0,
       faiss_indexes = per_type ts [],
       size_threshold = thr,
       vessel_trajectory = Map.empty,
       max_size_record = Map.empty,
       camera_query_scope =
         [CAMERA_1_ID cfg \<mapsto> [],
          CAMERA_2_ID cfg \<mapsto> [CAMERA_1_ID cfg],
          CAMERA_3_ID cfg \<mapsto> [CAMERA_2_ID cfg],
          CAMERA_4_ID cfg \<mapsto> [CAMERA_3_ID cfg]] \<rparr>"

text \<open>The binding of a local track, as line 147 of \<open>vessel_mcmot.py\<close> reads it.\<close>

definition binding ::
  "('e, 'm) mcmot_scheme \<Rightarrow> string \<Rightarrow> camera \<Rightarrow> int option \<Rightarrow> py_error + int option" where
  "binding s obj_type cameraId lid =
     (case local_to_global_id s obj_type of
        None \<Rightarrow> Inl KeyError
      | Some by_cam \<Rightarrow>
          (case by_cam cameraId of
             None \<Rightarrow> Inr None
           | Some m \<Rightarrow> Inr (map_of m lid)))"

text \<open>\<open>self.local_to_global_id[obj_type].setdefault(cameraId, {})[local_id] = global_id\<close>\<close>

definition bind_local ::
  "('e, 'm) mcmot_scheme \<Rightarrow> string \<Rightarrow> camera \<Rightarrow> int option \<Rightarrow> int
     \<Rightarrow> py_error + ('e, 'm) mcmot_scheme" where
  "bind_local s obj_type cameraId lid gid =
     (case local_to_global_id s obj_type of
        None \<Rightarrow> Inl KeyError
      | Some by_cam \<Rightarrow>
          (let m = (case by_cam cameraId of None \<Rightarrow> [] | Some m \<Rightarrow> m)
           in Inr (s\<lparr>local_to_global_id :=
                 (local_to_global_id s)(obj_type \<mapsto> by_cam(cameraId \<mapsto> AList.update lid gid m))\<rparr>)))"

section \<open>VesselMCMOT\<close>

text \<open>
  The inner loop of \<open>match_with_gallery\<close>: the feature of the last camera of
  \<open>valid_cameras\<close> that the entry holds.
\<close>

definition best_feature_of ::
  "camera list \<Rightarrow> (camera \<rightharpoonup> feature) \<Rightarrow> (camera \<times> feature) option" where
  "best_feature_of valid_cameras data =
     foldl (\<lambda>best cam. case data cam of Some f \<Rightarrow> Some (cam, f) | None \<Rightarrow> best)
       None valid_cameras"

definition valid_cameras_of :: "vessel_mcmot \<Rightarrow> camera \<Rightarrow> camera list" where
  "valid_cameras_of s cameraId =
     (case camera_query_scope s cameraId of None \<Rightarrow> [] | Some cs \<Rightarrow> cs)"

definition filtered_gallery_of ::
  "camera list \<Rightarrow> (int \<times> (camera \<rightharpoonup> feature)) list \<Rightarrow> (int \<times> (camera \<rightharpoonup> feature)) list" where
  "filtered_gallery_of valid_cameras g =
     filter (\<lambda>(gid, data). list_ex (\<lambda>cam. data cam \<noteq> None) valid_cameras) g"

definition picked_features ::
  "camera list \<Rightarrow> (int \<times> (camera \<rightharpoonup> feature)) list \<Rightarrow> (feature \<times> int) list" where
  "picked_features valid_cameras filtered_gallery =
     List.map_filter
       (\<lambda>(gid, data). map_option (\<lambda>(cam, f). (f, gid)) (best_feature_of valid_cameras data))
       filtered_gallery"

text \<open>
  \<open>VesselMCMOT.match_with_gallery\<close>.  As in the source, \<open>gallery_features\<close> is built
  but the search runs on \<open>self.faiss_indexes[obj_type]\<close>, the index of every vector ever
  registered for the class, and the position it returns indexes \<open>gallery_ids\<close>.
\<close>

definition match_with_gallery ::
  "config \<Rightarrow> vessel_mcmot \<Rightarrow> string \<Rightarrow> feature \<Rightarrow> camera \<Rightarrow> int \<Rightarrow> py_error + int option" where
  "match_with_gallery cfg s obj_type query_feature cameraId obj_area =
     (if real_of_int obj_area < size_threshold s then Inr None
      else
        let valid_cameras = valid_cameras_of s cameraId in
        case gallery s obj_type of
          None \<Rightarrow> Inl KeyError
        | Some g \<Rightarrow>
            let filtered_gallery = filtered_gallery_of valid_cameras g in
            if filtered_gallery = [] then Inr None
            else
              let picked = picked_features valid_cameras filtered_gallery;
                  gallery_features = map fst picked;
                  gallery_ids = map snd picked
              in if gallery_features = [] then Inr None
                 else
                   (case faiss_indexes s obj_type of
                      None \<Rightarrow> Inl KeyError
                    | Some index \<Rightarrow>
                        (case faiss_search index query_feature of
                           Inl e \<Rightarrow> Inl e
                         | Inr (distance, idx) \<Rightarrow>
                             (case py_index gallery_ids idx of
                                Inl e \<Rightarrow> Inl e
                              | Inr matched_id \<Rightarrow>
                                  Inr (if distance < GALLERY_MATCH_THRESHOLD cfg
                                       then Some matched_id else None)))))"

definition register_object_in_gallery ::
  "vessel_mcmot \<Rightarrow> camera \<Rightarrow> string \<Rightarrow> feature \<Rightarrow> int \<Rightarrow> py_error + (vessel_mcmot \<times> int)" where
  "register_object_in_gallery s cameraId obj_type feature_vector area =
     (case global_id_counter s obj_type of
        None \<Rightarrow> Inl KeyError
      | Some gid \<Rightarrow>
          (case gallery s obj_type of
             None \<Rightarrow> Inl KeyError
           | Some g \<Rightarrow>
               (case faiss_indexes s obj_type of
                  None \<Rightarrow> Inl KeyError
                | Some index \<Rightarrow>
                    (case faiss_add index feature_vector of
                       Inl e \<Rightarrow> Inl e
                     | Inr index' \<Rightarrow>
                         Inr (s\<lparr>global_id_counter :=
                                  (global_id_counter s)(obj_type \<mapsto> gid + 1),
                                gallery := (gallery s)(obj_type \<mapsto>
                                   AList.update gid [cameraId \<mapsto> feature_vector] g),
                                faiss_indexes := (faiss_indexes s)(obj_type \<mapsto> index'),
                                max_size_record :=
                                  (max_size_record s)(gid \<mapsto> [cameraId \<mapsto> area])\<rparr>,
                              gid)))))"

text \<open>
  \<open>VesselMCMOT.update_gallery_feature\<close>.  \<open>max_size_record\<close> is keyed by the global id
  alone.  When it has no record for the id, \<open>.get(global_id, {})\<close> yields a fresh
  dictionary and the assignment to it is lost.
\<close>

definition recorded_max_area :: "vessel_mcmot \<Rightarrow> int \<Rightarrow> camera \<Rightarrow> int" where
  "recorded_max_area s gid cameraId =
     (case max_size_record s gid of
        None \<Rightarrow> 0
      | Some target \<Rightarrow> (case target cameraId of None \<Rightarrow> 0 | Some a \<Rightarrow> a))"

definition update_gallery_feature ::
  "vessel_mcmot \<Rightarrow> camera \<Rightarrow> string \<Rightarrow> int \<Rightarrow> feature \<Rightarrow> int \<Rightarrow> py_error + vessel_mcmot" where
  "update_gallery_feature s cameraId obj_type gid new_feature new_area =
     (if new_area > recorded_max_area s gid cameraId then
        let s1 = (case max_size_record s gid of
                    None \<Rightarrow> s
                  | Some target \<Rightarrow>
                      s\<lparr>max_size_record :=
                          (max_size_record s)(gid \<mapsto> target(cameraId \<mapsto> new_area))\<rparr>)
        in case gallery s1 obj_type of
             None \<Rightarrow> Inl KeyError
           | Some g \<Rightarrow>
               (case map_of g gid of
                  None \<Rightarrow> Inl KeyError
                | Some data \<Rightarrow>
                    Inr (s1\<lparr>gallery := (gallery s1)(obj_type \<mapsto>
                            AList.update gid (data(cameraId \<mapsto> new_feature)) g)\<rparr>))
      else Inr s)"

definition update_info :: "detected_object \<Rightarrow> camera \<Rightarrow> int option \<Rightarrow> detected_object" where
  "update_info obj cam gid = obj\<lparr>camera_id := Some cam, global_id := gid, feature := None\<rparr>"

definition bbox_area :: "bbox \<Rightarrow> int" where
  "bbox_area b = (case b of (x1, y1, x2, y2) \<Rightarrow> (x2 - x1) * (y2 - y1))"

text \<open>Lines 162 to 168: the feature update and \<open>update_info\<close> that end a resolved iteration.\<close>

definition finish_object ::
  "vessel_mcmot \<Rightarrow> camera \<Rightarrow> detected_object \<Rightarrow> feature \<Rightarrow> int \<Rightarrow> int
     \<Rightarrow> py_error + (vessel_mcmot \<times> detected_object)" where
  "finish_object s cameraId obj feature_embedding obj_area gid =
     (case update_gallery_feature s cameraId (class_name obj) gid feature_embedding obj_area of
        Inl e \<Rightarrow> Inl e
      | Inr s' \<Rightarrow> Inr (s', update_info obj cameraId (Some gid)))"

text \<open>One iteration of the loop of \<open>VesselMCMOT.process_camera_frame\<close>.\<close>

definition process_object ::
  "config \<Rightarrow> vessel_mcmot \<Rightarrow> camera \<Rightarrow> detected_object
     \<Rightarrow> py_error + (vessel_mcmot \<times> detected_object)" where
  "process_object cfg s0 cameraId obj =
     (let obj_type = class_name obj; lid = local_id obj in
      case feature obj of
        None \<Rightarrow> Inl KeyError
      | Some feature_embedding \<Rightarrow>
          let obj_area = bbox_area (bbox obj);
              s = s0\<lparr>vessel_trajectory := (vessel_trajectory s0)(lid \<mapsto> bbox obj)\<rparr>
          in (case binding s obj_type cameraId lid of
               Inl e \<Rightarrow> Inl e
             | Inr (Some gid) \<Rightarrow> finish_object s cameraId obj feature_embedding obj_area gid
             | Inr None \<Rightarrow>
                 (case match_with_gallery cfg s obj_type feature_embedding cameraId obj_area of
                    Inl e \<Rightarrow> Inl e
                  | Inr (Some matched_id) \<Rightarrow>
                      (case bind_local s obj_type cameraId lid matched_id of
                         Inl e \<Rightarrow> Inl e
                       | Inr s' \<Rightarrow>
                           finish_object s' cameraId obj feature_embedding obj_area matched_id)
                  | Inr None \<Rightarrow>
                      if size_threshold s \<le> real_of_int obj_area then
                        (case register_object_in_gallery s cameraId obj_type
                                feature_embedding obj_area of
                           Inl e \<Rightarrow> Inl e
                         | Inr (s', gid) \<Rightarrow>
                             (case bind_local s' obj_type cameraId lid gid of
                                Inl e \<Rightarrow> Inl e
                              | Inr s'' \<Rightarrow>
                                  finish_object s'' cameraId obj feature_embedding obj_area gid))
                      else Inr (s, update_info obj cameraId None))))"

text \<open>
  \<open>VesselMCMOT.process_camera_frame\<close> on the objects \<open>detect_objects\<close> returned for the
  frame (the detector is external).  An exception ends the loop.
\<close>

fun process_objects ::
  "config \<Rightarrow> vessel_mcmot \<Rightarrow> camera \<Rightarrow> detected_object list
     \<Rightarrow> py_error + (vessel_mcmot \<times> detected_object list)" where
  "process_objects cfg s cameraId [] = Inr (s, [])"
| "process_objects cfg s cameraId (obj # objs) =
     (case process_object cfg s cameraId obj of
        Inl e \<Rightarrow> Inl e
      | Inr (s', obj') \<Rightarrow>
          (case process_objects cfg s' cameraId objs of
             Inl e \<Rightarrow> Inl e
           | Inr (s'', objs') \<Rightarrow> Inr (s'', obj' # objs')))"

definition process_camera_frame ::
  "config \<Rightarrow> vessel_mcmot \<Rightarrow> detected_object list \<Rightarrow> camera
     \<Rightarrow> py_error + (vessel_mcmot \<times> detected_object list)" where
  "process_camera_frame cfg s detected_objects cameraId =
     process_objects cfg s cameraId detected_objects"

section \<open>MCMOT (the base class)\<close>

definition MCMOT_match_with_gallery ::
  "feature mcmot \<Rightarrow> string \<Rightarrow> feature \<Rightarrow> py_error + int option" where
  "MCMOT_match_with_gallery s obj_type query_feature =
     (case gallery s obj_type of
        None \<Rightarrow> Inl KeyError
      | Some g \<Rightarrow>
          if length g = 0 then Inr None
          else
            (case faiss_indexes s obj_type of
               None \<Rightarrow> Inl KeyError
             | Some index \<Rightarrow>
                 (case faiss_search index query_feature of
                    Inl e \<Rightarrow> Inl e
                  | Inr (distance, idx) \<Rightarrow>
                      (case py_index (map fst g) idx of
                         Inl e \<Rightarrow> Inl e
                       | Inr matched_id \<Rightarrow>
                           Inr (if distance < 0.7 then Some matched_id else None)))))"

definition MCMOT_register_object_in_gallery ::
  "feature mcmot \<Rightarrow> string \<Rightarrow> feature \<Rightarrow> py_error + (feature mcmot \<times> int)" where
  "MCMOT_register_object_in_gallery s obj_type feature_vector =
     (case global_id_counter s obj_type of
        None \<Rightarrow> Inl KeyError
      | Some gid \<Rightarrow>
          (case gallery s obj_type of
             None \<Rightarrow> Inl KeyError
           | Some g \<Rightarrow>
               (case faiss_indexes s obj_type of
                  None \<Rightarrow> Inl KeyError
                | Some index \<Rightarrow>
                    (case faiss_add index feature_vector of
                       Inl e \<Rightarrow> Inl e
                     | Inr index' \<Rightarrow>
                         Inr (s\<lparr>global_id_counter :=
                                  (global_id_counter s)(obj_type \<mapsto> gid + 1),
                                gallery := (gallery s)(obj_type \<mapsto>
                                   AList.update gid feature_vector g),
                                faiss_indexes := (faiss_indexes s)(obj_type \<mapsto> index')\<rparr>,
                              gid)))))"

text \<open>One iteration of the first loop of \<open>MCMOT.process_camera_frame\<close>.\<close>

definition MCMOT_process_object ::
  "feature mcmot \<Rightarrow> camera \<Rightarrow> detected_object \<Rightarrow> py_error + (feature mcmot \<times> detected_object)" where
  "MCMOT_process_object s cameraId obj =
     (let obj_type = class_name obj; lid = local_id obj in
      case feature obj of
        None \<Rightarrow> Inl KeyError
      | Some feature_embedding \<Rightarrow>
          let obj_area = bbox_area (bbox obj) in
          (case binding s obj_type cameraId lid of
             Inl e \<Rightarrow> Inl e
           | Inr (Some gid) \<Rightarrow> Inr (s, obj\<lparr>global_id := Some gid\<rparr>)
           | Inr None \<Rightarrow>
               if obj_area > 10000 then
                 (case MCMOT_match_with_gallery s obj_type feature_embedding of
                    Inl e \<Rightarrow> Inl e
                  | Inr (Some matched_id) \<Rightarrow>
                      (case bind_local s obj_type cameraId lid matched_id of
                         Inl e \<Rightarrow> Inl e
                       | Inr s' \<Rightarrow> Inr (s', obj\<lparr>global_id := Some matched_id\<rparr>))
                  | Inr None \<Rightarrow>
                      (case MCMOT_register_object_in_gallery s obj_type feature_embedding of
                         Inl e \<Rightarrow> Inl e
                       | Inr (s', gid) \<Rightarrow>
                           (case bind_local s' obj_type cameraId lid gid of
                              Inl e \<Rightarrow> Inl e
                            | Inr s'' \<Rightarrow> Inr (s'', obj\<lparr>global_id := Some gid\<rparr>))))
               else Inr (s, obj\<lparr>global_id := None\<rparr>)))"

fun MCMOT_process_objects ::
  "feature mcmot \<Rightarrow> camera \<Rightarrow> detected_object list
     \<Rightarrow> py_error + (feature mcmot \<times> detected_object list)" where
  "MCMOT_process_objects s cameraId [] = Inr (s, [])"
| "MCMOT_process_objects s cameraId (obj # objs) =
     (case MCMOT_process_object s cameraId obj of
        Inl e \<Rightarrow> Inl e
      | Inr (s', obj') \<Rightarrow>
          (case MCMOT_process_objects s' cameraId objs of
             Inl e \<Rightarrow> Inl e
           | Inr (s'', objs') \<Rightarrow> Inr (s'', obj' # objs')))"

text \<open>
  The clearing loop of \<open>MCMOT.process_camera_frame\<close> for one object type: every global
  id that is not a value of \<open>local_to_global_id[obj_type].get(cameraId, {})\<close> is deleted
  from the gallery.  The counter is not touched.
\<close>

definition MCMOT_clear_type :: "feature mcmot \<Rightarrow> camera \<Rightarrow> string \<Rightarrow> py_error + feature mcmot" where
  "MCMOT_clear_type s cameraId obj_type =
     (case gallery s obj_type of
        None \<Rightarrow> Inl KeyError
      | Some g \<Rightarrow>
          if g = [] then Inr s
          else
            (case local_to_global_id s obj_type of
               None \<Rightarrow> Inl KeyError
             | Some by_cam \<Rightarrow>
                 (let bound = map snd (case by_cam cameraId of None \<Rightarrow> [] | Some m \<Rightarrow> m)
                  in Inr (s\<lparr>gallery := (gallery s)(obj_type \<mapsto>
                          filter (\<lambda>(gid, v). gid \<in> set bound) g)\<rparr>))))"

fun MCMOT_clear :: "feature mcmot \<Rightarrow> camera \<Rightarrow> string list \<Rightarrow> py_error + feature mcmot" where
  "MCMOT_clear s cameraId [] = Inr s"
| "MCMOT_clear s cameraId (t # ts) =
     (case MCMOT_clear_type s cameraId t of
        Inl e \<Rightarrow> Inl e
      | Inr s' \<Rightarrow> MCMOT_clear s' cameraId ts)"

definition MCMOT_process_camera_frame ::
  "feature mcmot \<Rightarrow> detected_object list \<Rightarrow> camera
     \<Rightarrow> py_error + (feature mcmot \<times> detected_object list)" where
  "MCMOT_process_camera_frame s detected_objects cameraId =
     (case MCMOT_process_objects s cameraId detected_objects of
        Inl e \<Rightarrow> Inl e
      | Inr (s', objs') \<Rightarrow>
          if cameraId = CamInt 4 then
            (case MCMOT_clear s' cameraId (object_types s') of
               Inl e \<Rightarrow> Inl e
             | Inr s'' \<Rightarrow> Inr (s'', objs'))
          else Inr (s', objs'))"

section \<open>EventService\<close>

text \<open>
  A \<open>datetime\<close> is modelled by its time in seconds, and so is \<open>time.time()\<close>, which the
  functions reading the clock take as the argument \<open>now\<close>.  The dictionary
  \<open>coordinates\<close> is read with \<open>.get\<close>, so each value can be \<open>None\<close>.
\<close>

record coordinates =
  longitude :: "real option"
  latitude :: "real option"

record tracking_point = coordinates +
  timestamp :: real
  channel_type :: "string option"

text \<open>The rows of the tables \<open>vessel\<close> and \<open>vessel_event\<close>; a primary key is a fresh number.\<close>

record vessel =
  detection_vessel_id :: nat
  first_seen :: real
  last_seen :: real
  vessel_features :: "feature option"

record vessel_event =
  event_id :: nat
  event_vessel :: nat
  start_time :: real
  end_time :: "real option"
  tracking_points :: "tracking_point list"

text \<open>A value of \<open>active_events\<close>: the two model objects held in memory and the positions.\<close>

record event_data =
  vessel :: vessel
  event :: vessel_event
  camera_positions :: "(camera \<times> coordinates) list"

record event_service =
  active_events :: "(int \<times> event_data) list"
  last_track_time :: "int \<rightharpoonup> real"
  tracking_interval :: real
  vessel_table :: "(nat \<times> vessel) list"
  vessel_event_table :: "(nat \<times> vessel_event) list"

definition EventService_init :: event_service where
  "EventService_init =
     \<lparr> active_events = [], last_track_time = Map.empty, tracking_interval = 10,
       vessel_table = [], vessel_event_table = [] \<rparr>"

definition create_new_event ::
  "event_service \<Rightarrow> int \<Rightarrow> detected_object \<Rightarrow> camera \<Rightarrow> real \<Rightarrow> coordinates \<Rightarrow> event_service" where
  "create_new_event s gid detection cam current_time coords =
     (let v = \<lparr> detection_vessel_id = length (vessel_table s),
                 first_seen = current_time, last_seen = current_time,
                 vessel_features = feature detection \<rparr>;
          ev = \<lparr> event_id = length (vessel_event_table s),
                  event_vessel = detection_vessel_id v,
                  start_time = current_time, end_time = None,
                  tracking_points =
                    [\<lparr> longitude = longitude coords, latitude = latitude coords,
                       timestamp = current_time, channel_type = None \<rparr>] \<rparr>
      in s\<lparr> vessel_table := vessel_table s @ [(detection_vessel_id v, v)],
            vessel_event_table := vessel_event_table s @ [(event_id ev, ev)],
            active_events := AList.update gid
               \<lparr> vessel = v, event = ev, camera_positions = [(cam, coords)] \<rparr>
               (active_events s) \<rparr>)"

definition calculate_average_position :: "coordinates list \<Rightarrow> py_error + coordinates option" where
  "calculate_average_position positions =
     (if positions = [] then Inr None
      else if list_ex (\<lambda>pos. latitude pos = None \<or> longitude pos = None) positions
      then Inl TypeError
      else
        let total_lat = (\<Sum>pos\<leftarrow>positions. the (latitude pos));
            total_lon = (\<Sum>pos\<leftarrow>positions. the (longitude pos))
        in Inr (Some \<lparr> longitude = Some (total_lon / real (length positions)),
                        latitude = Some (total_lat / real (length positions)) \<rparr>))"

definition should_record_tracking_point ::
  "event_service \<Rightarrow> real \<Rightarrow> int \<Rightarrow> event_service \<times> bool" where
  "should_record_tracking_point s now gid =
     (let last_time = (case last_track_time s gid of None \<Rightarrow> 0 | Some t \<Rightarrow> t)
      in if now - last_time \<ge> tracking_interval s
         then (s\<lparr>last_track_time := (last_track_time s)(gid \<mapsto> now)\<rparr>, True)
         else (s, False))"

definition update_event ::
  "event_service \<Rightarrow> real \<Rightarrow> int \<Rightarrow> camera \<Rightarrow> real \<Rightarrow> coordinates \<Rightarrow> string option
     \<Rightarrow> py_error + event_service" where
  "update_event s now gid cam current_time coords chan =
     (case map_of (active_events s) gid of
        None \<Rightarrow> Inl KeyError
      | Some ed \<Rightarrow>
          let positions = AList.update cam coords (camera_positions ed);
              v = (vessel ed)\<lparr>last_seen := current_time\<rparr>;
              ed1 = ed\<lparr>camera_positions := positions, vessel := v\<rparr>;
              s1 = s\<lparr> active_events := AList.update gid ed1 (active_events s),
                      vessel_table := AList.update (detection_vessel_id v) v (vessel_table s) \<rparr>
          in (case calculate_average_position (map snd positions) of
                Inl e \<Rightarrow> Inl e
              | Inr avg \<Rightarrow>
                  (case should_record_tracking_point s1 now gid of
                     (s2, record_it) \<Rightarrow>
                       if record_it then
                         (case avg of
                            None \<Rightarrow> Inl TypeError
                          | Some avg_position \<Rightarrow>
                              let ev = (event ed1)\<lparr>tracking_points :=
                                          tracking_points (event ed1) @
                                            [\<lparr> longitude = longitude avg_position,
                                               latitude = latitude avg_position,
                                               timestamp = current_time,
                                               channel_type = chan \<rparr>]\<rparr>
                              in Inr (s2\<lparr> active_events :=
                                            AList.update gid (ed1\<lparr>event := ev\<rparr>) (active_events s2),
                                          vessel_event_table :=
                                            AList.update (event_id ev) ev (vessel_event_table s2) \<rparr>))
                       else Inr s2)))"

text \<open>
  \<open>EventService.process_detection\<close>.  The test \<open>if not global_id\<close> holds for \<open>None\<close>
  and for \<open>0\<close>.
\<close>

definition process_detection ::
  "event_service \<Rightarrow> real \<Rightarrow> detected_object \<Rightarrow> camera \<Rightarrow> real \<Rightarrow> coordinates \<Rightarrow> string option
     \<Rightarrow> py_error + event_service" where
  "process_detection s now detection cam current_time coords chan =
     (case global_id detection of
        None \<Rightarrow> Inr s
      | Some gid \<Rightarrow>
          if gid = 0 then Inr s
          else if map_of (active_events s) gid = None
          then Inr (create_new_event s gid detection cam current_time coords)
          else update_event s now gid cam current_time coords chan)"

definition complete_event :: "event_service \<Rightarrow> int \<Rightarrow> real \<Rightarrow> py_error + event_service" where
  "complete_event s gid current_time =
     (case map_of (active_events s) gid of
        None \<Rightarrow> Inl KeyError
      | Some ed \<Rightarrow>
          let ev = (event ed)\<lparr>end_time := Some current_time\<rparr>
          in Inr (s\<lparr> vessel_event_table := AList.update (event_id ev) ev (vessel_event_table s),
                    active_events := AList.delete gid (active_events s),
                    last_track_time := (last_track_time s)(gid := None) \<rparr>))"

fun complete_all :: "event_service \<Rightarrow> int list \<Rightarrow> real \<Rightarrow> py_error + event_service" where
  "complete_all s [] current_time = Inr s"
| "complete_all s (gid # gids) current_time =
     (case map_of (active_events s) gid of
        None \<Rightarrow> Inl KeyError
      | Some ed \<Rightarrow>
          if CamStr ''camera4'' \<in> set (map fst (camera_positions ed)) then
            (case complete_event s gid current_time of
               Inl e \<Rightarrow> Inl e
             | Inr s' \<Rightarrow> complete_all s' gids current_time)
          else complete_all s gids current_time)"

definition check_event_completion :: "event_service \<Rightarrow> camera \<Rightarrow> real \<Rightarrow> py_error + event_service" where
  "check_event_completion s cam current_time =
     (if cam \<noteq> CamStr ''camera4'' then Inr s
      else complete_all s (map fst (active_events s)) current_time)"

section \<open>GridLocationService\<close>

text \<open>
  Floating-point numbers are idealised as reals, and \<open>math.radians\<close>, \<open>math.atan2\<close> are
  the mathematical functions.  The affine transformers fitted by \<open>rasterio\<close> are external
  and are left out of the state.
\<close>

record reference_point =
  pixel_coord :: "real \<times> real"
  geo_coord :: "real \<times> real"

record grid_location_service =
  reference_points :: "(string \<times> reference_point) list"
  direction_vector :: "(real \<times> real) option"
  scale_factor :: "real option"
  earth_radius :: real

definition GridLocationService_init :: grid_location_service where
  "GridLocationService_init =
     \<lparr> reference_points = [], direction_vector = None, scale_factor = None,
       earth_radius = 6371000 \<rparr>"

definition radians :: "real \<Rightarrow> real" where
  "radians d = d * pi / 180"

definition atan2 :: "real \<Rightarrow> real \<Rightarrow> real" where
  "atan2 y x =
     (if 0 < x then arctan (y / x)
      else if x < 0 then (if 0 \<le> y then arctan (y / x) + pi else arctan (y / x) - pi)
      else if 0 < y then pi / 2
      else if y < 0 then - pi / 2
      else 0)"

definition haversine_distance ::
  "grid_location_service \<Rightarrow> real \<Rightarrow> real \<Rightarrow> real \<Rightarrow> real \<Rightarrow> real" where
  "haversine_distance s lat1 lon1 lat2 lon2 =
     (let lat1 = radians lat1; lon1 = radians lon1; lat2 = radians lat2; lon2 = radians lon2;
          dlat = lat2 - lat1;
          dlon = lon2 - lon1;
          a = (sin (dlat / 2))\<^sup>2 + cos lat1 * cos lat2 * (sin (dlon / 2))\<^sup>2;
          c = 2 * atan2 (sqrt a) (sqrt (1 - a))
      in earth_radius s * c)"

text \<open>
  \<open>calculate_reference_line\<close>.  \<open>points[1]\<close> raises on fewer than two points.  With a
  pixel distance of zero the numpy division yields \<open>inf\<close> or \<open>nan\<close>, which are no real
  numbers: the model then stores no direction and no scale.
\<close>

definition calculate_reference_line :: "grid_location_service \<Rightarrow> py_error + grid_location_service" where
  "calculate_reference_line s =
     (case map snd (reference_points s) of
        p1 # p2 # rest \<Rightarrow>
          let dx_pixel = fst (pixel_coord p2) - fst (pixel_coord p1);
              dy_pixel = snd (pixel_coord p2) - snd (pixel_coord p1);
              pixel_distance = sqrt (dx_pixel\<^sup>2 + dy_pixel\<^sup>2);
              real_distance = haversine_distance s
                 (fst (geo_coord p1)) (snd (geo_coord p1))
                 (fst (geo_coord p2)) (snd (geo_coord p2))
          in if pixel_distance = 0
             then Inr (s\<lparr>direction_vector := None, scale_factor := None\<rparr>)
             else Inr (s\<lparr>direction_vector :=
                           Some (dx_pixel / pixel_distance, dy_pixel / pixel_distance),
                         scale_factor := Some (real_distance / pixel_distance)\<rparr>)
      | _ \<Rightarrow> Inl IndexError)"

definition add_reference_point ::
  "grid_location_service \<Rightarrow> string \<Rightarrow> real \<times> real \<Rightarrow> real \<times> real
     \<Rightarrow> py_error + grid_location_service" where
  "add_reference_point s point_id pixel geo =
     (let s1 = s\<lparr>reference_points :=
                  AList.update point_id \<lparr>pixel_coord = pixel, geo_coord = geo\<rparr>
                    (reference_points s)\<rparr>
      in if length (reference_points s1) = 2 then calculate_reference_line s1 else Inr s1)"

section \<open>Runs and example inputs\<close>

text \<open>The caller's loop: one call of \<open>process_camera_frame\<close> per camera frame.\<close>

fun run_frames ::
  "config \<Rightarrow> vessel_mcmot \<Rightarrow> (camera \<times> detected_object list) list
     \<Rightarrow> py_error + (vessel_mcmot \<times> detected_object list list)" where
  "run_frames cfg s [] = Inr (s, [])"
| "run_frames cfg s ((cameraId, objs) # frames) =
     (case process_camera_frame cfg s objs cameraId of
        Inl e \<Rightarrow> Inl e
      | Inr (s', out) \<Rightarrow>
          (case run_frames cfg s' frames of
             Inl e \<Rightarrow> Inl e
           | Inr (s'', outs) \<Rightarrow> Inr (s'', out # outs)))"

fun MCMOT_run_frames ::
  "feature mcmot \<Rightarrow> (camera \<times> detected_object list) list
     \<Rightarrow> py_error + (feature mcmot \<times> detected_object list list)" where
  "MCMOT_run_frames s [] = Inr (s, [])"
| "MCMOT_run_frames s ((cameraId, objs) # frames) =
     (case MCMOT_process_camera_frame s objs cameraId of
        Inl e \<Rightarrow> Inl e
      | Inr (s', out) \<Rightarrow>
          (case MCMOT_run_frames s' frames of
             Inl e \<Rightarrow> Inl e
           | Inr (s'', outs) \<Rightarrow> Inr (s'', out # outs)))"

definition camera1 :: camera where "camera1 = CamStr ''camera1''"
definition camera2 :: camera where "camera2 = CamStr ''camera2''"
definition camera3 :: camera where "camera3 = CamStr ''camera3''"
definition camera4 :: camera where "camera4 = CamStr ''camera4''"

definition example_config :: config where
  "example_config =
     \<lparr> CAMERA_1_ID = camera1, CAMERA_2_ID = camera2,
       CAMERA_3_ID = camera3, CAMERA_4_ID = camera4,
       VESSEL_SIZE_THRESHOLD = 1000, GALLERY_MATCH_THRESHOLD = 7 / 10 \<rparr>"

definition example_init :: vessel_mcmot where
  "example_init =
     VesselMCMOT_init example_config [''vessel'', ''truck'', ''person'']
       (VESSEL_SIZE_THRESHOLD example_config)"

text \<open>An embedding of the index dimension with all components equal.\<close>

definition embedding :: "real \<Rightarrow> feature" where
  "embedding x = replicate 512 x"

text \<open>A detected vessel: local track id, bounding box and embedding.\<close>

definition vessel_obj :: "int \<Rightarrow> bbox \<Rightarrow> feature \<Rightarrow> detected_object" where
  "vessel_obj lid box f =
     \<lparr> class_name = ''vessel'', local_id = Some lid, global_id = None, bbox = box,
       score = 9 / 10, feature = Some f, camera_id = None \<rparr>"

section \<open>Observations and invariants of the identity state\<close>

text \<open>The embedding the gallery stores for a global id and a camera.\<close>

definition stored_feature :: "vessel_mcmot \<Rightarrow> string \<Rightarrow> int \<Rightarrow> camera \<Rightarrow> feature option" where
  "stored_feature s obj_type gid cam =
     (case gallery s obj_type of
        None \<Rightarrow> None
      | Some g \<Rightarrow> (case map_of g gid of None \<Rightarrow> None | Some data \<Rightarrow> data cam))"

definition in_gallery :: "('e, 'm) mcmot_scheme \<Rightarrow> string \<Rightarrow> int \<Rightarrow> bool" where
  "in_gallery s obj_type gid =
     (case gallery s obj_type of None \<Rightarrow> False | Some g \<Rightarrow> map_of g gid \<noteq> None)"

text \<open>
  Three facts that hold of the state built by \<open>__init__\<close> and are kept by every call of
  \<open>VesselMCMOT.process_camera_frame\<close>: a bound global id has a gallery entry, every
  gallery id is below the counter of its class, and the per-class dictionaries have the
  same keys.
\<close>

definition bindings_in_gallery :: "('e, 'm) mcmot_scheme \<Rightarrow> bool" where
  "bindings_in_gallery s =
     (\<forall>t cam lid gid. binding s t cam lid = Inr (Some gid) \<longrightarrow> in_gallery s t gid)"

definition ids_below_counter :: "('e, 'm) mcmot_scheme \<Rightarrow> bool" where
  "ids_below_counter s =
     (\<forall>t gid c. in_gallery s t gid \<longrightarrow> global_id_counter s t = Some c \<longrightarrow> gid < c)"

definition types_registered :: "('e, 'm) mcmot_scheme \<Rightarrow> bool" where
  "types_registered s =
     (\<forall>t. local_to_global_id s t \<noteq> None \<longrightarrow>
        gallery s t \<noteq> None \<and> global_id_counter s t \<noteq> None \<and> faiss_indexes s t \<noteq> None)"

definition well_formed :: "('e, 'm) mcmot_scheme \<Rightarrow> bool" where
  "well_formed s = (bindings_in_gallery s \<and> ids_below_counter s \<and> types_registered s)"

section \<open>Gallery matching as the specification words it\<close>

text \<open>
  The specification's matching step, for comparison with \<open>match_with_gallery\<close>: the
  candidates are the gallery entries of the class that hold an embedding from a camera of
  the predecessor set, each with its selected feature; the result is the candidate at
  the minimum distance, if that distance is below the match threshold.
\<close>

definition spec_match_with_gallery ::
  "config \<Rightarrow> vessel_mcmot \<Rightarrow> string \<Rightarrow> feature \<Rightarrow> camera \<Rightarrow> int option" where
  "spec_match_with_gallery cfg s obj_type query_feature cameraId =
     (let valid_cameras = valid_cameras_of s cameraId;
          candidates = picked_features valid_cameras
             (filtered_gallery_of valid_cameras
                (case gallery s obj_type of None \<Rightarrow> [] | Some g \<Rightarrow> g))
      in case nearest (FLT_MAX, -1) 0 (map (\<lambda>(f, gid). sq_l2 query_feature f) candidates) of
           (distance, idx) \<Rightarrow>
             if candidates \<noteq> [] \<and> distance < GALLERY_MATCH_THRESHOLD cfg
             then Some (snd (candidates ! nat idx)) else None)"

section \<open>Example states\<close>

text \<open>A detection as the event service receives it, carrying the resolved global id.\<close>

definition tracked_obj :: "int option \<Rightarrow> detected_object" where
  "tracked_obj gid =
     \<lparr> class_name = ''vessel'', local_id = Some 1, global_id = gid, bbox = (0, 0, 100, 100),
       score = 9 / 10, feature = None, camera_id = None \<rparr>"

definition example_coordinates :: coordinates where
  "example_coordinates = \<lparr> longitude = Some 120, latitude = Some 22 \<rparr>"

text \<open>
  Camera 2 registers a vessel with the vector \<open>embedding 0\<close> (global id 0), then camera 1
  registers a vessel with the vector \<open>embedding 10\<close> (global id 1).
\<close>

definition two_registrations :: vessel_mcmot where
  "two_registrations =
     fst (projr (run_frames example_config example_init
       [(camera2, [vessel_obj 1 (0, 0, 100, 100) (embedding 0)]),
        (camera1, [vessel_obj 1 (0, 0, 100, 100) (embedding 10)])]))"

text \<open>The event service after identity 5 was first seen, at time 1000, by one camera.\<close>

definition event_seen_by_camera4 :: event_service where
  "event_seen_by_camera4 =
     projr (process_detection EventService_init 1000 (tracked_obj (Some 5)) camera4 1000
              example_coordinates None)"

definition event_seen_by_camera1 :: event_service where
  "event_seen_by_camera1 =
     projr (process_detection EventService_init 1000 (tracked_obj (Some 5)) camera1 1000
              example_coordinates None)"

text \<open>Camera 1 registers a vessel with the vector \<open>embedding 0\<close> and area 10000 (global id 0).\<close>

definition one_registration :: vessel_mcmot where
  "one_registration =
     fst (projr (run_frames example_config example_init
       [(camera1, [vessel_obj 1 (0, 0, 100, 100) (embedding 0)])]))"

section \<open>The global ids a run allocates\<close>

text \<open>
  An iteration of \<open>VesselMCMOT.process_camera_frame\<close> calls
  \<open>register_object_in_gallery\<close> (line 155) exactly when the local track is unbound,
  \<open>match_with_gallery\<close> returned \<open>None\<close> and the area reaches the size threshold; an
  iteration of \<open>MCMOT.process_camera_frame\<close> does so (line 74) exactly when the track is
  unbound, the area exceeds 10000 and \<open>match_with_gallery\<close> returned \<open>None\<close>.  These
  tests of the loop bodies tell a registration; the counter is not looked at.
\<close>

definition reaches_registration ::
  "config \<Rightarrow> vessel_mcmot \<Rightarrow> camera \<Rightarrow> detected_object \<Rightarrow> bool" where
  "reaches_registration cfg s cam obj =
     (case feature obj of
        None \<Rightarrow> False
      | Some f \<Rightarrow>
          binding s (class_name obj) cam (local_id obj) = Inr None \<and>
          match_with_gallery cfg s (class_name obj) f cam (bbox_area (bbox obj)) = Inr None \<and>
          size_threshold s \<le> real_of_int (bbox_area (bbox obj)))"

definition MCMOT_reaches_registration ::
  "feature mcmot \<Rightarrow> camera \<Rightarrow> detected_object \<Rightarrow> bool" where
  "MCMOT_reaches_registration s cam obj =
     (case feature obj of
        None \<Rightarrow> False
      | Some f \<Rightarrow>
          binding s (class_name obj) cam (local_id obj) = Inr None \<and>
          bbox_area (bbox obj) > 10000 \<and>
          MCMOT_match_with_gallery s (class_name obj) f = Inr None)"

text \<open>
  The global ids handed out by the registrations of class \<open>t\<close>, in the order of a run:
  for every iteration that reached the registration of an object of class \<open>t\<close>, the
  global id the iteration attached to the object.  \<open>registered_ids\<close> follows a run of
  \<open>VesselMCMOT\<close> over detections, up to the first exception; \<open>MCMOT_registered_ids\<close>
  follows a run of \<open>MCMOT.process_camera_frame\<close> over frames, each frame being followed by
  the clearing loop when the camera is 4.
\<close>

fun registered_ids ::
  "config \<Rightarrow> vessel_mcmot \<Rightarrow> string \<Rightarrow> (camera \<times> detected_object) list \<Rightarrow> int list" where
  "registered_ids cfg s t [] = []"
| "registered_ids cfg s t ((cam, obj) # rest) =
     (case process_object cfg s cam obj of
        Inl e \<Rightarrow> []
      | Inr (s', obj') \<Rightarrow>
          (if reaches_registration cfg s cam obj \<and> class_name obj = t
           then (case global_id obj' of Some g \<Rightarrow> [g] | None \<Rightarrow> [])
           else [])
          @ registered_ids cfg s' t rest)"

fun MCMOT_registered_in_frame ::
  "feature mcmot \<Rightarrow> string \<Rightarrow> camera \<Rightarrow> detected_object list \<Rightarrow> int list" where
  "MCMOT_registered_in_frame s t cam [] = []"
| "MCMOT_registered_in_frame s t cam (obj # objs) =
     (case MCMOT_process_object s cam obj of
        Inl e \<Rightarrow> []
      | Inr (s', obj') \<Rightarrow>
          (if MCMOT_reaches_registration s cam obj \<and> class_name obj = t
           then (case global_id obj' of Some g \<Rightarrow> [g] | None \<Rightarrow> [])
           else [])
          @ MCMOT_registered_in_frame s' t cam objs)"

fun MCMOT_registered_ids ::
  "feature mcmot \<Rightarrow> string \<Rightarrow> (camera \<times> detected_object list) list \<Rightarrow> int list" where
  "MCMOT_registered_ids s t [] = []"
| "MCMOT_registered_ids s t ((cam, objs) # frames) =
     MCMOT_registered_in_frame s t cam objs @
     (case MCMOT_process_camera_frame s objs cam of
        Inl e \<Rightarrow> []
      | Inr (s', out) \<Rightarrow> MCMOT_registered_ids s' t frames)"

text \<open>
  A run of \<open>MCMOT\<close> with an eviction: camera 1 registers a vessel, a frame of camera 4
  without detections clears the gallery, camera 1 registers another vessel.
\<close>

definition eviction_frames :: "(camera \<times> detected_object list) list" where
  "eviction_frames =
     [(CamInt 1, [vessel_obj 1 (0, 0, 200, 200) (embedding 0)]),
      (CamInt 4, []),
      (CamInt 1, [vessel_obj 2 (0, 0, 200, 200) (embedding 0)])]"

section \<open>The great-circle distance as the specification words it\<close>

text \<open>
  Two definitions that do not come from the code, for comparison with
  \<open>haversine_distance\<close>; a point is (latitude, longitude) in degrees.  The haversine
  formula for the great-circle distance on a sphere of radius \<open>R\<close> is
  \<open>2 R arcsin (sqrt (sin\<^sup>2 (\<Delta>\<phi> / 2) + cos \<phi>\<^sub>1 cos \<phi>\<^sub>2 sin\<^sup>2 (\<Delta>\<lambda> / 2)))\<close>.  The great-circle
  distance itself is the radius times the angle between the directions of the two points
  seen from the centre; the direction of a point is the unit vector
  \<open>(cos \<phi> cos \<lambda>, cos \<phi> sin \<lambda>, sin \<phi>)\<close>, and the inner product of two directions is
  \<open>sin \<phi>\<^sub>1 sin \<phi>\<^sub>2 + cos \<phi>\<^sub>1 cos \<phi>\<^sub>2 cos (\<lambda>\<^sub>2 - \<lambda>\<^sub>1)\<close>.
\<close>

definition haversine_formula :: "real \<Rightarrow> real \<times> real \<Rightarrow> real \<times> real \<Rightarrow> real" where
  "haversine_formula R p q =
     (let phi1 = fst p * pi / 180; lam1 = snd p * pi / 180;
          phi2 = fst q * pi / 180; lam2 = snd q * pi / 180
      in 2 * R * arcsin (sqrt ((sin ((phi2 - phi1) / 2))\<^sup>2
                               + cos phi1 * cos phi2 * (sin ((lam2 - lam1) / 2))\<^sup>2)))"

definition great_circle_distance :: "real \<Rightarrow> real \<times> real \<Rightarrow> real \<times> real \<Rightarrow> real" where
  "great_circle_distance R p q =
     (let phi1 = fst p * pi / 180; lam1 = snd p * pi / 180;
          phi2 = fst q * pi / 180; lam2 = snd q * pi / 180
      in R * arccos (sin phi1 * sin phi2 + cos phi1 * cos phi2 * cos (lam2 - lam1)))"

section \<open>The detections applied to an identity\<close>

text \<open>A run of the loop body over single detections; an exception ends it.\<close>

fun run_steps ::
  "config \<Rightarrow> vessel_mcmot \<Rightarrow> (camera \<times> detected_object) list \<Rightarrow> py_error + vessel_mcmot" where
  "run_steps cfg s [] = Inr s"
| "run_steps cfg s ((cam, obj) # rest) =
     (case process_object cfg s cam obj of
        Inl e \<Rightarrow> Inl e
      | Inr (s', obj') \<Rightarrow> run_steps cfg s' rest)"

text \<open>
  The shots of (class \<open>t\<close>, global id \<open>g\<close>, camera \<open>c\<close>) in a run: the detections of
  class \<open>t\<close> from camera \<open>c\<close> that the run resolved to \<open>g\<close>, in order, each with its
  area and its embedding.
\<close>

fun shots_of ::
  "config \<Rightarrow> vessel_mcmot \<Rightarrow> string \<Rightarrow> int \<Rightarrow> camera \<Rightarrow> (camera \<times> detected_object) list
     \<Rightarrow> (int \<times> feature) list" where
  "shots_of cfg s t g c [] = []"
| "shots_of cfg s t g c ((cam, obj) # rest) =
     (case process_object cfg s cam obj of
        Inl e \<Rightarrow> []
      | Inr (s', obj') \<Rightarrow>
          (if cam = c \<and> class_name obj = t \<and> global_id obj' = Some g
           then (case feature obj of Some f \<Rightarrow> [(bbox_area (bbox obj), f)] | None \<Rightarrow> [])
           else [])
          @ shots_of cfg s' t g c rest)"

text \<open>
  The best-shot rule as the specification words it: the stored shot is replaced only
  by a shot of strictly larger area.  \<open>best_shot b xs\<close> is the shot kept after the shots
  \<open>xs\<close>, starting with \<open>b\<close>.
\<close>

fun best_shot :: "(int \<times> feature) option \<Rightarrow> (int \<times> feature) list \<Rightarrow> (int \<times> feature) option" where
  "best_shot b [] = b"
| "best_shot None (x # xs) = best_shot (Some x) xs"
| "best_shot (Some (a, f)) ((a', f') # xs) =
     best_shot (if a < a' then Some (a', f') else Some (a, f)) xs"

text \<open>What the state holds for (class, global id, camera): the recorded area and the embedding.\<close>

definition current_shot ::
  "vessel_mcmot \<Rightarrow> string \<Rightarrow> int \<Rightarrow> camera \<Rightarrow> (int \<times> feature) option" where
  "current_shot s t g c =
     (case stored_feature s t g c of
        None \<Rightarrow> None
      | Some f \<Rightarrow> Some (recorded_max_area s g c, f))"

text \<open>
  The facts about the recorded areas that hold of the initial state and are kept while all
  detections are of class \<open>t\<close>: every gallery id of the class has a record, where no
  embedding is stored the recorded area is the default 0, and a local track of camera
  \<open>c\<close> is bound only to a global id with an embedding stored for \<open>c\<close>.
\<close>

definition areas_recorded :: "vessel_mcmot \<Rightarrow> string \<Rightarrow> bool" where
  "areas_recorded s t =
     (well_formed s \<and>
      (\<forall>g. in_gallery s t g \<longrightarrow> max_size_record s g \<noteq> None) \<and>
      (\<forall>g c. stored_feature s t g c = None \<longrightarrow> recorded_max_area s g c = 0) \<and>
      (\<forall>c lid g. binding s t c lid = Inr (Some g) \<longrightarrow> stored_feature s t g c \<noteq> None))"

text \<open>A detected truck.\<close>

definition truck_obj :: "int \<Rightarrow> bbox \<Rightarrow> feature \<Rightarrow> detected_object" where
  "truck_obj lid box f =
     \<lparr> class_name = ''truck'', local_id = Some lid, global_id = None, bbox = box,
       score = 9 / 10, feature = Some f, camera_id = None \<rparr>"

text \<open>
  Example runs.  In \<open>growing_shots\<close> camera 1 registers a vessel (area 10000), camera 2
  matches a track to it (area 10000) and sees that track twice more (areas 22500 and 40000).
  In \<open>shrunk_shots\<close> camera 1 sees one track with areas 10000, 2000 and 5000.  In
  \<open>mixed_class_shots\<close> a truck is registered between two detections of a vessel.
\<close>

definition growing_shots :: "(camera \<times> detected_object) list" where
  "growing_shots =
     [(camera1, vessel_obj 1 (0, 0, 100, 100) (embedding 0)),
      (camera2, vessel_obj 7 (0, 0, 100, 100) (embedding 0)),
      (camera2, vessel_obj 7 (0, 0, 150, 150) (embedding 3)),
      (camera2, vessel_obj 7 (0, 0, 200, 200) (embedding 5))]"

definition shrunk_shots :: "(camera \<times> detected_object) list" where
  "shrunk_shots =
     [(camera1, vessel_obj 1 (0, 0, 100, 100) (embedding 0)),
      (camera1, vessel_obj 1 (0, 0, 40, 50) (embedding 3)),
      (camera1, vessel_obj 1 (0, 0, 50, 100) (embedding 5))]"

definition mixed_class_shots :: "(camera \<times> detected_object) list" where
  "mixed_class_shots =
     [(camera1, vessel_obj 1 (0, 0, 100, 100) (embedding 0)),
      (camera1, truck_obj 1 (0, 0, 50, 50) (embedding 7)),
      (camera1, vessel_obj 1 (0, 0, 50, 100) (embedding 5))]"
section \<open>Unfolding sets for evaluation\<close>

lemmas vessel_defs =
  process_camera_frame_def process_object_def binding_def bind_local_def match_with_gallery_def
  register_object_in_gallery_def update_gallery_feature_def recorded_max_area_def
  finish_object_def update_info_def bbox_area_def valid_cameras_of_def filtered_gallery_of_def
  picked_features_def best_feature_of_def faiss_search_def faiss_add_def faiss_dim_def
  FLT_MAX_def py_index_def List.map_filter_def

lemmas example_defs =
  example_config_def example_init_def VesselMCMOT_init_def per_type_def vessel_obj_def
  camera1_def camera2_def camera3_def camera4_def

lemmas event_defs =
  process_detection_def create_new_event_def update_event_def calculate_average_position_def
  should_record_tracking_point_def complete_event_def check_event_completion_def
  EventService_init_def tracked_obj_def example_coordinates_def

section \<open>Basic facts\<close>

lemma sq_l2_replicate: "sq_l2 (replicate n x) (replicate n y) = real n * (x - y)\<^sup>2"
  by (simp add: sq_l2_def sum_list_replicate)

lemma length_embedding [simp]: "length (embedding x) = 512"
  by (simp add: embedding_def)

lemma sq_l2_embedding [simp]: "sq_l2 (embedding x) (embedding y) = 512 * (x - y)\<^sup>2"
  using sq_l2_replicate [of 512 x y] by (simp add: embedding_def)

lemma embedding_eq [simp]: "embedding x = embedding y \<longleftrightarrow> x = y"
  by (simp add: embedding_def)

lemma map_of_per_type: "map_of (map (\<lambda>t. (t, v)) ts) t = (if t \<in> set ts then Some v else None)"
  by (induction ts) auto

lemma per_type_apply: "per_type ts v t = (if t \<in> set ts then Some v else None)"
  by (simp add: per_type_def map_of_per_type)

lemma well_formed_VesselMCMOT_init: "well_formed (VesselMCMOT_init cfg ts thr)"
  by (auto simp: well_formed_def bindings_in_gallery_def ids_below_counter_def types_registered_def
      VesselMCMOT_init_def per_type_apply binding_def in_gallery_def split: if_splits option.splits)

lemma well_formed_MCMOT_init: "well_formed (MCMOT_init ts)"
  by (auto simp: well_formed_def bindings_in_gallery_def ids_below_counter_def types_registered_def
      MCMOT_init_def per_type_apply binding_def in_gallery_def split: if_splits option.splits)

lemma well_formed_vessel_trajectory [simp]: "well_formed (s\<lparr>vessel_trajectory := x\<rparr>) = well_formed s"
  by (simp add: well_formed_def bindings_in_gallery_def ids_below_counter_def types_registered_def
      binding_def in_gallery_def)

lemma binding_vessel_trajectory [simp]:
  "binding (s\<lparr>vessel_trajectory := x\<rparr>) t cam lid = binding s t cam lid"
  by (simp add: binding_def)

lemma in_gallery_vessel_trajectory [simp]:
  "in_gallery (s\<lparr>vessel_trajectory := x\<rparr>) t gid = in_gallery s t gid"
  by (simp add: in_gallery_def)

lemma stored_feature_vessel_trajectory [simp]:
  "stored_feature (s\<lparr>vessel_trajectory := x\<rparr>) t gid cam = stored_feature s t gid cam"
  by (simp add: stored_feature_def)

lemma recorded_max_area_vessel_trajectory [simp]:
  "recorded_max_area (s\<lparr>vessel_trajectory := x\<rparr>) gid cam = recorded_max_area s gid cam"
  by (simp add: recorded_max_area_def)

lemma match_with_gallery_vessel_trajectory [simp]:
  "match_with_gallery cfg (s\<lparr>vessel_trajectory := x\<rparr>) t f cam a = match_with_gallery cfg s t f cam a"
  by (auto simp: match_with_gallery_def valid_cameras_of_def Let_def split: option.splits)

section \<open>The feature update\<close>

lemma update_gallery_feature_frame:
  assumes "update_gallery_feature s cam t gid f a = Inr s'"
  shows "local_to_global_id s' = local_to_global_id s"
    and "global_id_counter s' = global_id_counter s"
    and "faiss_indexes s' = faiss_indexes s"
    and "vessel_trajectory s' = vessel_trajectory s"
    and "size_threshold s' = size_threshold s"
    and "camera_query_scope s' = camera_query_scope s"
    and "object_types s' = object_types s"
    and "in_gallery s' t' g' = in_gallery s t' g'"
    and "binding s' t' c' l' = binding s t' c' l'"
    and "gallery s' t' \<noteq> None \<longleftrightarrow> gallery s t' \<noteq> None"
  using assms
  by (auto simp: update_gallery_feature_def in_gallery_def binding_def Let_def update_conv'
      split: if_splits option.splits)

lemma update_gallery_feature_skip:
  "\<not> recorded_max_area s gid cam < a \<Longrightarrow> update_gallery_feature s cam t gid f a = Inr s"
  by (simp add: update_gallery_feature_def)

lemma update_gallery_feature_store:
  assumes "recorded_max_area s gid cam < a" and "in_gallery s t gid"
  shows "\<exists>s'. update_gallery_feature s cam t gid f a = Inr s' \<and>
           stored_feature s' t gid cam = Some f \<and>
           (\<forall>t' g' c'. (t', g', c') \<noteq> (t, gid, cam) \<longrightarrow>
              stored_feature s' t' g' c' = stored_feature s t' g' c') \<and>
           (\<forall>g' c'. (g', c') \<noteq> (gid, cam) \<longrightarrow>
              recorded_max_area s' g' c' = recorded_max_area s g' c') \<and>
           (max_size_record s gid \<noteq> None \<longrightarrow> recorded_max_area s' gid cam = a)"
proof -
  from assms(2) obtain g data where g: "gallery s t = Some g" and d: "map_of g gid = Some data"
    by (auto simp: in_gallery_def split: option.splits)
  show ?thesis
    using assms(1) g d
    by (cases "max_size_record s gid")
       (auto simp: update_gallery_feature_def stored_feature_def recorded_max_area_def Let_def
          update_conv' split: option.splits)
qed

lemma update_gallery_feature_total:
  "in_gallery s t gid \<Longrightarrow> \<exists>s'. update_gallery_feature s cam t gid f a = Inr s'"
  using update_gallery_feature_store [of s gid cam a t f] update_gallery_feature_skip [of s gid cam a t f]
  by (cases "recorded_max_area s gid cam < a") auto

lemma well_formed_update_gallery_feature:
  assumes "well_formed s" and "update_gallery_feature s cam t gid f a = Inr s'"
  shows "well_formed s'"
  using assms(1) update_gallery_feature_frame [OF assms(2)]
  by (simp add: well_formed_def bindings_in_gallery_def ids_below_counter_def types_registered_def)

section \<open>Binding and registration\<close>

lemma bind_local_binding:
  assumes "bind_local s t cam lid gid = Inr s'"
  shows "binding s' t' c' l' =
           (if t' = t \<and> c' = cam \<and> l' = lid then Inr (Some gid) else binding s t' c' l')"
  using assms
  by (auto simp: bind_local_def binding_def Let_def update_conv' split: option.splits if_splits)

lemma bind_local_frame:
  assumes "bind_local s t cam lid gid = Inr s'"
  shows "gallery s' = gallery s"
    and "global_id_counter s' = global_id_counter s"
    and "faiss_indexes s' = faiss_indexes s"
    and "object_types s' = object_types s"
    and "local_to_global_id s' t' \<noteq> None \<longleftrightarrow> local_to_global_id s t' \<noteq> None"
  using assms
  by (auto simp: bind_local_def Let_def split: option.splits if_splits)

lemma bind_local_vessel_frame:
  fixes s :: vessel_mcmot
  assumes "bind_local s t cam lid gid = Inr s'"
  shows "max_size_record s' = max_size_record s"
    and "vessel_trajectory s' = vessel_trajectory s"
    and "size_threshold s' = size_threshold s"
    and "camera_query_scope s' = camera_query_scope s"
    and "stored_feature s' t' g' c' = stored_feature s t' g' c'"
    and "recorded_max_area s' g' c' = recorded_max_area s g' c'"
  using assms
  by (auto simp: bind_local_def Let_def stored_feature_def recorded_max_area_def split: option.splits)

lemma bind_local_total:
  "local_to_global_id s t \<noteq> None \<Longrightarrow> \<exists>s'. bind_local s t cam lid gid = Inr s'"
  by (auto simp: bind_local_def Let_def)

lemma in_gallery_bind_local:
  "bind_local s t cam lid gid = Inr s' \<Longrightarrow> in_gallery s' t' g' = in_gallery s t' g'"
  by (simp add: in_gallery_def bind_local_frame)

lemma well_formed_bind_local:
  assumes "well_formed s" and "in_gallery s t gid" and "bind_local s t cam lid gid = Inr s'"
  shows "well_formed s'"
  using assms(1,2) bind_local_binding [OF assms(3)] bind_local_frame [OF assms(3)]
    in_gallery_bind_local [OF assms(3)]
  by (simp add: well_formed_def bindings_in_gallery_def ids_below_counter_def types_registered_def)

lemma register_object_in_gallery_result:
  assumes "register_object_in_gallery s cam t f a = Inr (s', gid)"
  shows "global_id_counter s t = Some gid"
    and "global_id_counter s' = (global_id_counter s)(t \<mapsto> gid + 1)"
    and "local_to_global_id s' = local_to_global_id s"
    and "in_gallery s' t' g' = (in_gallery s t' g' \<or> (t' = t \<and> g' = gid))"
    and "binding s' t' c' l' = binding s t' c' l'"
    and "recorded_max_area s' gid cam = a"
    and "size_threshold s' = size_threshold s"
    and "camera_query_scope s' = camera_query_scope s"
    and "vessel_trajectory s' = vessel_trajectory s"
  using assms
  by (auto simp: register_object_in_gallery_def in_gallery_def binding_def recorded_max_area_def
      update_conv' split: option.splits if_splits sum.splits)

lemma register_object_in_gallery_stored:
  assumes "register_object_in_gallery s cam t f a = Inr (s', gid)"
  shows "stored_feature s' t' g' c' =
           (if t' = t \<and> g' = gid then (if c' = cam then Some f else None)
            else stored_feature s t' g' c')"
  using assms
  by (auto simp: register_object_in_gallery_def stored_feature_def update_conv'
      split: option.splits if_splits sum.splits)

lemma register_object_in_gallery_total:
  assumes "types_registered s" and "local_to_global_id s t \<noteq> None"
    and "length f = faiss_dim"
  shows "\<exists>s' gid. register_object_in_gallery s cam t f a = Inr (s', gid)"
  using assms
  by (auto simp: register_object_in_gallery_def types_registered_def faiss_add_def
      split: option.splits)

lemma well_formed_register_object_in_gallery:
  assumes "well_formed s" and "register_object_in_gallery s cam t f a = Inr (s', gid)"
  shows "well_formed s'" and "\<not> in_gallery s t gid" and "in_gallery s' t gid"
proof -
  note r = register_object_in_gallery_result [OF assms(2)]
  show "\<not> in_gallery s t gid"
    using assms(1) r(1) by (auto simp: well_formed_def ids_below_counter_def)
  show "in_gallery s' t gid" by (simp add: r(4))
  have "bindings_in_gallery s'"
    using assms(1) by (auto simp: well_formed_def bindings_in_gallery_def r(4,5))
  moreover have "ids_below_counter s'"
    using assms(1) r(1) unfolding well_formed_def ids_below_counter_def r(2,4)
    by (fastforce split: if_splits)
  moreover have "types_registered s'"
    using assms(1,2)
    by (auto simp: well_formed_def types_registered_def register_object_in_gallery_def
        split: option.splits if_splits sum.splits)
  ultimately show "well_formed s'" by (simp add: well_formed_def)
qed

section \<open>Gallery matching returns a gallery id\<close>

lemma py_index_in_set: "py_index xs i = Inr x \<Longrightarrow> x \<in> set xs"
  by (auto simp: py_index_def split: if_splits)

lemma picked_features_ids: "snd ` set (picked_features vc fg) \<subseteq> fst ` set fg"
proof
  fix m assume "m \<in> snd ` set (picked_features vc fg)"
  then obtain f where "(f, m) \<in> set (picked_features vc fg)" by auto
  then obtain e where e: "e \<in> set fg"
    and p: "(case e of (gid, data) \<Rightarrow>
               map_option (\<lambda>(cam, f). (f, gid)) (best_feature_of vc data)) = Some (f, m)"
    unfolding picked_features_def List.map_filter_def by auto
  obtain gid data where ed: "e = (gid, data)" by (cases e)
  from p ed have "m = gid" by (auto split: prod.splits)
  with e ed show "m \<in> fst ` set fg" by force
qed

lemma filtered_gallery_subset: "set (filtered_gallery_of vc g) \<subseteq> set g"
  by (auto simp: filtered_gallery_of_def)

lemma match_with_gallery_small:
  "real_of_int a < size_threshold s \<Longrightarrow> match_with_gallery cfg s t f cam a = Inr None"
  by (simp add: match_with_gallery_def)

lemma match_with_gallery_SomeD:
  assumes "match_with_gallery cfg s t f cam a = Inr (Some m)"
  shows "\<exists>g. gallery s t = Some g \<and>
           m \<in> snd ` set (picked_features (valid_cameras_of s cam)
                  (filtered_gallery_of (valid_cameras_of s cam) g))"
proof -
  from assms have thr: "\<not> real_of_int a < size_threshold s"
    by (auto simp: match_with_gallery_def)
  with assms obtain g where g: "gallery s t = Some g"
    by (cases "gallery s t") (simp_all add: match_with_gallery_def)
  define ids where "ids = map snd (picked_features (valid_cameras_of s cam)
                  (filtered_gallery_of (valid_cameras_of s cam) g))"
  from assms thr g obtain ix where ix: "faiss_indexes s t = Some ix"
    by (cases "faiss_indexes s t") (auto simp: match_with_gallery_def Let_def split: if_splits)
  from assms thr g ix obtain d i where di: "faiss_search ix f = Inr (d, i)"
    by (cases "faiss_search ix f") (auto simp: match_with_gallery_def Let_def split: if_splits)
  from assms thr g ix di have "\<exists>m'. py_index ids i = Inr m' \<and> m = m'"
    unfolding ids_def
    by (cases "py_index (map snd (picked_features (valid_cameras_of s cam)
                  (filtered_gallery_of (valid_cameras_of s cam) g))) i")
       (auto simp: match_with_gallery_def Let_def split: if_splits)
  then have "m \<in> set ids" by (auto dest: py_index_in_set)
  then show ?thesis using g by (auto simp: ids_def)
qed

lemma match_with_gallery_in_gallery:
  assumes "match_with_gallery cfg s t f cam a = Inr (Some m)"
  shows "in_gallery s t m"
proof -
  from match_with_gallery_SomeD [OF assms] obtain g where g: "gallery s t = Some g"
    and m: "m \<in> snd ` set (picked_features (valid_cameras_of s cam)
                  (filtered_gallery_of (valid_cameras_of s cam) g))"
    by blast
  from m have "m \<in> fst ` set (filtered_gallery_of (valid_cameras_of s cam) g)"
    using picked_features_ids by blast
  then have "m \<in> fst ` set g"
    using filtered_gallery_subset by blast
  then show ?thesis
    using g by (simp add: in_gallery_def map_of_eq_None_iff)
qed

lemma match_with_gallery_no_predecessors:
  assumes "valid_cameras_of s cam = []" and "gallery s t \<noteq> None"
  shows "match_with_gallery cfg s t f cam a = Inr None"
  using assms
  by (auto simp: match_with_gallery_def filtered_gallery_of_def Let_def)
section \<open>The branches of one loop iteration\<close>

lemma process_object_bound:
  assumes "binding s (class_name obj) cam (local_id obj) = Inr (Some gid)"
    and "feature obj = Some f"
  shows "process_object cfg s cam obj =
           finish_object (s\<lparr>vessel_trajectory := (vessel_trajectory s)(local_id obj \<mapsto> bbox obj)\<rparr>)
             cam obj f (bbox_area (bbox obj)) gid"
  using assms by (simp add: process_object_def Let_def)

lemma process_object_small:
  assumes "binding s (class_name obj) cam (local_id obj) = Inr None"
    and "feature obj = Some f"
    and "real_of_int (bbox_area (bbox obj)) < size_threshold s"
  shows "process_object cfg s cam obj =
           Inr (s\<lparr>vessel_trajectory := (vessel_trajectory s)(local_id obj \<mapsto> bbox obj)\<rparr>,
                update_info obj cam None)"
  using assms by (simp add: process_object_def Let_def match_with_gallery_small)

lemma process_object_matched:
  assumes "binding s (class_name obj) cam (local_id obj) = Inr None"
    and "feature obj = Some f"
    and "match_with_gallery cfg s (class_name obj) f cam (bbox_area (bbox obj)) = Inr (Some m)"
  shows "process_object cfg s cam obj =
           (case bind_local (s\<lparr>vessel_trajectory := (vessel_trajectory s)(local_id obj \<mapsto> bbox obj)\<rparr>)
                   (class_name obj) cam (local_id obj) m of
              Inl e \<Rightarrow> Inl e
            | Inr s' \<Rightarrow> finish_object s' cam obj f (bbox_area (bbox obj)) m)"
  using assms by (simp add: process_object_def Let_def)

lemma process_object_registered:
  assumes "binding s (class_name obj) cam (local_id obj) = Inr None"
    and "feature obj = Some f"
    and "match_with_gallery cfg s (class_name obj) f cam (bbox_area (bbox obj)) = Inr None"
    and "size_threshold s \<le> real_of_int (bbox_area (bbox obj))"
  shows "process_object cfg s cam obj =
           (case register_object_in_gallery
                   (s\<lparr>vessel_trajectory := (vessel_trajectory s)(local_id obj \<mapsto> bbox obj)\<rparr>)
                   cam (class_name obj) f (bbox_area (bbox obj)) of
              Inl e \<Rightarrow> Inl e
            | Inr (s', gid) \<Rightarrow>
                (case bind_local s' (class_name obj) cam (local_id obj) gid of
                   Inl e \<Rightarrow> Inl e
                 | Inr s'' \<Rightarrow> finish_object s'' cam obj f (bbox_area (bbox obj)) gid))"
  using assms by (simp add: process_object_def Let_def)

text \<open>Every successful iteration took one of the four branches.\<close>

lemma process_object_cases:
  assumes "process_object cfg s cam obj = Inr (s', obj')"
  obtains
    (bound) f gid where "feature obj = Some f"
      "binding s (class_name obj) cam (local_id obj) = Inr (Some gid)"
  | (small) f where "feature obj = Some f"
      "binding s (class_name obj) cam (local_id obj) = Inr None"
      "real_of_int (bbox_area (bbox obj)) < size_threshold s"
  | (matched) f m where "feature obj = Some f"
      "binding s (class_name obj) cam (local_id obj) = Inr None"
      "match_with_gallery cfg s (class_name obj) f cam (bbox_area (bbox obj)) = Inr (Some m)"
  | (registered) f where "feature obj = Some f"
      "binding s (class_name obj) cam (local_id obj) = Inr None"
      "match_with_gallery cfg s (class_name obj) f cam (bbox_area (bbox obj)) = Inr None"
      "size_threshold s \<le> real_of_int (bbox_area (bbox obj))"
proof -
  from assms obtain f where f: "feature obj = Some f"
    by (auto simp: process_object_def Let_def split: option.splits)
  from assms f obtain b where b: "binding s (class_name obj) cam (local_id obj) = Inr b"
    by (auto simp: process_object_def Let_def split: sum.splits)
  show ?thesis
  proof (cases b)
    case (Some gid)
    with f b show ?thesis using bound by simp
  next
    case None
    from assms f b None obtain r where
      r: "match_with_gallery cfg s (class_name obj) f cam (bbox_area (bbox obj)) = Inr r"
      by (auto simp: process_object_def Let_def split: sum.splits)
    show ?thesis
    proof (cases r)
      case (Some m)
      with f b None r show ?thesis using matched by simp
    next
      case no: None
      show ?thesis
      proof (cases "size_threshold s \<le> real_of_int (bbox_area (bbox obj))")
        case True
        with f b None r no show ?thesis using registered by simp
      next
        case False
        with f b None show ?thesis using small by simp
      qed
    qed
  qed
qed

lemma finish_object_result:
  assumes "finish_object s cam obj f a gid = Inr (s', obj')"
  shows "update_gallery_feature s cam (class_name obj) gid f a = Inr s'"
    and "obj' = update_info obj cam (Some gid)"
  using assms by (auto simp: finish_object_def split: sum.splits)

lemma global_id_update_info [simp]: "global_id (update_info obj cam g) = g"
  by (simp add: update_info_def)

section \<open>What one loop iteration does to the state\<close>

text \<open>
  The four branches, each with the intermediate states named: \<open>s\<^sub>0\<close> is the state after
  line 144 stored the bounding box.
\<close>

lemma process_object_boundD:
  assumes "process_object cfg s cam obj = Inr (s', obj')"
    and "feature obj = Some f"
    and "binding s (class_name obj) cam (local_id obj) = Inr (Some gid)"
  shows "update_gallery_feature
           (s\<lparr>vessel_trajectory := (vessel_trajectory s)(local_id obj \<mapsto> bbox obj)\<rparr>)
           cam (class_name obj) gid f (bbox_area (bbox obj)) = Inr s'"
    and "obj' = update_info obj cam (Some gid)"
  using assms finish_object_result
  by (simp_all add: process_object_bound)

lemma process_object_matchedD:
  assumes "process_object cfg s cam obj = Inr (s', obj')"
    and "feature obj = Some f"
    and "binding s (class_name obj) cam (local_id obj) = Inr None"
    and "match_with_gallery cfg s (class_name obj) f cam (bbox_area (bbox obj)) = Inr (Some m)"
  shows "\<exists>s1. bind_local
                (s\<lparr>vessel_trajectory := (vessel_trajectory s)(local_id obj \<mapsto> bbox obj)\<rparr>)
                (class_name obj) cam (local_id obj) m = Inr s1 \<and>
              update_gallery_feature s1 cam (class_name obj) m f (bbox_area (bbox obj)) = Inr s'"
    and "obj' = update_info obj cam (Some m)"
  using assms(1) finish_object_result
  by (auto simp: process_object_matched [OF assms(3,2,4)] split: sum.splits)

lemma process_object_registeredD:
  assumes "process_object cfg s cam obj = Inr (s', obj')"
    and "feature obj = Some f"
    and "binding s (class_name obj) cam (local_id obj) = Inr None"
    and "match_with_gallery cfg s (class_name obj) f cam (bbox_area (bbox obj)) = Inr None"
    and "size_threshold s \<le> real_of_int (bbox_area (bbox obj))"
  shows "\<exists>s1 s2 gid.
           register_object_in_gallery
             (s\<lparr>vessel_trajectory := (vessel_trajectory s)(local_id obj \<mapsto> bbox obj)\<rparr>)
             cam (class_name obj) f (bbox_area (bbox obj)) = Inr (s1, gid) \<and>
           bind_local s1 (class_name obj) cam (local_id obj) gid = Inr s2 \<and>
           update_gallery_feature s2 cam (class_name obj) gid f (bbox_area (bbox obj)) = Inr s' \<and>
           obj' = update_info obj cam (Some gid)"
  using assms(1) finish_object_result
  by (auto simp: process_object_registered [OF assms(3,2,4,5)] split: sum.splits prod.splits)

lemma well_formed_process_object:
  assumes "well_formed s" and "process_object cfg s cam obj = Inr (s', obj')"
  shows "well_formed s'"
  using assms(2)
proof (cases rule: process_object_cases)
  case (bound f gid)
  from process_object_boundD(1) [OF assms(2) bound] assms(1) show ?thesis
    using well_formed_update_gallery_feature well_formed_vessel_trajectory by blast
next
  case (small f)
  with assms show ?thesis by (auto simp: process_object_small)
next
  case (matched f m)
  from process_object_matchedD(1) [OF assms(2) matched] obtain s1 where
    b: "bind_local (s\<lparr>vessel_trajectory := (vessel_trajectory s)(local_id obj \<mapsto> bbox obj)\<rparr>)
          (class_name obj) cam (local_id obj) m = Inr s1"
    and u: "update_gallery_feature s1 cam (class_name obj) m f (bbox_area (bbox obj)) = Inr s'"
    by blast
  have "in_gallery s (class_name obj) m"
    using matched(3) by (rule match_with_gallery_in_gallery)
  then have "well_formed s1"
    using well_formed_bind_local [OF _ _ b] assms(1) by simp
  then show ?thesis using u by (rule well_formed_update_gallery_feature)
next
  case (registered f)
  from process_object_registeredD [OF assms(2) registered] obtain s1 s2 gid where
    r: "register_object_in_gallery
             (s\<lparr>vessel_trajectory := (vessel_trajectory s)(local_id obj \<mapsto> bbox obj)\<rparr>)
             cam (class_name obj) f (bbox_area (bbox obj)) = Inr (s1, gid)"
    and b: "bind_local s1 (class_name obj) cam (local_id obj) gid = Inr s2"
    and u: "update_gallery_feature s2 cam (class_name obj) gid f (bbox_area (bbox obj)) = Inr s'"
    by blast
  have "well_formed s1" "in_gallery s1 (class_name obj) gid"
    using well_formed_register_object_in_gallery [OF _ r] assms(1) by simp_all
  then have "well_formed s2" using b by (rule well_formed_bind_local)
  then show ?thesis using u by (rule well_formed_update_gallery_feature)
qed

lemma process_object_keeps_binding:
  assumes "process_object cfg s cam obj = Inr (s', obj')"
    and "binding s t c l = Inr (Some g)"
  shows "binding s' t c l = Inr (Some g)"
  using assms(1)
proof (cases rule: process_object_cases)
  case (bound f gid)
  from process_object_boundD(1) [OF assms(1) bound] assms(2) show ?thesis
    by (simp add: update_gallery_feature_frame(9))
next
  case (small f)
  with assms show ?thesis by (auto simp: process_object_small)
next
  case (matched f m)
  from process_object_matchedD(1) [OF assms(1) matched] obtain s1 where
    b: "bind_local (s\<lparr>vessel_trajectory := (vessel_trajectory s)(local_id obj \<mapsto> bbox obj)\<rparr>)
          (class_name obj) cam (local_id obj) m = Inr s1"
    and u: "update_gallery_feature s1 cam (class_name obj) m f (bbox_area (bbox obj)) = Inr s'"
    by blast
  have "binding s1 t c l = Inr (Some g)"
    using bind_local_binding [OF b, of t c l] assms(2) matched(2) by auto
  then show ?thesis using u by (simp add: update_gallery_feature_frame(9))
next
  case (registered f)
  from process_object_registeredD [OF assms(1) registered] obtain s1 s2 gid where
    r: "register_object_in_gallery
             (s\<lparr>vessel_trajectory := (vessel_trajectory s)(local_id obj \<mapsto> bbox obj)\<rparr>)
             cam (class_name obj) f (bbox_area (bbox obj)) = Inr (s1, gid)"
    and b: "bind_local s1 (class_name obj) cam (local_id obj) gid = Inr s2"
    and u: "update_gallery_feature s2 cam (class_name obj) gid f (bbox_area (bbox obj)) = Inr s'"
    by blast
  have "binding s1 t c l = Inr (Some g)"
    using register_object_in_gallery_result(5) [OF r] assms(2) by simp
  moreover have "binding s1 (class_name obj) cam (local_id obj) = Inr None"
    using register_object_in_gallery_result(5) [OF r] registered(2) by simp
  ultimately have "binding s2 t c l = Inr (Some g)"
    using bind_local_binding [OF b, of t c l] by auto
  then show ?thesis using u by (simp add: update_gallery_feature_frame(9))
qed

lemma process_object_binds_result:
  assumes "process_object cfg s cam obj = Inr (s', obj')"
    and "global_id obj' = Some g"
  shows "binding s' (class_name obj) cam (local_id obj) = Inr (Some g)"
  using assms(1)
proof (cases rule: process_object_cases)
  case (bound f gid)
  from process_object_boundD [OF assms(1) bound] assms(2) bound(2) show ?thesis
    by (simp add: update_gallery_feature_frame(9))
next
  case (small f)
  with assms show ?thesis by (auto simp: process_object_small)
next
  case (matched f m)
  from process_object_matchedD [OF assms(1) matched] obtain s1 where
    b: "bind_local (s\<lparr>vessel_trajectory := (vessel_trajectory s)(local_id obj \<mapsto> bbox obj)\<rparr>)
          (class_name obj) cam (local_id obj) m = Inr s1"
    and u: "update_gallery_feature s1 cam (class_name obj) m f (bbox_area (bbox obj)) = Inr s'"
    and o: "obj' = update_info obj cam (Some m)"
    by blast
  have "binding s1 (class_name obj) cam (local_id obj) = Inr (Some m)"
    using bind_local_binding [OF b] by simp
  then show ?thesis using u o assms(2) by (simp add: update_gallery_feature_frame(9))
next
  case (registered f)
  from process_object_registeredD [OF assms(1) registered] obtain s1 s2 gid where
    r: "register_object_in_gallery
             (s\<lparr>vessel_trajectory := (vessel_trajectory s)(local_id obj \<mapsto> bbox obj)\<rparr>)
             cam (class_name obj) f (bbox_area (bbox obj)) = Inr (s1, gid)"
    and b: "bind_local s1 (class_name obj) cam (local_id obj) gid = Inr s2"
    and u: "update_gallery_feature s2 cam (class_name obj) gid f (bbox_area (bbox obj)) = Inr s'"
    and o: "obj' = update_info obj cam (Some gid)"
    by blast
  have "binding s2 (class_name obj) cam (local_id obj) = Inr (Some gid)"
    using bind_local_binding [OF b] by simp
  then show ?thesis using u o assms(2) by (simp add: update_gallery_feature_frame(9))
qed

lemma process_object_result_in_gallery:
  assumes "well_formed s" and "process_object cfg s cam obj = Inr (s', obj')"
    and "global_id obj' = Some g"
  shows "in_gallery s' (class_name obj) g"
  using well_formed_process_object [OF assms(1,2)] process_object_binds_result [OF assms(2,3)]
  by (auto simp: well_formed_def bindings_in_gallery_def)

section \<open>Runs keep the invariant and the bindings\<close>

lemma process_objects_invariant:
  assumes "process_objects cfg s cam objs = Inr (s', objs')"
  shows "(well_formed s \<longrightarrow> well_formed s') \<and>
         (binding s t c l = Inr (Some g) \<longrightarrow> binding s' t c l = Inr (Some g))"
  using assms
proof (induction objs arbitrary: s s' objs')
  case Nil
  then show ?case by simp
next
  case (Cons obj objs)
  from Cons.prems obtain s1 o1 r where
    p: "process_object cfg s cam obj = Inr (s1, o1)"
    and q: "process_objects cfg s1 cam objs = Inr (s', r)"
    by (auto split: sum.splits prod.splits)
  from Cons.IH [OF q] well_formed_process_object [OF _ p] process_object_keeps_binding [OF p]
  show ?case by blast
qed

lemma run_frames_invariant:
  assumes "run_frames cfg s frames = Inr (s', outs)"
  shows "(well_formed s \<longrightarrow> well_formed s') \<and>
         (binding s t c l = Inr (Some g) \<longrightarrow> binding s' t c l = Inr (Some g))"
  using assms
proof (induction frames arbitrary: s s' outs)
  case Nil
  then show ?case by simp
next
  case (Cons fr frames)
  obtain cam objs where fr: "fr = (cam, objs)" by (cases fr)
  from Cons.prems fr obtain s1 o1 r where
    p: "process_objects cfg s cam objs = Inr (s1, o1)"
    and q: "run_frames cfg s1 frames = Inr (s', r)"
    by (auto simp: process_camera_frame_def split: sum.splits prod.splits)
  from Cons.IH [OF q] process_objects_invariant [OF p, of t c l g]
  show ?case by blast
qed

section \<open>Resolving a bound local track\<close>

lemma update_gallery_feature_recorded:
  assumes "update_gallery_feature s cam t gid f a = Inr s'"
  shows "recorded_max_area s' g' c' = recorded_max_area s g' c' \<or>
         (g' = gid \<and> c' = cam \<and> recorded_max_area s' g' c' = a \<and>
          recorded_max_area s gid cam < a)"
  using assms
  by (auto simp: update_gallery_feature_def recorded_max_area_def Let_def
      split: if_splits option.splits)

lemma update_gallery_feature_unchanged:
  assumes "update_gallery_feature s cam t gid f a = Inr s'"
    and "\<not> recorded_max_area s gid cam < a"
  shows "s' = s"
  using assms by (simp add: update_gallery_feature_def)

lemma process_object_bound_total:
  assumes "well_formed s"
    and "binding s (class_name obj) cam (local_id obj) = Inr (Some gid)"
    and "feature obj = Some f"
  shows "\<exists>s'. process_object cfg s cam obj = Inr (s', update_info obj cam (Some gid)) \<and>
           update_gallery_feature
             (s\<lparr>vessel_trajectory := (vessel_trajectory s)(local_id obj \<mapsto> bbox obj)\<rparr>)
             cam (class_name obj) gid f (bbox_area (bbox obj)) = Inr s'"
proof -
  have "in_gallery s (class_name obj) gid"
    using assms(1,2) by (auto simp: well_formed_def bindings_in_gallery_def)
  then have "in_gallery (s\<lparr>vessel_trajectory := (vessel_trajectory s)(local_id obj \<mapsto> bbox obj)\<rparr>)
          (class_name obj) gid"
    by simp
  from update_gallery_feature_total [OF this, of cam f "bbox_area (bbox obj)"]
  obtain s' where "update_gallery_feature
             (s\<lparr>vessel_trajectory := (vessel_trajectory s)(local_id obj \<mapsto> bbox obj)\<rparr>)
             cam (class_name obj) gid f (bbox_area (bbox obj)) = Inr s'"
    by blast
  then show ?thesis
    by (auto simp: process_object_bound [OF assms(2,3)] finish_object_def)
qed

section \<open>The example states satisfy the invariant\<close>

lemma well_formed_example_init: "well_formed example_init"
  unfolding example_init_def by (rule well_formed_VesselMCMOT_init)

lemma run_one_registration:
  "run_frames example_config example_init [(camera1, [vessel_obj 1 (0, 0, 100, 100) (embedding 0)])]
     = Inr (one_registration,
            snd (projr (run_frames example_config example_init
              [(camera1, [vessel_obj 1 (0, 0, 100, 100) (embedding 0)])])))"
  by (simp add: one_registration_def vessel_defs example_defs Let_def)

lemma well_formed_one_registration: "well_formed one_registration"
  using run_frames_invariant [OF run_one_registration] well_formed_example_init by blast

section \<open>The counters\<close>

text \<open>
  An iteration that reaches the registration hands out the counter of the class and
  advances it by one; any other iteration leaves all counters alone.
\<close>

lemma process_object_registers:
  assumes "process_object cfg s cam obj = Inr (s', obj')"
  shows "(reaches_registration cfg s cam obj \<longrightarrow>
           (\<exists>c. global_id_counter s (class_name obj) = Some c \<and>
                global_id_counter s' = (global_id_counter s)(class_name obj \<mapsto> c + 1) \<and>
                global_id obj' = Some c)) \<and>
         (\<not> reaches_registration cfg s cam obj \<longrightarrow>
            global_id_counter s' = global_id_counter s)"
  using assms
proof (cases rule: process_object_cases)
  case (bound f gid)
  then have "\<not> reaches_registration cfg s cam obj"
    by (simp add: reaches_registration_def)
  with process_object_boundD(1) [OF assms bound] show ?thesis
    by (simp add: update_gallery_feature_frame(2))
next
  case (small f)
  then have "\<not> reaches_registration cfg s cam obj"
    by (simp add: reaches_registration_def)
  with assms small show ?thesis by (auto simp: process_object_small)
next
  case (matched f m)
  then have "\<not> reaches_registration cfg s cam obj"
    by (simp add: reaches_registration_def)
  with process_object_matchedD(1) [OF assms matched] show ?thesis
    by (auto simp: update_gallery_feature_frame(2) bind_local_frame(2))
next
  case (registered f)
  then have reach: "reaches_registration cfg s cam obj"
    by (simp add: reaches_registration_def)
  from process_object_registeredD [OF assms registered] obtain s1 s2 gid where
    r: "register_object_in_gallery
             (s\<lparr>vessel_trajectory := (vessel_trajectory s)(local_id obj \<mapsto> bbox obj)\<rparr>)
             cam (class_name obj) f (bbox_area (bbox obj)) = Inr (s1, gid)"
    and b: "bind_local s1 (class_name obj) cam (local_id obj) gid = Inr s2"
    and u: "update_gallery_feature s2 cam (class_name obj) gid f (bbox_area (bbox obj)) = Inr s'"
    and o: "obj' = update_info obj cam (Some gid)"
    by blast
  have "global_id_counter s' = global_id_counter s1"
    using update_gallery_feature_frame(2) [OF u] bind_local_frame(2) [OF b] by simp
  with register_object_in_gallery_result(1,2) [OF r] o reach show ?thesis by simp
qed

lemma registered_ids_increasing:
  "sorted_wrt (<) (registered_ids cfg s t steps) \<and>
   (\<forall>c. global_id_counter s t = Some c \<longrightarrow> (\<forall>g \<in> set (registered_ids cfg s t steps). c \<le> g))"
proof (induction steps arbitrary: s)
  case Nil
  show ?case by simp
next
  case (Cons step steps)
  obtain cam obj where step: "step = (cam, obj)" by (cases step)
  show ?case
  proof (cases "process_object cfg s cam obj")
    case (Inl e)
    with step show ?thesis by simp
  next
    case (Inr r)
    obtain s' obj' where r: "r = (s', obj')" by (cases r)
    note ih = Cons.IH [of s']
    note reg = process_object_registers [of cfg s cam obj s' obj']
    show ?thesis
    proof (cases "reaches_registration cfg s cam obj")
      case False
      with reg Inr r have "global_id_counter s' = global_id_counter s" by simp
      with ih step Inr r False show ?thesis by simp
    next
      case True
      with reg Inr r obtain c where c: "global_id_counter s (class_name obj) = Some c"
          "global_id_counter s' = (global_id_counter s)(class_name obj \<mapsto> c + 1)"
          "global_id obj' = Some c"
        by auto
      show ?thesis
      proof (cases "class_name obj = t")
        case same: True
        with c have "global_id_counter s' t = Some (c + 1)" by simp
        with ih have "\<forall>g \<in> set (registered_ids cfg s' t steps). c + 1 \<le> g" by simp
        then have "\<forall>g \<in> set (registered_ids cfg s' t steps). c < g" by auto
        with ih step Inr r c True same show ?thesis by auto
      next
        case other: False
        with c have "global_id_counter s' t = global_id_counter s t" by simp
        with ih step Inr r other show ?thesis by simp
      qed
    qed
  qed
qed

lemma MCMOT_register_object_in_gallery_counter:
  assumes "MCMOT_register_object_in_gallery s t f = Inr (s', gid)"
  shows "global_id_counter s t = Some gid"
    and "global_id_counter s' = (global_id_counter s)(t \<mapsto> gid + 1)"
  using assms
  by (auto simp: MCMOT_register_object_in_gallery_def split: option.splits sum.splits)

lemma MCMOT_process_object_registers:
  assumes "MCMOT_process_object s cam obj = Inr (s', obj')"
  shows "(MCMOT_reaches_registration s cam obj \<longrightarrow>
           (\<exists>c. global_id_counter s (class_name obj) = Some c \<and>
                global_id_counter s' = (global_id_counter s)(class_name obj \<mapsto> c + 1) \<and>
                global_id obj' = Some c)) \<and>
         (\<not> MCMOT_reaches_registration s cam obj \<longrightarrow>
            global_id_counter s' = global_id_counter s)"
proof -
  from assms obtain f where f: "feature obj = Some f"
    by (auto simp: MCMOT_process_object_def Let_def split: option.splits)
  from assms f obtain b where b: "binding s (class_name obj) cam (local_id obj) = Inr b"
    by (auto simp: MCMOT_process_object_def Let_def split: sum.splits)
  show ?thesis
  proof (cases "b = None \<and> bbox_area (bbox obj) > 10000")
    case False
    then have "\<not> MCMOT_reaches_registration s cam obj"
      using f b by (auto simp: MCMOT_reaches_registration_def)
    moreover from False assms f b have "global_id_counter s' = global_id_counter s"
      by (cases b) (auto simp: MCMOT_process_object_def Let_def)
    ultimately show ?thesis by simp
  next
    case True
    with assms f b obtain m where
      m: "MCMOT_match_with_gallery s (class_name obj) f = Inr m"
      by (auto simp: MCMOT_process_object_def Let_def split: sum.splits)
    show ?thesis
    proof (cases m)
      case (Some matched_id)
      then have "\<not> MCMOT_reaches_registration s cam obj"
        using f m by (simp add: MCMOT_reaches_registration_def)
      moreover from Some assms f b True m have "global_id_counter s' = global_id_counter s"
        by (auto simp: MCMOT_process_object_def Let_def bind_local_frame(2) split: sum.splits)
      ultimately show ?thesis by simp
    next
      case None
      then have reach: "MCMOT_reaches_registration s cam obj"
        using f b m True by (simp add: MCMOT_reaches_registration_def)
      from None assms f b True m obtain s1 gid where
        r: "MCMOT_register_object_in_gallery s (class_name obj) f = Inr (s1, gid)"
        and bl: "bind_local s1 (class_name obj) cam (local_id obj) gid = Inr s'"
        and o: "obj' = obj\<lparr>global_id := Some gid\<rparr>"
        by (auto simp: MCMOT_process_object_def Let_def split: sum.splits prod.splits)
      from MCMOT_register_object_in_gallery_counter [OF r] bind_local_frame(2) [OF bl] o reach
      show ?thesis by simp
    qed
  qed
qed

lemma MCMOT_clear_type_counter:
  "MCMOT_clear_type s cam t = Inr s' \<Longrightarrow> global_id_counter s' = global_id_counter s"
  by (auto simp: MCMOT_clear_type_def Let_def split: option.splits if_splits)

lemma MCMOT_clear_counter:
  "MCMOT_clear s cam ts = Inr s' \<Longrightarrow> global_id_counter s' = global_id_counter s"
proof (induction ts arbitrary: s)
  case Nil
  then show ?case by simp
next
  case (Cons t ts)
  then show ?case
    by (auto split: sum.splits dest: MCMOT_clear_type_counter)
qed

text \<open>
  Within a frame: the ids are increasing, at least the counter at the start and below the
  counter at the end.
\<close>

lemma MCMOT_registered_in_frame_increasing:
  "sorted_wrt (<) (MCMOT_registered_in_frame s t cam objs) \<and>
   (\<forall>c. global_id_counter s t = Some c \<longrightarrow>
      (\<forall>g \<in> set (MCMOT_registered_in_frame s t cam objs). c \<le> g)) \<and>
   (\<forall>s' out. MCMOT_process_objects s cam objs = Inr (s', out) \<longrightarrow>
      (case global_id_counter s t of
         None \<Rightarrow> global_id_counter s' t = None \<and> MCMOT_registered_in_frame s t cam objs = []
       | Some c \<Rightarrow> (\<exists>c'. global_id_counter s' t = Some c' \<and> c \<le> c' \<and>
            (\<forall>g \<in> set (MCMOT_registered_in_frame s t cam objs). g < c'))))"
proof (induction objs arbitrary: s)
  case Nil
  show ?case by (auto split: option.splits)
next
  case (Cons obj objs)
  show ?case
  proof (cases "MCMOT_process_object s cam obj")
    case (Inl e)
    then show ?thesis by simp
  next
    case (Inr r)
    obtain s1 obj' where r: "r = (s1, obj')" by (cases r)
    note ih = Cons.IH [of s1]
    note reg = MCMOT_process_object_registers [of s cam obj s1 obj']
    have unchanged: ?thesis
      if same: "global_id_counter s1 t = global_id_counter s t"
        and none: "\<not> (MCMOT_reaches_registration s cam obj \<and> class_name obj = t)"
    proof -
      have ids: "MCMOT_registered_in_frame s t cam (obj # objs)
            = MCMOT_registered_in_frame s1 t cam objs"
        using Inr r none by auto
      show ?thesis
        unfolding ids using ih same Inr r
        by (auto split: sum.splits prod.splits option.splits)
    qed
    show ?thesis
    proof (cases "MCMOT_reaches_registration s cam obj")
      case False
      with reg Inr r have "global_id_counter s1 = global_id_counter s" by simp
      with False show ?thesis by (intro unchanged) simp_all
    next
      case True
      with reg Inr r obtain c where c: "global_id_counter s (class_name obj) = Some c"
          "global_id_counter s1 = (global_id_counter s)(class_name obj \<mapsto> c + 1)"
          "global_id obj' = Some c"
        by auto
      show ?thesis
      proof (cases "class_name obj = t")
        case False
        with c have "global_id_counter s1 t = global_id_counter s t" by simp
        with False show ?thesis by (intro unchanged) simp_all
      next
        case same: True
        with c have c1: "global_id_counter s1 t = Some (c + 1)"
          and c0: "global_id_counter s t = Some c" by simp_all
        from ih c1 have lo: "\<forall>g \<in> set (MCMOT_registered_in_frame s1 t cam objs). c < g"
          by fastforce
        have ids: "MCMOT_registered_in_frame s t cam (obj # objs)
            = c # MCMOT_registered_in_frame s1 t cam objs"
          using Inr r True same c(3) by simp
        have "sorted_wrt (<) (MCMOT_registered_in_frame s t cam (obj # objs))"
          using ids ih lo by simp
        moreover have "\<forall>c'. global_id_counter s t = Some c' \<longrightarrow>
            (\<forall>g \<in> set (MCMOT_registered_in_frame s t cam (obj # objs)). c' \<le> g)"
          using ids c0 lo by auto
        moreover have "\<forall>s' out. MCMOT_process_objects s cam (obj # objs) = Inr (s', out) \<longrightarrow>
            (case global_id_counter s t of
               None \<Rightarrow> global_id_counter s' t = None \<and>
                 MCMOT_registered_in_frame s t cam (obj # objs) = []
             | Some c \<Rightarrow> (\<exists>c'. global_id_counter s' t = Some c' \<and> c \<le> c' \<and>
                (\<forall>g \<in> set (MCMOT_registered_in_frame s t cam (obj # objs)). g < c')))"
        proof (intro allI impI)
          fix s' out
          assume "MCMOT_process_objects s cam (obj # objs) = Inr (s', out)"
          with Inr r obtain out1 where "MCMOT_process_objects s1 cam objs = Inr (s', out1)"
            by (auto split: sum.splits prod.splits)
          with ih c1 obtain c' where c': "global_id_counter s' t = Some c'" "c + 1 \<le> c'"
            "\<forall>g \<in> set (MCMOT_registered_in_frame s1 t cam objs). g < c'"
            by fastforce
          then show "case global_id_counter s t of
               None \<Rightarrow> global_id_counter s' t = None \<and>
                 MCMOT_registered_in_frame s t cam (obj # objs) = []
             | Some c \<Rightarrow> (\<exists>c'. global_id_counter s' t = Some c' \<and> c \<le> c' \<and>
                (\<forall>g \<in> set (MCMOT_registered_in_frame s t cam (obj # objs)). g < c'))"
            using c0 ids by auto
        qed
        ultimately show ?thesis by blast
      qed
    qed
  qed
qed

lemma MCMOT_process_camera_frame_counter:
  assumes "MCMOT_process_camera_frame s objs cam = Inr (s', out)"
  shows "\<exists>s1 out1. MCMOT_process_objects s cam objs = Inr (s1, out1) \<and>
           global_id_counter s' = global_id_counter s1"
  using assms
  by (auto simp: MCMOT_process_camera_frame_def split: sum.splits prod.splits if_splits
      dest: MCMOT_clear_counter)

lemma MCMOT_registered_ids_increasing:
  "sorted_wrt (<) (MCMOT_registered_ids s t frames) \<and>
   (\<forall>c. global_id_counter s t = Some c \<longrightarrow> (\<forall>g \<in> set (MCMOT_registered_ids s t frames). c \<le> g))"
proof (induction frames arbitrary: s)
  case Nil
  show ?case by simp
next
  case (Cons fr frames)
  obtain cam objs where fr: "fr = (cam, objs)" by (cases fr)
  note inframe = MCMOT_registered_in_frame_increasing [of s t cam objs]
  show ?case
  proof (cases "MCMOT_process_camera_frame s objs cam")
    case (Inl e)
    with fr inframe show ?thesis by simp
  next
    case (Inr r)
    obtain s' out where r: "r = (s', out)" by (cases r)
    from MCMOT_process_camera_frame_counter [of s objs cam s' out] Inr r obtain s1 out1 where
      po: "MCMOT_process_objects s cam objs = Inr (s1, out1)"
      and cnt: "global_id_counter s' = global_id_counter s1"
      by auto
    note ih = Cons.IH [of s']
    have ids: "MCMOT_registered_ids s t (fr # frames)
        = MCMOT_registered_in_frame s t cam objs @ MCMOT_registered_ids s' t frames"
      using fr Inr r by simp
    show ?thesis
    proof (cases "global_id_counter s t")
      case None
      with inframe po cnt have "MCMOT_registered_in_frame s t cam objs = []"
        by auto
      with ids ih None show ?thesis by simp
    next
      case (Some c)
      with inframe po cnt obtain c' where c': "global_id_counter s' t = Some c'" "c \<le> c'"
        "\<forall>g \<in> set (MCMOT_registered_in_frame s t cam objs). g < c'"
        by fastforce
      with ih have hi: "\<forall>g \<in> set (MCMOT_registered_ids s' t frames). c' \<le> g" by simp
      have "sorted_wrt (<) (MCMOT_registered_ids s t (fr # frames))"
        unfolding ids sorted_wrt_append using inframe ih c'(3) hi by fastforce
      moreover have "\<forall>g \<in> set (MCMOT_registered_ids s t (fr # frames)). c \<le> g"
        unfolding ids using inframe Some hi c'(2) by fastforce
      ultimately show ?thesis using Some by simp
    qed
  qed
qed

section \<open>Bounds of \<open>pi\<close>\<close>

text \<open>
  The sine is increasing on \<open>[-pi/2, pi/2]\<close> and \<open>sin (pi/6) = 1/2\<close>, so two rational
  arguments whose sines lie on either side of \<open>1/2\<close> enclose \<open>pi/6\<close>.  The sines are
  bounded by the Maclaurin polynomial of degree 9 and its remainder.
\<close>

lemma sin_coeff_values:
  "sin_coeff (Suc 0) = 1" "sin_coeff 2 = 0" "sin_coeff 3 = - 1 / 6"
  "sin_coeff 4 = 0" "sin_coeff 5 = 1 / 120" "sin_coeff 6 = 0" "sin_coeff 7 = - 1 / 5040"
  "sin_coeff 8 = 0" "sin_coeff 9 = 1 / 362880"
  by (simp_all add: sin_coeff_def fact_numeral)

lemma sin_coeff_sum10:
  "(\<Sum>m<10. sin_coeff m * x ^ m) = (x::real) - x^3 / 6 + x^5 / 120 - x^7 / 5040 + x^9 / 362880"
proof -
  have "{..<10::nat} = {0, 1, 2, 3, 4, 5, 6, 7, 8, 9}" by auto
  then show ?thesis by (simp add: sin_coeff_values)
qed

lemma sin_remainder10:
  "\<bar>sin (x::real) - (x - x^3 / 6 + x^5 / 120 - x^7 / 5040 + x^9 / 362880)\<bar> \<le> \<bar>x\<bar> ^ 10 / 3628800"
proof -
  have "inverse (fact 10 :: real) = 1 / 3628800" by (simp add: fact_numeral)
  with Maclaurin_sin_bound [of x 10] show ?thesis by (simp add: sin_coeff_sum10)
qed

lemma sin_above_half: "1 / 2 < sin (523602 / 1000000 :: real)"
proof -
  have "1 / 2 < (523602 / 1000000 :: real) - (523602 / 1000000)^3 / 6
      + (523602 / 1000000)^5 / 120 - (523602 / 1000000)^7 / 5040
      + (523602 / 1000000)^9 / 362880 - \<bar>523602 / 1000000 :: real\<bar> ^ 10 / 3628800"
    by (simp add: power_divide)
  then show ?thesis using sin_remainder10 [of "523602 / 1000000"] by linarith
qed

lemma sin_below_half: "sin (523595 / 1000000 :: real) < 1 / 2"
proof -
  have "(523595 / 1000000 :: real) - (523595 / 1000000)^3 / 6
      + (523595 / 1000000)^5 / 120 - (523595 / 1000000)^7 / 5040
      + (523595 / 1000000)^9 / 362880 + \<bar>523595 / 1000000 :: real\<bar> ^ 10 / 3628800 < 1 / 2"
    by (simp add: power_divide)
  then show ?thesis using sin_remainder10 [of "523595 / 1000000"] by linarith
qed

lemma pi_lower_bound: "314157 / 100000 < pi"
proof -
  have "sin (523595 / 1000000 :: real) < sin (pi / 6)"
    using sin_below_half by (simp add: sin_30)
  moreover have "523595 / 1000000 \<le> pi / 2" "- (pi / 2) \<le> 523595 / 1000000"
    "- (pi / 2) \<le> pi / 6" "pi / 6 \<le> pi / 2"
    using pi_ge_two by simp_all
  ultimately have "523595 / 1000000 < pi / 6"
    using sin_mono_less_eq [of "523595 / 1000000" "pi / 6"] by blast
  then show ?thesis by simp
qed

lemma pi_upper_bound: "pi < 3141612 / 1000000"
proof -
  have "sin (pi / 6) < sin (523602 / 1000000 :: real)"
    using sin_above_half by (simp add: sin_30)
  moreover have "523602 / 1000000 \<le> pi / 2" "- (pi / 2) \<le> 523602 / 1000000"
    "- (pi / 2) \<le> pi / 6" "pi / 6 \<le> pi / 2"
    using pi_ge_two by simp_all
  ultimately have "pi / 6 < 523602 / 1000000"
    using sin_mono_less_eq [of "pi / 6" "523602 / 1000000"] by blast
  then show ?thesis by simp
qed

section \<open>The reference scale\<close>

lemma half_angle_sin: "(sin (x / 2))\<^sup>2 = (1 - cos x) / 2" for x :: real
  using cos_double_sin [of "x / 2"] by simp

lemma haversine_term:
  fixes p1 l1 p2 l2 :: real
  shows "(sin ((p2 - p1) / 2))\<^sup>2 + cos p1 * cos p2 * (sin ((l2 - l1) / 2))\<^sup>2
       = (1 - (sin p1 * sin p2 + cos p1 * cos p2 * cos (l2 - l1))) / 2"
proof -
  have "(sin ((p2 - p1) / 2))\<^sup>2 = (1 - (cos p2 * cos p1 + sin p2 * sin p1)) / 2"
    by (simp add: half_angle_sin cos_diff)
  moreover have "(sin ((l2 - l1) / 2))\<^sup>2 = (1 - cos (l2 - l1)) / 2"
    by (rule half_angle_sin)
  ultimately show ?thesis
    by (simp only:) (simp add: field_simps)
qed

lemma product_bound:
  fixes a b :: real
  shows "\<bar>a * b\<bar> \<le> (a\<^sup>2 + b\<^sup>2) / 2"
  using sum_squares_bound [of "\<bar>a\<bar>" "\<bar>b\<bar>"] by (simp add: abs_mult)

lemma direction_cosine_range:
  fixes p1 p2 d :: real
  shows "\<bar>sin p1 * sin p2 + cos p1 * cos p2 * cos d\<bar> \<le> 1"
proof -
  have "\<bar>cos p1 * cos p2 * cos d\<bar> \<le> \<bar>cos p1 * cos p2\<bar> * 1"
    unfolding abs_mult [of "cos p1 * cos p2" "cos d"]
    by (rule mult_left_mono) simp_all
  then have "\<bar>sin p1 * sin p2 + cos p1 * cos p2 * cos d\<bar> \<le> \<bar>sin p1 * sin p2\<bar> + \<bar>cos p1 * cos p2\<bar>"
    by linarith
  also have "\<dots> \<le> ((sin p1)\<^sup>2 + (sin p2)\<^sup>2) / 2 + ((cos p1)\<^sup>2 + (cos p2)\<^sup>2) / 2"
    using product_bound [of "sin p1" "sin p2"] product_bound [of "cos p1" "cos p2"] by linarith
  also have "\<dots> = 1"
    by (simp add: cos_squared_eq field_simps)
  finally show ?thesis .
qed

lemma atan2_sqrt_arcsin:
  assumes "0 \<le> h" and "h \<le> 1"
  shows "atan2 (sqrt h) (sqrt (1 - h)) = arcsin (sqrt h)"
proof (cases "h = 1")
  case True
  then show ?thesis by (simp add: atan2_def)
next
  case False
  with assms have h: "h < 1" by simp
  have y: "0 \<le> sqrt h" "sqrt h < 1" using assms(1) h by simp_all
  then have "- 1 < sqrt h" by linarith
  from arcsin_lt_bounded [OF this y(2)]
  have b: "- (pi / 2) < arcsin (sqrt h)" "arcsin (sqrt h) < pi / 2"
    by simp_all
  have y': "- 1 \<le> sqrt h" "sqrt h \<le> 1" using y by linarith+
  then have "cos (arcsin (sqrt h)) = sqrt (1 - (sqrt h)\<^sup>2)"
    by (rule cos_arcsin)
  then have c: "cos (arcsin (sqrt h)) = sqrt (1 - h)" using assms(1) by simp
  have s: "sin (arcsin (sqrt h)) = sqrt h" using y' by (rule sin_arcsin)
  have pos: "0 < sqrt (1 - h)" using h by simp
  have "atan2 (sqrt h) (sqrt (1 - h)) = arctan (sqrt h / sqrt (1 - h))"
    using pos by (simp add: atan2_def)
  also have "\<dots> = arctan (tan (arcsin (sqrt h)))"
    by (simp only: tan_def s c)
  also have "\<dots> = arcsin (sqrt h)"
    using b by (rule arctan_tan)
  finally show ?thesis .
qed

lemma arcsin_half_arccos:
  assumes "- 1 \<le> d" and "d \<le> 1"
  shows "2 * arcsin (sqrt ((1 - d) / 2)) = arccos d"
proof -
  have r: "0 \<le> arccos d" "arccos d \<le> pi" "cos (arccos d) = d"
    using arccos [OF assms] by simp_all
  have "0 \<le> sin (arccos d / 2)"
    using r(1,2) by (intro sin_ge_zero) simp_all
  moreover have "(sin (arccos d / 2))\<^sup>2 = (1 - d) / 2"
    using half_angle_sin [of "arccos d"] r(3) by simp
  ultimately have "sqrt ((1 - d) / 2) = sin (arccos d / 2)"
    by (metis real_sqrt_abs abs_of_nonneg)
  moreover have "arcsin (sin (arccos d / 2)) = arccos d / 2"
    using r(1,2) by (intro arcsin_sin) simp_all
  ultimately show ?thesis by simp
qed

lemma haversine_distance_formula:
  "haversine_distance s lat1 lon1 lat2 lon2
     = haversine_formula (earth_radius s) (lat1, lon1) (lat2, lon2)"
proof -
  define p1 where "p1 = lat1 * pi / 180"
  define l1 where "l1 = lon1 * pi / 180"
  define p2 where "p2 = lat2 * pi / 180"
  define l2 where "l2 = lon2 * pi / 180"
  define h where "h = (sin ((p2 - p1) / 2))\<^sup>2 + cos p1 * cos p2 * (sin ((l2 - l1) / 2))\<^sup>2"
  have hd: "haversine_distance s lat1 lon1 lat2 lon2
      = earth_radius s * (2 * atan2 (sqrt h) (sqrt (1 - h)))"
    by (simp only: haversine_distance_def radians_def Let_def h_def p1_def l1_def p2_def l2_def)
  have hf: "haversine_formula (earth_radius s) (lat1, lon1) (lat2, lon2)
      = 2 * earth_radius s * arcsin (sqrt h)"
    by (simp only: haversine_formula_def Let_def fst_conv snd_conv h_def p1_def l1_def p2_def
        l2_def)
  have h2: "h = (1 - (sin p1 * sin p2 + cos p1 * cos p2 * cos (l2 - l1))) / 2"
    unfolding h_def by (rule haversine_term)
  have "0 \<le> h" "h \<le> 1"
    using direction_cosine_range [of p1 p2 "l2 - l1"] unfolding h2 by (simp_all add: abs_le_iff)
  then have "atan2 (sqrt h) (sqrt (1 - h)) = arcsin (sqrt h)"
    by (rule atan2_sqrt_arcsin)
  with hd hf show ?thesis by simp
qed

lemma haversine_formula_great_circle:
  "haversine_formula R p q = great_circle_distance R p q"
proof -
  define p1 where "p1 = fst p * pi / 180"
  define l1 where "l1 = snd p * pi / 180"
  define p2 where "p2 = fst q * pi / 180"
  define l2 where "l2 = snd q * pi / 180"
  define d where "d = sin p1 * sin p2 + cos p1 * cos p2 * cos (l2 - l1)"
  have hf: "haversine_formula R p q
      = 2 * R * arcsin (sqrt ((sin ((p2 - p1) / 2))\<^sup>2
                              + cos p1 * cos p2 * (sin ((l2 - l1) / 2))\<^sup>2))"
    by (simp only: haversine_formula_def Let_def p1_def l1_def p2_def l2_def)
  have gc: "great_circle_distance R p q = R * arccos d"
    by (simp only: great_circle_distance_def Let_def d_def p1_def l1_def p2_def l2_def)
  have e: "(sin ((p2 - p1) / 2))\<^sup>2 + cos p1 * cos p2 * (sin ((l2 - l1) / 2))\<^sup>2 = (1 - d) / 2"
    unfolding d_def by (rule haversine_term)
  have "- 1 \<le> d" "d \<le> 1"
    using direction_cosine_range [of p1 p2 "l2 - l1"] unfolding d_def by (simp_all add: abs_le_iff)
  then have a: "2 * arcsin (sqrt ((1 - d) / 2)) = arccos d"
    by (rule arcsin_half_arccos)
  have "haversine_formula R p q = 2 * R * arcsin (sqrt ((1 - d) / 2))"
    by (simp only: hf e)
  also have "\<dots> = R * (2 * arcsin (sqrt ((1 - d) / 2)))"
    by simp
  also have "\<dots> = R * arccos d"
    by (simp only: a)
  finally show ?thesis
    by (simp only: gc)
qed

lemma atan2_sin_cos:
  assumes "- (pi / 2) < x" and "x < pi / 2"
  shows "atan2 (sin x) (cos x) = x"
proof -
  have "0 < cos x" using assms by (rule cos_gt_zero_pi)
  then have "atan2 (sin x) (cos x) = arctan (tan x)"
    by (simp add: atan2_def tan_def)
  then show ?thesis using assms by (simp add: arctan_tan)
qed

lemma haversine_one_degree:
  "haversine_distance s 0 0 1 0 = earth_radius s * (pi / 180)"
proof -
  have small: "0 < pi / 360" "pi / 360 < pi / 2" "pi / 360 < pi" "- (pi / 2) < pi / 360"
    by simp_all
  have sin_pos: "0 < sin (pi / 360)"
    using small(1,3) by (rule sin_gt_zero)
  have cos_pos: "0 < cos (pi / 360)"
    using small(1,2) by (rule cos_gt_zero)
  have a1: "sqrt ((sin (pi / 360))\<^sup>2) = sin (pi / 360)"
    using sin_pos by simp
  have "1 - (sin (pi / 360))\<^sup>2 = (cos (pi / 360))\<^sup>2"
    by (simp add: cos_squared_eq)
  then have a2: "sqrt (1 - (sin (pi / 360))\<^sup>2) = cos (pi / 360)"
    using cos_pos by simp
  have a3: "atan2 (sin (pi / 360)) (cos (pi / 360)) = pi / 360"
    using small(4,2) by (rule atan2_sin_cos)
  have "haversine_distance s 0 0 1 0 =
      earth_radius s * (2 * atan2 (sqrt ((sin (pi / 360))\<^sup>2)) (sqrt (1 - (sin (pi / 360))\<^sup>2)))"
    by (simp add: haversine_distance_def radians_def Let_def)
  also have "\<dots> = earth_radius s * (2 * (pi / 360))"
    by (simp only: a1 a2 a3)
  finally show ?thesis by simp
qed

lemma pixel_distance_zero:
  "sqrt ((fst q - fst p)\<^sup>2 + (snd q - snd p)\<^sup>2) = 0 \<longleftrightarrow> p = (q :: real \<times> real)"
  by (auto simp: prod_eq_iff)

lemma haversine_distance_scale_update [simp]:
  "haversine_distance (s\<lparr>reference_points := x\<rparr>) a b c d = haversine_distance s a b c d"
  by (simp add: haversine_distance_def)

section \<open>The best shot of an identity\<close>

lemma best_shot_append: "best_shot b (xs @ ys) = best_shot (best_shot b xs) ys"
  by (induction b xs rule: best_shot.induct) simp_all

lemma register_object_in_gallery_recorded:
  assumes "register_object_in_gallery s cam t f a = Inr (s', gid)"
  shows "recorded_max_area s' g' c' =
           (if g' = gid then (if c' = cam then a else 0) else recorded_max_area s g' c')"
    and "max_size_record s' g' \<noteq> None \<longleftrightarrow> g' = gid \<or> max_size_record s g' \<noteq> None"
  using assms
  by (auto simp: register_object_in_gallery_def recorded_max_area_def
      split: option.splits if_splits sum.splits)

lemma update_gallery_feature_records:
  assumes "update_gallery_feature s cam t gid f a = Inr s'"
  shows "max_size_record s' g' \<noteq> None \<longleftrightarrow> max_size_record s g' \<noteq> None"
  using assms
  by (auto simp: update_gallery_feature_def Let_def split: option.splits if_splits)

text \<open>
  The feature update in a state with the recorded areas in order, applied to a shot of
  positive area or to a pair that has an embedding stored: the pair of the shot moves by
  the best-shot rule, all other pairs stay.
\<close>

lemma update_gallery_feature_best_shot:
  assumes u: "update_gallery_feature s cam t gid f a = Inr s'"
    and g: "in_gallery s t gid"
    and rec: "max_size_record s gid \<noteq> None"
    and zero: "stored_feature s t gid cam = None \<longrightarrow> recorded_max_area s gid cam = 0"
    and pos: "0 < a \<or> stored_feature s t gid cam \<noteq> None"
  shows "current_shot s' t g' c' =
           (if g' = gid \<and> c' = cam then best_shot (current_shot s t gid cam) [(a, f)]
            else current_shot s t g' c')"
    and "stored_feature s' t g' c' = None \<longrightarrow>
           stored_feature s t g' c' = None \<and> recorded_max_area s' g' c' = recorded_max_area s g' c'"
proof -
  show "current_shot s' t g' c' =
           (if g' = gid \<and> c' = cam then best_shot (current_shot s t gid cam) [(a, f)]
            else current_shot s t g' c')"
  proof (cases "recorded_max_area s gid cam < a")
    case True
    from update_gallery_feature_store [OF True g, of f] u rec
    have st: "stored_feature s' t gid cam = Some f"
      and other: "\<And>t' g' c'. (t', g', c') \<noteq> (t, gid, cam) \<Longrightarrow>
              stored_feature s' t' g' c' = stored_feature s t' g' c'"
      and orec: "\<And>g' c'. (g', c') \<noteq> (gid, cam) \<Longrightarrow>
              recorded_max_area s' g' c' = recorded_max_area s g' c'"
      and nrec: "recorded_max_area s' gid cam = a"
      by auto
    show ?thesis
    proof (cases "g' = gid \<and> c' = cam")
      case same: True
      with st nrec True show ?thesis
        by (cases "stored_feature s t gid cam") (simp_all add: current_shot_def)
    next
      case False
      then have "(t, g', c') \<noteq> (t, gid, cam)" "(g', c') \<noteq> (gid, cam)" by auto
      with other orec False show ?thesis
        by (auto simp: current_shot_def split: option.splits)
    qed
  next
    case False
    with u have same: "s' = s" by (rule update_gallery_feature_unchanged)
    from False pos zero obtain f0 where f0: "stored_feature s t gid cam = Some f0"
      by (cases "stored_feature s t gid cam") auto
    with False same show ?thesis by (simp add: current_shot_def)
  qed
  show "stored_feature s' t g' c' = None \<longrightarrow>
           stored_feature s t g' c' = None \<and> recorded_max_area s' g' c' = recorded_max_area s g' c'"
  proof (cases "recorded_max_area s gid cam < a")
    case True
    from update_gallery_feature_store [OF True g, of f] u
    have st: "stored_feature s' t gid cam = Some f"
      and other: "\<And>t' g' c'. (t', g', c') \<noteq> (t, gid, cam) \<Longrightarrow>
              stored_feature s' t' g' c' = stored_feature s t' g' c'"
      and orec: "\<And>g' c'. (g', c') \<noteq> (gid, cam) \<Longrightarrow>
              recorded_max_area s' g' c' = recorded_max_area s g' c'"
      by auto
    show ?thesis
    proof (cases "g' = gid \<and> c' = cam")
      case same: True
      with st show ?thesis by simp
    next
      case False
      then have "(t, g', c') \<noteq> (t, gid, cam)" "(g', c') \<noteq> (gid, cam)" by auto
      with other orec show ?thesis by simp
    qed
  next
    case False
    with u have "s' = s" by (rule update_gallery_feature_unchanged)
    then show ?thesis by simp
  qed
qed

lemma areas_recorded_VesselMCMOT_init: "areas_recorded (VesselMCMOT_init cfg ts thr) t"
  using well_formed_VesselMCMOT_init [of cfg ts thr]
  by (auto simp: areas_recorded_def VesselMCMOT_init_def in_gallery_def per_type_apply
      recorded_max_area_def binding_def split: option.splits if_splits)

lemma areas_recorded_vessel_trajectory [simp]:
  "areas_recorded (s\<lparr>vessel_trajectory := x\<rparr>) t = areas_recorded s t"
  by (simp add: areas_recorded_def)

lemma current_shot_vessel_trajectory [simp]:
  "current_shot (s\<lparr>vessel_trajectory := x\<rparr>) t g c = current_shot s t g c"
  by (simp add: current_shot_def cong: option.case_cong)

text \<open>A resolved shot: binding or match first, then the feature update.\<close>

lemma best_shot_one_more: "best_shot b [x] \<noteq> None"
  by (cases b; cases x) auto

lemma resolved_shot_step:
  assumes k: "areas_recorded s t"
    and same: "\<And>g c. current_shot s1 t g c = current_shot s t g c"
      "\<And>g c. stored_feature s1 t g c = stored_feature s t g c"
      "\<And>g c. recorded_max_area s1 g c = recorded_max_area s g c"
      "\<And>g. in_gallery s1 t g = in_gallery s t g"
      "max_size_record s1 = max_size_record s"
    and bnd: "\<And>c lid g. binding s1 t c lid = Inr (Some g) \<Longrightarrow>
               binding s t c lid = Inr (Some g) \<or> (g = gid \<and> c = cam)"
    and w1: "well_formed s1"
    and g: "in_gallery s t gid"
    and u: "update_gallery_feature s1 cam t gid f a = Inr s'"
    and pos: "0 < a \<or> stored_feature s t gid cam \<noteq> None"
  shows "areas_recorded s' t"
    and "current_shot s' t g' c' =
           (if g' = gid \<and> c' = cam then best_shot (current_shot s t gid cam) [(a, f)]
            else current_shot s t g' c')"
proof -
  have g1: "in_gallery s1 t gid" using g same(4) by simp
  have rec1: "max_size_record s1 gid \<noteq> None"
    using k g same(5) by (simp add: areas_recorded_def)
  have zero1: "stored_feature s1 t gid cam = None \<longrightarrow> recorded_max_area s1 gid cam = 0"
    using k same(2,3) by (simp add: areas_recorded_def)
  have pos1: "0 < a \<or> stored_feature s1 t gid cam \<noteq> None"
    using pos same(2) by simp
  note b = update_gallery_feature_best_shot [OF u g1 rec1 zero1 pos1]
  show cur: "current_shot s' t g' c' =
           (if g' = gid \<and> c' = cam then best_shot (current_shot s t gid cam) [(a, f)]
            else current_shot s t g' c')" for g' c'
    using b(1) [of g' c'] same(1) by simp
  have "well_formed s'" using w1 u by (rule well_formed_update_gallery_feature)
  moreover have "\<forall>g. in_gallery s' t g \<longrightarrow> max_size_record s' g \<noteq> None"
    using k same(4,5) update_gallery_feature_frame(8) [OF u] update_gallery_feature_records [OF u]
    by (simp add: areas_recorded_def)
  moreover have "\<forall>g c. stored_feature s' t g c = None \<longrightarrow> recorded_max_area s' g c = 0"
  proof (intro allI impI)
    fix g c assume n: "stored_feature s' t g c = None"
    with b(2) [of g c] have "stored_feature s1 t g c = None"
      "recorded_max_area s' g c = recorded_max_area s1 g c" by simp_all
    with k same(2,3) show "recorded_max_area s' g c = 0" by (simp add: areas_recorded_def)
  qed
  moreover have "\<forall>c lid g. binding s' t c lid = Inr (Some g) \<longrightarrow> stored_feature s' t g c \<noteq> None"
  proof (intro allI impI)
    fix c lid g0 assume "binding s' t c lid = Inr (Some g0)"
    then have "binding s1 t c lid = Inr (Some g0)"
      using update_gallery_feature_frame(9) [OF u] by simp
    from bnd [OF this] show "stored_feature s' t g0 c \<noteq> None"
    proof
      assume "binding s t c lid = Inr (Some g0)"
      with k have "stored_feature s t g0 c \<noteq> None" by (simp add: areas_recorded_def)
      then have "stored_feature s1 t g0 c \<noteq> None" using same(2) by simp
      with b(2) [of g0 c] show ?thesis by auto
    next
      assume here: "g0 = gid \<and> c = cam"
      have "current_shot s' t gid cam \<noteq> None"
        using cur [of gid cam] best_shot_one_more [of "current_shot s t gid cam" "(a, f)"]
        by simp
      with here show ?thesis by (auto simp: current_shot_def split: option.splits)
    qed
  qed
  ultimately show "areas_recorded s' t" by (simp add: areas_recorded_def)
qed

text \<open>
  One iteration over a detection of class \<open>t\<close>.  A matched detection has an area of at
  least the size threshold; its area is positive when the threshold is.
\<close>

lemma process_object_best_shot:
  assumes k: "areas_recorded s t"
    and p: "process_object cfg s cam obj = Inr (s', obj')"
    and cls: "class_name obj = t"
    and pos: "0 < size_threshold s \<or> 0 < bbox_area (bbox obj)"
  shows "areas_recorded s' t"
    and "current_shot s' t g c =
           best_shot (current_shot s t g c) (shots_of cfg s t g c [(cam, obj)])"
    and "size_threshold s' = size_threshold s"
proof -
  let ?s0 = "s\<lparr>vessel_trajectory := (vessel_trajectory s)(local_id obj \<mapsto> bbox obj)\<rparr>"
  let ?a = "bbox_area (bbox obj)"
  have w: "well_formed s" using k by (simp add: areas_recorded_def)
  have w0: "well_formed ?s0" using w by simp
  have all: "areas_recorded s' t \<and> current_shot s' t g c =
           best_shot (current_shot s t g c) (shots_of cfg s t g c [(cam, obj)]) \<and>
           size_threshold s' = size_threshold s"
    using p
  proof (cases rule: process_object_cases)
    case (bound f gid)
    note d = process_object_boundD [OF p bound]
    have u: "update_gallery_feature ?s0 cam t gid f ?a = Inr s'"
      using d(1) cls by simp
    have gal: "in_gallery s t gid"
      using w bound(2) cls by (auto simp: well_formed_def bindings_in_gallery_def)
    have st: "0 < ?a \<or> stored_feature s t gid cam \<noteq> None"
      using k bound(2) cls by (auto simp: areas_recorded_def)
    have same: "\<And>g c. current_shot ?s0 t g c = current_shot s t g c"
      "\<And>g c. stored_feature ?s0 t g c = stored_feature s t g c"
      "\<And>g c. recorded_max_area ?s0 g c = recorded_max_area s g c"
      "\<And>g. in_gallery ?s0 t g = in_gallery s t g"
      "max_size_record ?s0 = max_size_record s"
      by simp_all
    have bnd: "\<And>c lid g. binding ?s0 t c lid = Inr (Some g) \<Longrightarrow>
               binding s t c lid = Inr (Some g) \<or> (g = gid \<and> c = cam)"
      by simp
    note step = resolved_shot_step [OF k same bnd w0 gal u st]
    have "size_threshold s' = size_threshold s"
      using update_gallery_feature_frame(5) [OF u] by simp
    with step(1) step(2) [of g c] show ?thesis
      using p d(2) bound(1) cls by auto
  next
    case (small f)
    with k p show ?thesis by (auto simp: process_object_small)
  next
    case (matched f m)
    from process_object_matchedD [OF p matched] obtain s1 where
      b: "bind_local ?s0 (class_name obj) cam (local_id obj) m = Inr s1"
      and u0: "update_gallery_feature s1 cam (class_name obj) m f ?a = Inr s'"
      and o: "obj' = update_info obj cam (Some m)"
      by blast
    have u: "update_gallery_feature s1 cam t m f ?a = Inr s'" using u0 cls by simp
    have gal: "in_gallery s t m"
      using match_with_gallery_in_gallery [OF matched(3)] cls by simp
    have w1: "well_formed s1"
      using well_formed_bind_local [OF _ _ b] w gal cls by simp
    have "\<not> real_of_int ?a < size_threshold s"
      using matched(3) match_with_gallery_small [of ?a s cfg "class_name obj" f cam] by auto
    with pos have st: "0 < ?a \<or> stored_feature s t m cam \<noteq> None" by auto
    note bf = bind_local_vessel_frame [OF b]
    have same: "\<And>g c. current_shot s1 t g c = current_shot s t g c"
      "\<And>g c. stored_feature s1 t g c = stored_feature s t g c"
      "\<And>g c. recorded_max_area s1 g c = recorded_max_area s g c"
      "\<And>g. in_gallery s1 t g = in_gallery s t g"
      "max_size_record s1 = max_size_record s"
      using bf(1,5,6) in_gallery_bind_local [OF b]
      by (simp_all add: current_shot_def cong: option.case_cong)
    have bnd: "\<And>c lid g. binding s1 t c lid = Inr (Some g) \<Longrightarrow>
               binding s t c lid = Inr (Some g) \<or> (g = m \<and> c = cam)"
      using bind_local_binding [OF b] by (auto split: if_splits)
    note step = resolved_shot_step [OF k same bnd w1 gal u st]
    have "size_threshold s' = size_threshold s"
      using update_gallery_feature_frame(5) [OF u] bf(3) by simp
    with step(1) step(2) [of g c] show ?thesis
      using p o matched(1) cls by auto
  next
    case (registered f)
    from process_object_registeredD [OF p registered] obtain s1 s2 gid where
      r: "register_object_in_gallery ?s0 cam (class_name obj) f ?a = Inr (s1, gid)"
      and b: "bind_local s1 (class_name obj) cam (local_id obj) gid = Inr s2"
      and u: "update_gallery_feature s2 cam (class_name obj) gid f ?a = Inr s'"
      and o: "obj' = update_info obj cam (Some gid)"
      by blast
    note wr = well_formed_register_object_in_gallery [OF w0 r]
    note rr = register_object_in_gallery_result [OF r]
    note rs = register_object_in_gallery_stored [OF r]
    note rc = register_object_in_gallery_recorded [OF r]
    note bf = bind_local_vessel_frame [OF b]
    have "\<not> recorded_max_area s2 gid cam < ?a"
      using rr(6) bf(6) by simp
    with u have s': "s' = s2" by (rule update_gallery_feature_unchanged)
    have w2: "well_formed s2" using wr(1,3) b by (rule well_formed_bind_local)
    have new: "\<not> in_gallery s t gid" using wr(2) cls by simp
    have fresh: "stored_feature s t gid c' = None" for c'
      using new by (auto simp: in_gallery_def stored_feature_def split: option.splits)
    have st: "stored_feature s' t g' c' =
        (if g' = gid then (if c' = cam then Some f else None) else stored_feature s t g' c')"
      for g' c'
      using s' bf(5) rs [of t g' c'] cls by simp
    have rec: "recorded_max_area s' g' c' =
        (if g' = gid then (if c' = cam then ?a else 0)
         else recorded_max_area s g' c')" for g' c'
      using s' bf(6) rc(1) [of g' c'] by simp
    have cur: "current_shot s' t g c =
        (if g = gid \<and> c = cam then Some (?a, f) else current_shot s t g c)"
      using st [of g c] rec [of g c] fresh [of c]
      by (auto simp: current_shot_def split: option.splits)
    have "well_formed s'" using s' w2 by simp
    moreover have "\<forall>g. in_gallery s' t g \<longrightarrow> max_size_record s' g \<noteq> None"
      using k s' bf(1) rc(2) rr(4) in_gallery_bind_local [OF b] cls
      by (auto simp: areas_recorded_def)
    moreover have "\<forall>g c. stored_feature s' t g c = None \<longrightarrow> recorded_max_area s' g c = 0"
      using k st rec by (auto simp: areas_recorded_def split: if_splits)
    moreover have "\<forall>c' lid g'. binding s' t c' lid = Inr (Some g') \<longrightarrow>
        stored_feature s' t g' c' \<noteq> None"
    proof (intro allI impI)
      fix c' lid g' assume "binding s' t c' lid = Inr (Some g')"
      then have "(g' = gid \<and> c' = cam) \<or> binding s t c' lid = Inr (Some g')"
        using s' bind_local_binding [OF b, of t c' lid] rr(5) [of t c' lid] cls
        by (auto split: if_splits)
      then show "stored_feature s' t g' c' \<noteq> None"
      proof
        assume "g' = gid \<and> c' = cam"
        then show ?thesis using st [of gid cam] by simp
      next
        assume old: "binding s t c' lid = Inr (Some g')"
        with w have "in_gallery s t g'"
          by (auto simp: well_formed_def bindings_in_gallery_def)
        with new have "g' \<noteq> gid" by auto
        moreover from k old have "stored_feature s t g' c' \<noteq> None"
          by (simp add: areas_recorded_def)
        ultimately show ?thesis using st [of g' c'] by simp
      qed
    qed
    ultimately have "areas_recorded s' t" by (simp add: areas_recorded_def)
    moreover have "current_shot s' t g c =
           best_shot (current_shot s t g c) (shots_of cfg s t g c [(cam, obj)])"
      using cur p o registered(1) cls fresh [of cam]
      by (auto simp: current_shot_def split: option.splits)
    moreover have "size_threshold s' = size_threshold s"
      using s' bf(3) rr(7) by simp
    ultimately show ?thesis by simp
  qed
  from all show "areas_recorded s' t" by simp
  from all show "current_shot s' t g c =
           best_shot (current_shot s t g c) (shots_of cfg s t g c [(cam, obj)])" by simp
  from all show "size_threshold s' = size_threshold s" by simp
qed

lemma shots_of_Cons:
  assumes "process_object cfg s cam obj = Inr (s', obj')"
  shows "shots_of cfg s t g c ((cam, obj) # rest) =
           shots_of cfg s t g c [(cam, obj)] @ shots_of cfg s' t g c rest"
  using assms by simp

lemma run_steps_best_shot:
  assumes "areas_recorded s t"
    and "\<forall>(cam, obj) \<in> set steps.
           class_name obj = t \<and> (0 < size_threshold s \<or> 0 < bbox_area (bbox obj))"
    and "run_steps cfg s steps = Inr s'"
  shows "areas_recorded s' t \<and> size_threshold s' = size_threshold s \<and>
         current_shot s' t g c = best_shot (current_shot s t g c) (shots_of cfg s t g c steps)"
  using assms
proof (induction steps arbitrary: s)
  case Nil
  then show ?case by simp
next
  case (Cons step steps)
  obtain cam obj where step: "step = (cam, obj)" by (cases step)
  from Cons.prems(3) step obtain s1 obj' where
    p: "process_object cfg s cam obj = Inr (s1, obj')"
    and r: "run_steps cfg s1 steps = Inr s'"
    by (auto split: sum.splits prod.splits)
  from Cons.prems(2) step have here: "class_name obj = t"
    "0 < size_threshold s \<or> 0 < bbox_area (bbox obj)"
    by auto
  note one = process_object_best_shot [OF Cons.prems(1) p here]
  from Cons.prems(2) one(3) have later: "\<forall>(cam, obj) \<in> set steps.
      class_name obj = t \<and> (0 < size_threshold s1 \<or> 0 < bbox_area (bbox obj))"
    by auto
  note rest = Cons.IH [OF one(1) later r]
  have "current_shot s' t g c = best_shot (current_shot s1 t g c) (shots_of cfg s1 t g c steps)"
    using rest by simp
  also have "\<dots> = best_shot (best_shot (current_shot s t g c) (shots_of cfg s t g c [(cam, obj)]))
      (shots_of cfg s1 t g c steps)"
    using one(2) [of g c] by simp
  also have "\<dots> = best_shot (current_shot s t g c) (shots_of cfg s t g c (step # steps))"
    unfolding step shots_of_Cons [OF p, of t g c steps] best_shot_append ..
  finally show ?case using rest one(3) by simp
qed

text \<open>The shot kept is the first of the largest shots.\<close>

lemma best_shot_None: "best_shot None xs = None \<longleftrightarrow> xs = []"
proof -
  have "best_shot (Some x) xs \<noteq> None" for x xs
    by (induction "Some x" xs arbitrary: x rule: best_shot.induct) simp_all
  then show ?thesis by (cases xs) simp_all
qed

lemma best_shot_first_largest:
  assumes "best_shot b xs = Some (a, f)"
  shows "(b = Some (a, f) \<and> (\<forall>x \<in> set xs. fst x \<le> a)) \<or>
         ((\<forall>a0 f0. b = Some (a0, f0) \<longrightarrow> a0 < a) \<and>
          (\<exists>ys zs. xs = ys @ (a, f) # zs \<and> (\<forall>y \<in> set ys. fst y < a) \<and>
                   (\<forall>z \<in> set zs. fst z \<le> a)))"
  using assms
proof (induction xs arbitrary: b)
  case Nil
  then show ?case by simp
next
  case (Cons x xs)
  obtain a' f' where x: "x = (a', f')" by (cases x)
  define b' where "b' = (case b of None \<Rightarrow> Some x
                         | Some (a0, f0) \<Rightarrow> if a0 < a' then Some x else Some (a0, f0))"
  have step: "best_shot b (x # xs) = best_shot b' xs"
    by (cases b) (auto simp: b'_def x)
  with Cons.prems have "best_shot b' xs = Some (a, f)" by simp
  from Cons.IH [OF this] show ?case
  proof
    assume kept: "b' = Some (a, f) \<and> (\<forall>x \<in> set xs. fst x \<le> a)"
    show ?thesis
    proof (cases "b = Some (a, f)")
      case True
      with kept have "a' \<le> a" by (auto simp: b'_def x split: if_splits)
      with True kept show ?thesis by (simp add: x)
    next
      case False
      with kept have new: "x = (a, f)" "\<forall>a0 f0. b = Some (a0, f0) \<longrightarrow> a0 < a"
        by (auto simp: b'_def x split: option.splits if_splits)
      from kept new(1) have "x # xs = [] @ (a, f) # xs \<and> (\<forall>y \<in> set []. fst y < a) \<and>
          (\<forall>z \<in> set xs. fst z \<le> a)" by simp
      then have "\<exists>ys zs. x # xs = ys @ (a, f) # zs \<and> (\<forall>y \<in> set ys. fst y < a) \<and>
          (\<forall>z \<in> set zs. fst z \<le> a)" by blast
      with new(2) show ?thesis by blast
    qed
  next
    assume later: "(\<forall>a0 f0. b' = Some (a0, f0) \<longrightarrow> a0 < a) \<and>
          (\<exists>ys zs. xs = ys @ (a, f) # zs \<and> (\<forall>y \<in> set ys. fst y < a) \<and>
                   (\<forall>z \<in> set zs. fst z \<le> a))"
    then obtain ys zs where s: "xs = ys @ (a, f) # zs" "\<forall>y \<in> set ys. fst y < a"
      "\<forall>z \<in> set zs. fst z \<le> a" by blast
    from later have small: "a' < a" "\<forall>a0 f0. b = Some (a0, f0) \<longrightarrow> a0 < a"
      by (auto simp: b'_def x split: option.splits if_splits)
    from s small(1) have "x # xs = (x # ys) @ (a, f) # zs \<and> (\<forall>y \<in> set (x # ys). fst y < a) \<and>
          (\<forall>z \<in> set zs. fst z \<le> a)" by (simp add: x)
    then have "\<exists>ys zs. x # xs = ys @ (a, f) # zs \<and> (\<forall>y \<in> set ys. fst y < a) \<and>
          (\<forall>z \<in> set zs. fst z \<le> a)" by blast
    with small(2) show ?thesis by blast
  qed
qed

lemma best_shot_two_more:
  assumes "a1 < a2"
  shows "best_shot None (ys @ [(a1, e1), (a2, e2)]) =
           (if \<forall>y \<in> set ys. fst y < a2 then Some (a2, e2) else best_shot None ys)"
proof (cases "best_shot None ys")
  case None
  then have "ys = []" by (simp add: best_shot_None)
  with assms show ?thesis by simp
next
  case (Some b)
  obtain m fm where b: "b = (m, fm)" by (cases b)
  from best_shot_first_largest [of None ys m fm] Some b
  obtain us zs where s: "ys = us @ (m, fm) # zs" "\<forall>y \<in> set us. fst y < m"
    "\<forall>z \<in> set zs. fst z \<le> m" by auto
  have mem: "(m, fm) \<in> set ys" using s(1) by simp
  have top: "\<forall>y \<in> set ys. fst y \<le> m"
  proof
    fix y assume "y \<in> set ys"
    with s(1) have "y \<in> set us \<or> y = (m, fm) \<or> y \<in> set zs" by auto
    with s(2,3) show "fst y \<le> m" by force
  qed
  show ?thesis
  proof (cases "\<forall>y \<in> set ys. fst y < a2")
    case True
    with mem have "m < a2" by auto
    with True assms Some b show ?thesis by (simp add: best_shot_append)
  next
    case False
    with top have "a2 \<le> m" by force
    with assms Some b have "best_shot None (ys @ [(a1, e1), (a2, e2)]) = best_shot None ys"
      by (simp add: best_shot_append)
    with False show ?thesis by auto
  qed
qed

lemma best_shot_largest:
  assumes "best_shot None xs = Some (m, fm)"
  shows "(m, fm) \<in> set xs" and "\<forall>x \<in> set xs. fst x \<le> m"
proof -
  from best_shot_first_largest [OF assms]
  obtain us zs where s: "xs = us @ (m, fm) # zs" "\<forall>y \<in> set us. fst y < m"
    "\<forall>z \<in> set zs. fst z \<le> m" by auto
  show "(m, fm) \<in> set xs" using s(1) by simp
  show "\<forall>x \<in> set xs. fst x \<le> m"
  proof
    fix x assume "x \<in> set xs"
    with s(1) have "x \<in> set us \<or> x = (m, fm) \<or> x \<in> set zs" by auto
    with s(2,3) show "fst x \<le> m" by force
  qed
qed

text \<open>
  An iteration that changes the embedding stored for a pair is a shot of the pair whose
  area exceeds the areas of all shots before it.
\<close>

lemma process_object_overwrites:
  assumes k: "areas_recorded s t"
    and p: "process_object cfg s cam obj = Inr (s', obj')"
    and cls: "class_name obj = t"
    and pos: "0 < size_threshold s \<or> 0 < bbox_area (bbox obj)"
    and cur: "current_shot s t g c = best_shot None shots"
    and changed: "stored_feature s' t g c \<noteq> stored_feature s t g c"
  shows "cam = c \<and> global_id obj' = Some g \<and> stored_feature s' t g c = feature obj \<and>
         recorded_max_area s' g c = bbox_area (bbox obj) \<and>
         (\<forall>x \<in> set shots. fst x < bbox_area (bbox obj))"
proof -
  let ?a = "bbox_area (bbox obj)"
  note one = process_object_best_shot(2) [OF k p cls pos, of g c]
  have diff: "current_shot s' t g c \<noteq> current_shot s t g c"
    using changed
    by (cases "stored_feature s' t g c"; cases "stored_feature s t g c")
      (simp_all add: current_shot_def)
  with one have ne: "shots_of cfg s t g c [(cam, obj)] \<noteq> []" by auto
  with p obtain f where hit: "cam = c" "global_id obj' = Some g" "feature obj = Some f"
    and sh: "shots_of cfg s t g c [(cam, obj)] = [(?a, f)]"
    by (auto split: if_splits option.splits)
  have new: "current_shot s' t g c = Some (?a, f) \<and> (\<forall>x \<in> set shots. fst x < ?a)"
  proof (cases "best_shot None shots")
    case None
    then have "shots = []" by (simp add: best_shot_None)
    with one sh cur None show ?thesis by simp
  next
    case (Some b)
    obtain m fm where b: "b = (m, fm)" by (cases b)
    from one sh cur Some b diff have "m < ?a" by (auto split: if_splits)
    moreover from best_shot_largest(2) [of shots m fm] Some b
    have "\<forall>x \<in> set shots. fst x \<le> m" by simp
    ultimately have "\<forall>x \<in> set shots. fst x < ?a" by force
    moreover from one sh cur Some b \<open>m < ?a\<close> have "current_shot s' t g c = Some (?a, f)"
      by simp
    ultimately show ?thesis by simp
  qed
  then have "stored_feature s' t g c = Some f \<and> recorded_max_area s' g c = ?a"
    by (auto simp: current_shot_def split: option.splits)
  with hit new show ?thesis by simp
qed

section \<open>Claims about the event service\<close>




text \<open>
  Claim C3.  \<open>check_event_completion\<close> completes every active event that holds a position
  of \<open>camera4\<close>; it does not look at whether the camera contributed in the current cycle.
  Identity 5 is seen by camera 4 at time 1000 and the completion check of the same cycle
  runs: the event is completed (end time 1000, saved) and leaves the active set, although
  the claim says an identity the terminal camera currently sees is not completed.
\<close>

theorem completion_ignores_current_cycle:
  "map fst (active_events event_seen_by_camera4) = [5] \<and>
   map fst (camera_positions (snd (hd (active_events event_seen_by_camera4)))) = [camera4] \<and>
   \<not> isl (check_event_completion event_seen_by_camera4 camera4 1000) \<and>
   active_events (projr (check_event_completion event_seen_by_camera4 camera4 1000)) = [] \<and>
   map (end_time \<circ> snd)
     (vessel_event_table (projr (check_event_completion event_seen_by_camera4 camera4 1000)))
     = [Some 1000]"
  by (simp add: event_seen_by_camera4_def event_defs camera4_def Let_def)

text \<open>
  Claim C8.  \<open>_create_new_event\<close> stores the initial tracking point without recording
  \<open>last_track_time\<close>, so the first update finds the default 0 and always appends.  With
  the default interval of 10 seconds, identity 5 is created at time 1000 and updated at time
  1001 (the clock and \<open>current_time\<close> agree): the event then holds tracking points with
  timestamps 1000 and 1001, one second apart.
\<close>

theorem initial_tracking_point_not_spaced:
  "tracking_interval event_seen_by_camera1 = 10 \<and>
   map (map timestamp \<circ> tracking_points \<circ> event \<circ> snd) (active_events event_seen_by_camera1)
     = [[1000]] \<and>
   \<not> isl (process_detection event_seen_by_camera1 1001 (tracked_obj (Some 5)) camera1 1001
            example_coordinates None) \<and>
   map (map timestamp \<circ> tracking_points \<circ> event \<circ> snd)
     (active_events (projr (process_detection event_seen_by_camera1 1001 (tracked_obj (Some 5))
        camera1 1001 example_coordinates None)))
     = [[1000, 1001]]"
  by (simp add: event_seen_by_camera1_def event_defs camera1_def Let_def)

section \<open>Claims about identity resolution\<close>

text \<open>
  Claim C1.  \<open>match_with_gallery\<close> filters the gallery to the entries holding a feature
  of a predecessor camera, but searches the index of all vectors registered for the class
  and uses the position found there as a position in the filtered id list.  In the state
  \<open>two_registrations\<close> the only candidate for camera 2 is global id 1 with embedding
  \<open>embedding 10\<close>.  A query \<open>embedding 0\<close> is at squared distance 51200 from it,
  so the matching step of the claim finds no match; the code returns global id 1.  A query
  \<open>embedding 10\<close> is at distance 0, so the claim's step matches global id 1; the code
  raises IndexError.
\<close>

theorem match_searches_whole_index:
  "\<not> isl (run_frames example_config example_init
       [(camera2, [vessel_obj 1 (0, 0, 100, 100) (embedding 0)]),
        (camera1, [vessel_obj 1 (0, 0, 100, 100) (embedding 10)])]) \<and>
   match_with_gallery example_config two_registrations ''vessel'' (embedding 0) camera2 10000
     = Inr (Some 1) \<and>
   spec_match_with_gallery example_config two_registrations ''vessel'' (embedding 0) camera2 = None \<and>
   match_with_gallery example_config two_registrations ''vessel'' (embedding 10) camera2 10000
     = Inl IndexError \<and>
   spec_match_with_gallery example_config two_registrations ''vessel'' (embedding 10) camera2 = Some 1"
  by (simp add: two_registrations_def spec_match_with_gallery_def vessel_defs example_defs Let_def)

text \<open>
  Claim C7, as stated, fails: the feature update of line 163 runs for a bound local track
  too.  In \<open>one_registration\<close> local track 1 of camera 1 is bound to global id 0, stored
  with embedding \<open>embedding 0\<close> and area 10000.  The same track seen again with area 40000 and
  embedding \<open>embedding 5\<close> overwrites both the stored embedding and the recorded maximum.
\<close>

theorem bound_resolution_mutates_gallery:
  "binding one_registration ''vessel'' camera1 (Some 1) = Inr (Some 0) \<and>
   \<not> isl (process_object example_config one_registration camera1
            (vessel_obj 1 (0, 0, 200, 200) (embedding 5))) \<and>
   stored_feature one_registration ''vessel'' 0 camera1 = Some (embedding 0) \<and>
   stored_feature (fst (projr (process_object example_config one_registration camera1
      (vessel_obj 1 (0, 0, 200, 200) (embedding 5))))) ''vessel'' 0 camera1 = Some (embedding 5) \<and>
   recorded_max_area one_registration 0 camera1 = 10000 \<and>
   recorded_max_area (fst (projr (process_object example_config one_registration camera1
      (vessel_obj 1 (0, 0, 200, 200) (embedding 5))))) 0 camera1 = 40000"
  by (simp add: one_registration_def stored_feature_def vessel_defs example_defs Let_def)

text \<open>
  Claim C7, amended.  Resolving a local track that is already bound returns the bound
  global id without matching or registering: bindings, counters and the index are
  unchanged.  The stored embeddings and recorded maximum areas are unchanged except for the
  pair of the bound global id and the observing camera; for that pair the embedding (and the
  maximum area, when the id has a record) is overwritten by the detection's if its area
  strictly exceeds the recorded maximum, and otherwise the gallery and the records are
  unchanged altogether.
\<close>

theorem bound_resolution_frame:
  assumes "well_formed s"
    and "binding s (class_name obj) cam (local_id obj) = Inr (Some gid)"
    and "feature obj = Some f"
  shows "\<exists>s'. process_object cfg s cam obj = Inr (s', update_info obj cam (Some gid)) \<and>
           local_to_global_id s' = local_to_global_id s \<and>
           global_id_counter s' = global_id_counter s \<and>
           faiss_indexes s' = faiss_indexes s \<and>
           (\<forall>t g c. (t, g, c) \<noteq> (class_name obj, gid, cam) \<longrightarrow>
              stored_feature s' t g c = stored_feature s t g c) \<and>
           (\<forall>g c. (g, c) \<noteq> (gid, cam) \<longrightarrow>
              recorded_max_area s' g c = recorded_max_area s g c) \<and>
           (if recorded_max_area s gid cam < bbox_area (bbox obj)
            then stored_feature s' (class_name obj) gid cam = Some f \<and>
                 (max_size_record s gid \<noteq> None \<longrightarrow>
                    recorded_max_area s' gid cam = bbox_area (bbox obj))
            else gallery s' = gallery s \<and> max_size_record s' = max_size_record s)"
proof -
  let ?s0 = "s\<lparr>vessel_trajectory := (vessel_trajectory s)(local_id obj \<mapsto> bbox obj)\<rparr>"
  from process_object_bound_total [OF assms] obtain s' where
    p: "process_object cfg s cam obj = Inr (s', update_info obj cam (Some gid))"
    and u: "update_gallery_feature ?s0 cam (class_name obj) gid f (bbox_area (bbox obj)) = Inr s'"
    by blast
  have g: "in_gallery ?s0 (class_name obj) gid"
    using assms(1,2) by (auto simp: well_formed_def bindings_in_gallery_def)
  note fr = update_gallery_feature_frame [OF u]
  show ?thesis
  proof (cases "recorded_max_area s gid cam < bbox_area (bbox obj)")
    case True
    then have "recorded_max_area ?s0 gid cam < bbox_area (bbox obj)" by simp
    from update_gallery_feature_store [OF this g, of f] u p True fr(1,2,3)
    show ?thesis by (intro exI [of _ s']) auto
  next
    case False
    then have "s' = ?s0"
      using update_gallery_feature_unchanged [OF u] by simp
    with p False show ?thesis by (intro exI [of _ s']) auto
  qed
qed

theorem bound_resolution_frame_witness:
  "well_formed one_registration \<and>
   binding one_registration ''vessel'' camera1 (Some 1) = Inr (Some 0) \<and>
   (\<exists>s'. process_object example_config one_registration camera1
            (vessel_obj 1 (0, 0, 50, 50) (embedding 5)) =
          Inr (s', update_info (vessel_obj 1 (0, 0, 50, 50) (embedding 5)) camera1 (Some 0)) \<and>
        gallery s' = gallery one_registration \<and>
        max_size_record s' = max_size_record one_registration)"
proof -
  have w0: "well_formed example_init"
    unfolding example_init_def by (rule well_formed_VesselMCMOT_init)
  have r: "run_frames example_config example_init
       [(camera1, [vessel_obj 1 (0, 0, 100, 100) (embedding 0)])] = Inr (one_registration, 
         snd (projr (run_frames example_config example_init
       [(camera1, [vessel_obj 1 (0, 0, 100, 100) (embedding 0)])])))"
    by (simp add: one_registration_def vessel_defs example_defs Let_def)
  have w: "well_formed one_registration"
    using run_frames_invariant [OF r] w0 by blast
  have b: "binding one_registration (class_name (vessel_obj 1 (0, 0, 50, 50) (embedding 5))) camera1
             (local_id (vessel_obj 1 (0, 0, 50, 50) (embedding 5))) = Inr (Some 0)"
    by (simp add: one_registration_def vessel_defs example_defs Let_def)
  have f: "feature (vessel_obj 1 (0, 0, 50, 50) (embedding 5)) = Some (embedding 5)"
    by (simp add: vessel_obj_def)
  have a: "\<not> recorded_max_area one_registration 0 camera1
             < bbox_area (bbox (vessel_obj 1 (0, 0, 50, 50) (embedding 5)))"
    by (simp add: one_registration_def vessel_defs example_defs Let_def)
  from bound_resolution_frame [OF w b f, of example_config] a w b
  show ?thesis by (auto simp: vessel_obj_def)
qed

text \<open>
  Claim C5, as stated, fails in two places.  Line 144 stores the bounding box in
  \<open>vessel_trajectory\<close> before the threshold is looked at, so not all state is unchanged.
  And the later detection at or above the threshold is resolved like any unbound track: on
  a camera with predecessors it can match.  In \<open>one_registration\<close> camera 1 holds global
  id 0 with embedding \<open>embedding 0\<close>.  Camera 2 sees local track 7 with area 100, below the
  threshold 1000: no global id.  It sees the track again with area 10000 and embedding
  \<open>embedding 0\<close>: the track gets the existing global id 0, and no id is allocated.
\<close>

theorem later_detection_can_match:
  "in_gallery one_registration ''vessel'' 0 \<and>
   binding one_registration ''vessel'' camera2 (Some 7) = Inr None \<and>
   \<not> isl (process_object example_config one_registration camera2
            (vessel_obj 7 (0, 0, 10, 10) (embedding 0))) \<and>
   global_id (snd (projr (process_object example_config one_registration camera2
      (vessel_obj 7 (0, 0, 10, 10) (embedding 0))))) = None \<and>
   vessel_trajectory one_registration (Some 7) = None \<and>
   vessel_trajectory (fst (projr (process_object example_config one_registration camera2
      (vessel_obj 7 (0, 0, 10, 10) (embedding 0))))) (Some 7) = Some (0, 0, 10, 10) \<and>
   \<not> isl (process_object example_config
            (fst (projr (process_object example_config one_registration camera2
               (vessel_obj 7 (0, 0, 10, 10) (embedding 0)))))
            camera2 (vessel_obj 7 (0, 0, 100, 100) (embedding 0))) \<and>
   global_id (snd (projr (process_object example_config
            (fst (projr (process_object example_config one_registration camera2
               (vessel_obj 7 (0, 0, 10, 10) (embedding 0)))))
            camera2 (vessel_obj 7 (0, 0, 100, 100) (embedding 0))))) = Some 0 \<and>
   global_id_counter (fst (projr (process_object example_config
            (fst (projr (process_object example_config one_registration camera2
               (vessel_obj 7 (0, 0, 10, 10) (embedding 0)))))
            camera2 (vessel_obj 7 (0, 0, 100, 100) (embedding 0))))) ''vessel''
     = global_id_counter one_registration ''vessel''"
  by (simp add: one_registration_def in_gallery_def vessel_defs example_defs Let_def)

text \<open>
  Claim C5, amended.  A detection below the size threshold whose key has no binding
  resolves to no global id, and the state after it is the state before with only the
  bounding box stored in \<open>vessel_trajectory\<close>: gallery, index, counters, bindings and
  recorded areas are unchanged.  A later detection at or above the threshold with the same
  key is then resolved as a first sighting: if gallery matching finds no match, which is
  always so on a camera without predecessors such as camera 1, it registers the next
  counter value, an id the gallery did not hold, and binds the track to it; if matching
  finds an identity, the track is bound to that one.
\<close>

theorem below_threshold_unresolved:
  assumes "well_formed s"
    and "binding s (class_name obj) cam (local_id obj) = Inr None"
    and "feature obj = Some f"
    and "real_of_int (bbox_area (bbox obj)) < size_threshold s"
  shows "\<exists>s1. process_object cfg s cam obj = Inr (s1, update_info obj cam None) \<and>
           s1 = s\<lparr>vessel_trajectory := (vessel_trajectory s)(local_id obj \<mapsto> bbox obj)\<rparr> \<and>
           gallery s1 = gallery s \<and> faiss_indexes s1 = faiss_indexes s \<and>
           global_id_counter s1 = global_id_counter s \<and>
           local_to_global_id s1 = local_to_global_id s \<and>
           max_size_record s1 = max_size_record s \<and>
           (\<forall>obj2 f2. class_name obj2 = class_name obj \<and> local_id obj2 = local_id obj \<and>
                feature obj2 = Some f2 \<and> length f2 = faiss_dim \<and>
                size_threshold s \<le> real_of_int (bbox_area (bbox obj2)) \<longrightarrow>
              (valid_cameras_of s cam = [] \<longrightarrow>
                 match_with_gallery cfg s (class_name obj) f2 cam (bbox_area (bbox obj2))
                   = Inr None) \<and>
              (match_with_gallery cfg s (class_name obj) f2 cam (bbox_area (bbox obj2))
                   = Inr None \<longrightarrow>
                 (\<exists>s2 gid. process_object cfg s1 cam obj2
                       = Inr (s2, update_info obj2 cam (Some gid)) \<and>
                    global_id_counter s (class_name obj) = Some gid \<and>
                    global_id_counter s2 (class_name obj) = Some (gid + 1) \<and>
                    \<not> in_gallery s (class_name obj) gid \<and>
                    in_gallery s2 (class_name obj) gid \<and>
                    binding s2 (class_name obj) cam (local_id obj) = Inr (Some gid))) \<and>
              (\<forall>m. match_with_gallery cfg s (class_name obj) f2 cam (bbox_area (bbox obj2))
                     = Inr (Some m) \<longrightarrow>
                 (\<exists>s2. process_object cfg s1 cam obj2
                       = Inr (s2, update_info obj2 cam (Some m)) \<and>
                    in_gallery s (class_name obj) m \<and>
                    global_id_counter s2 = global_id_counter s \<and>
                    binding s2 (class_name obj) cam (local_id obj) = Inr (Some m))))"
proof -
  let ?s1 = "s\<lparr>vessel_trajectory := (vessel_trajectory s)(local_id obj \<mapsto> bbox obj)\<rparr>"
  have p: "process_object cfg s cam obj = Inr (?s1, update_info obj cam None)"
    using assms(2,3,4) by (rule process_object_small)
  have w1: "well_formed ?s1" using assms(1) by simp
  from assms(2) have l2g: "local_to_global_id s (class_name obj) \<noteq> None"
    by (auto simp: binding_def split: option.splits)
  with assms(1) have gal: "gallery s (class_name obj) \<noteq> None"
    by (auto simp: well_formed_def types_registered_def)
  have later: "(valid_cameras_of s cam = [] \<longrightarrow>
                 match_with_gallery cfg s (class_name obj) f2 cam (bbox_area (bbox obj2))
                   = Inr None) \<and>
              (match_with_gallery cfg s (class_name obj) f2 cam (bbox_area (bbox obj2))
                   = Inr None \<longrightarrow>
                 (\<exists>s2 gid. process_object cfg ?s1 cam obj2
                       = Inr (s2, update_info obj2 cam (Some gid)) \<and>
                    global_id_counter s (class_name obj) = Some gid \<and>
                    global_id_counter s2 (class_name obj) = Some (gid + 1) \<and>
                    \<not> in_gallery s (class_name obj) gid \<and>
                    in_gallery s2 (class_name obj) gid \<and>
                    binding s2 (class_name obj) cam (local_id obj) = Inr (Some gid))) \<and>
              (\<forall>m. match_with_gallery cfg s (class_name obj) f2 cam (bbox_area (bbox obj2))
                     = Inr (Some m) \<longrightarrow>
                 (\<exists>s2. process_object cfg ?s1 cam obj2
                       = Inr (s2, update_info obj2 cam (Some m)) \<and>
                    in_gallery s (class_name obj) m \<and>
                    global_id_counter s2 = global_id_counter s \<and>
                    binding s2 (class_name obj) cam (local_id obj) = Inr (Some m)))"
    if o2: "class_name obj2 = class_name obj" "local_id obj2 = local_id obj"
      "feature obj2 = Some f2" "size_threshold s \<le> real_of_int (bbox_area (bbox obj2))"
      "length f2 = faiss_dim"
    for obj2 f2
  proof (intro conjI impI allI)
    assume "valid_cameras_of s cam = []"
    then show "match_with_gallery cfg s (class_name obj) f2 cam (bbox_area (bbox obj2)) = Inr None"
      using gal by (rule match_with_gallery_no_predecessors)
  next
    let ?s0 = "?s1\<lparr>vessel_trajectory := (vessel_trajectory ?s1)(local_id obj2 \<mapsto> bbox obj2)\<rparr>"
    assume nm: "match_with_gallery cfg s (class_name obj) f2 cam (bbox_area (bbox obj2)) = Inr None"
    have b1: "binding ?s1 (class_name obj2) cam (local_id obj2) = Inr None"
      using assms(2) o2 by simp
    have m1: "match_with_gallery cfg ?s1 (class_name obj2) f2 cam (bbox_area (bbox obj2)) = Inr None"
      using nm o2 by simp
    have t1: "size_threshold ?s1 \<le> real_of_int (bbox_area (bbox obj2))"
      using o2 by simp
    note pr = process_object_registered [OF b1 o2(3) m1 t1]
    have w0: "well_formed ?s0" using assms(1) by simp
    have "types_registered ?s0" "local_to_global_id ?s0 (class_name obj2) \<noteq> None"
      using w0 l2g o2 by (auto simp: well_formed_def)
    from register_object_in_gallery_total [OF this o2(5), of cam "bbox_area (bbox obj2)"]
    obtain s1' gid where r: "register_object_in_gallery ?s0 cam (class_name obj2) f2
        (bbox_area (bbox obj2)) = Inr (s1', gid)"
      by blast
    note rr = register_object_in_gallery_result [OF r]
    note wr = well_formed_register_object_in_gallery [OF w0 r]
    have "local_to_global_id s1' (class_name obj2) \<noteq> None"
      using rr(3) l2g o2 by simp
    from bind_local_total [OF this, of cam "local_id obj2" gid]
    obtain s2' where b: "bind_local s1' (class_name obj2) cam (local_id obj2) gid = Inr s2'"
      by blast
    have w2: "well_formed s2'" using wr(1,3) b by (rule well_formed_bind_local)
    have g2: "in_gallery s2' (class_name obj2) gid"
      using wr(3) in_gallery_bind_local [OF b] by simp
    have rec: "\<not> recorded_max_area s2' gid cam < bbox_area (bbox obj2)"
      using rr(6) bind_local_vessel_frame(6) [OF b] by simp
    then have u: "update_gallery_feature s2' cam (class_name obj2) gid f2 (bbox_area (bbox obj2))
        = Inr s2'"
      by (rule update_gallery_feature_skip)
    have res: "process_object cfg ?s1 cam obj2 = Inr (s2', update_info obj2 cam (Some gid))"
      using pr r b u by (simp add: finish_object_def)
    have "global_id_counter s (class_name obj) = Some gid"
      using rr(1) o2 by simp
    moreover have "global_id_counter s2' (class_name obj) = Some (gid + 1)"
      using rr(2) bind_local_frame(2) [OF b] o2 by simp
    moreover have "\<not> in_gallery s (class_name obj) gid"
      using wr(2) o2 by simp
    moreover have "in_gallery s2' (class_name obj) gid"
      using g2 o2 by simp
    moreover have "binding s2' (class_name obj) cam (local_id obj) = Inr (Some gid)"
      using bind_local_binding [OF b] o2 by simp
    ultimately show "\<exists>s2 gid. process_object cfg ?s1 cam obj2
                       = Inr (s2, update_info obj2 cam (Some gid)) \<and>
                    global_id_counter s (class_name obj) = Some gid \<and>
                    global_id_counter s2 (class_name obj) = Some (gid + 1) \<and>
                    \<not> in_gallery s (class_name obj) gid \<and>
                    in_gallery s2 (class_name obj) gid \<and>
                    binding s2 (class_name obj) cam (local_id obj) = Inr (Some gid)"
      using res by blast
  next
    fix m
    let ?s0 = "?s1\<lparr>vessel_trajectory := (vessel_trajectory ?s1)(local_id obj2 \<mapsto> bbox obj2)\<rparr>"
    assume mm: "match_with_gallery cfg s (class_name obj) f2 cam (bbox_area (bbox obj2))
        = Inr (Some m)"
    have b1: "binding ?s1 (class_name obj2) cam (local_id obj2) = Inr None"
      using assms(2) o2 by simp
    have m1: "match_with_gallery cfg ?s1 (class_name obj2) f2 cam (bbox_area (bbox obj2))
        = Inr (Some m)"
      using mm o2 by simp
    note pm = process_object_matched [OF b1 o2(3) m1]
    have gm: "in_gallery s (class_name obj) m"
      using mm by (rule match_with_gallery_in_gallery)
    have w0: "well_formed ?s0" using assms(1) by simp
    have "local_to_global_id ?s0 (class_name obj2) \<noteq> None"
      using l2g o2 by simp
    from bind_local_total [OF this, of cam "local_id obj2" m]
    obtain s1' where b: "bind_local ?s0 (class_name obj2) cam (local_id obj2) m = Inr s1'"
      by blast
    have "in_gallery s1' (class_name obj2) m"
      using gm in_gallery_bind_local [OF b] o2 by simp
    from update_gallery_feature_total [OF this, of cam f2 "bbox_area (bbox obj2)"]
    obtain s2' where u: "update_gallery_feature s1' cam (class_name obj2) m f2
        (bbox_area (bbox obj2)) = Inr s2'"
      by blast
    have res: "process_object cfg ?s1 cam obj2 = Inr (s2', update_info obj2 cam (Some m))"
      using pm b u by (simp add: finish_object_def)
    have "global_id_counter s2' = global_id_counter s"
      using update_gallery_feature_frame(2) [OF u] bind_local_frame(2) [OF b] by simp
    moreover have "binding s2' (class_name obj) cam (local_id obj) = Inr (Some m)"
      using update_gallery_feature_frame(9) [OF u] bind_local_binding [OF b] o2 by simp
    ultimately show "\<exists>s2. process_object cfg ?s1 cam obj2
                       = Inr (s2, update_info obj2 cam (Some m)) \<and>
                    in_gallery s (class_name obj) m \<and>
                    global_id_counter s2 = global_id_counter s \<and>
                    binding s2 (class_name obj) cam (local_id obj) = Inr (Some m)"
      using res gm by blast
  qed
  show ?thesis
    apply (rule exI [of _ ?s1])
    apply (intro conjI)
           apply (rule p)
          apply (rule refl)
         apply simp
        apply simp
       apply simp
      apply simp
     apply simp
    apply (intro allI impI)
    apply (elim conjE)
    apply (rule later)
        apply assumption+
    done
qed

theorem below_threshold_unresolved_witness:
  "well_formed example_init \<and>
   binding example_init ''vessel'' camera1 (Some 7) = Inr None \<and>
   real_of_int (bbox_area (0, 0, 10, 10)) < size_threshold example_init \<and>
   process_object example_config example_init camera1 (vessel_obj 7 (0, 0, 10, 10) (embedding 0))
     = Inr (example_init\<lparr>vessel_trajectory := [Some 7 \<mapsto> (0, 0, 10, 10)]\<rparr>,
            update_info (vessel_obj 7 (0, 0, 10, 10) (embedding 0)) camera1 None) \<and>
   (\<exists>s2. process_object example_config
            (example_init\<lparr>vessel_trajectory := [Some 7 \<mapsto> (0, 0, 10, 10)]\<rparr>)
            camera1 (vessel_obj 7 (0, 0, 100, 100) (embedding 0))
          = Inr (s2, update_info (vessel_obj 7 (0, 0, 100, 100) (embedding 0)) camera1 (Some 0)))"
proof -
  let ?small = "vessel_obj 7 (0, 0, 10, 10) (embedding 0)"
  let ?big = "vessel_obj 7 (0, 0, 100, 100) (embedding 0)"
  have w: "well_formed example_init"
    unfolding example_init_def by (rule well_formed_VesselMCMOT_init)
  have b: "binding example_init (class_name ?small) camera1 (local_id ?small) = Inr None"
    by (simp add: binding_def example_defs)
  have f: "feature ?small = Some (embedding 0)"
    by (simp add: vessel_obj_def)
  have a: "real_of_int (bbox_area (bbox ?small)) < size_threshold example_init"
    by (simp add: bbox_area_def example_defs)
  have v: "valid_cameras_of example_init camera1 = []"
    by (simp add: valid_cameras_of_def example_defs)
  have c: "global_id_counter example_init (class_name ?small) = Some 0"
    by (simp add: example_defs)
  have t: "vessel_trajectory example_init = Map.empty"
    by (simp add: example_defs)
  have o2: "class_name ?big = class_name ?small \<and> local_id ?big = local_id ?small \<and>
      feature ?big = Some (embedding 0) \<and> length (embedding 0) = faiss_dim \<and>
      size_threshold example_init \<le> real_of_int (bbox_area (bbox ?big))"
    by (simp add: bbox_area_def example_defs faiss_dim_def)
  from below_threshold_unresolved [OF w b f a, of example_config] obtain s1 where
    p: "process_object example_config example_init camera1 ?small
          = Inr (s1, update_info ?small camera1 None)"
    and s1: "s1 = example_init\<lparr>vessel_trajectory :=
               (vessel_trajectory example_init)(local_id ?small \<mapsto> bbox ?small)\<rparr>"
    and later: "\<forall>obj2 f2. class_name obj2 = class_name ?small \<and> local_id obj2 = local_id ?small \<and>
                feature obj2 = Some f2 \<and> length f2 = faiss_dim \<and>
                size_threshold example_init \<le> real_of_int (bbox_area (bbox obj2)) \<longrightarrow>
              (valid_cameras_of example_init camera1 = [] \<longrightarrow>
                 match_with_gallery example_config example_init (class_name ?small) f2 camera1
                   (bbox_area (bbox obj2)) = Inr None) \<and>
              (match_with_gallery example_config example_init (class_name ?small) f2 camera1
                   (bbox_area (bbox obj2)) = Inr None \<longrightarrow>
                 (\<exists>s2 gid. process_object example_config s1 camera1 obj2
                       = Inr (s2, update_info obj2 camera1 (Some gid)) \<and>
                    global_id_counter example_init (class_name ?small) = Some gid \<and>
                    global_id_counter s2 (class_name ?small) = Some (gid + 1) \<and>
                    \<not> in_gallery example_init (class_name ?small) gid \<and>
                    in_gallery s2 (class_name ?small) gid \<and>
                    binding s2 (class_name ?small) camera1 (local_id ?small) = Inr (Some gid))) \<and>
              (\<forall>m. match_with_gallery example_config example_init (class_name ?small) f2 camera1
                     (bbox_area (bbox obj2)) = Inr (Some m) \<longrightarrow>
                 (\<exists>s2. process_object example_config s1 camera1 obj2
                       = Inr (s2, update_info obj2 camera1 (Some m)) \<and>
                    in_gallery example_init (class_name ?small) m \<and>
                    global_id_counter s2 = global_id_counter example_init \<and>
                    binding s2 (class_name ?small) camera1 (local_id ?small) = Inr (Some m)))"
    by blast
  from later [rule_format, of ?big "embedding 0"] o2 v c
  have "\<exists>s2. process_object example_config s1 camera1 ?big
          = Inr (s2, update_info ?big camera1 (Some 0))"
    by auto
  moreover have "s1 = example_init\<lparr>vessel_trajectory := [Some 7 \<mapsto> (0, 0, 10, 10)]\<rparr>"
    using s1 t by (simp add: vessel_obj_def)
  moreover have "binding example_init ''vessel'' camera1 (Some 7) = Inr None"
    using b by (simp add: vessel_obj_def)
  moreover have "real_of_int (bbox_area (0, 0, 10, 10)) < size_threshold example_init"
    using a by (simp add: vessel_obj_def)
  ultimately show ?thesis
    using w p by simp
qed

text \<open>
  Claim C2.  Once a resolution has returned a global id for a key (class, camera, local
  track id), the binding it created is never changed: after any further frames, processed
  without error on any cameras, every resolution with that key returns the same global id,
  and the binding is still in place afterwards.  The state is any state that satisfies the
  invariant of the initial state, which every frame keeps.
\<close>

theorem resolve_idempotent:
  assumes "well_formed s0"
    and "process_object cfg s0 cam obj0 = Inr (s1, out0)"
    and "global_id out0 = Some gid"
    and "run_frames cfg s1 frames = Inr (s2, outs)"
    and "class_name obj = class_name obj0"
    and "local_id obj = local_id obj0"
    and "feature obj = Some f"
  shows "\<exists>s3. process_object cfg s2 cam obj = Inr (s3, update_info obj cam (Some gid)) \<and>
           binding s3 (class_name obj) cam (local_id obj) = Inr (Some gid) \<and>
           well_formed s3"
proof -
  have w1: "well_formed s1"
    using assms(1,2) by (rule well_formed_process_object)
  have b1: "binding s1 (class_name obj) cam (local_id obj) = Inr (Some gid)"
    using process_object_binds_result [OF assms(2,3)] assms(5,6) by simp
  from run_frames_invariant [OF assms(4), of "class_name obj" cam "local_id obj" gid] w1 b1
  have w2: "well_formed s2"
    and b2: "binding s2 (class_name obj) cam (local_id obj) = Inr (Some gid)"
    by simp_all
  from process_object_bound_total [OF w2 b2 assms(7), of cfg] obtain s3 where
    p: "process_object cfg s2 cam obj = Inr (s3, update_info obj cam (Some gid))"
    by blast
  have "binding s3 (class_name obj) cam (local_id obj) = Inr (Some gid)"
    using process_object_keeps_binding [OF p b2] .
  moreover have "well_formed s3"
    using w2 p by (rule well_formed_process_object)
  ultimately show ?thesis using p by blast
qed

theorem resolve_idempotent_witness:
  "well_formed example_init \<and>
   global_id (snd (projr (process_object example_config example_init camera2
      (vessel_obj 1 (0, 0, 100, 100) (embedding 0))))) = Some 0 \<and>
   \<not> isl (run_frames example_config
      (fst (projr (process_object example_config example_init camera2
         (vessel_obj 1 (0, 0, 100, 100) (embedding 0)))))
      [(camera1, [vessel_obj 1 (0, 0, 100, 100) (embedding 10)])]) \<and>
   (\<exists>s3. process_object example_config two_registrations camera2
            (vessel_obj 1 (0, 0, 300, 300) (embedding 3))
          = Inr (s3, update_info (vessel_obj 1 (0, 0, 300, 300) (embedding 3)) camera2 (Some 0)))"
proof -
  let ?first = "vessel_obj 1 (0, 0, 100, 100) (embedding 0)"
  let ?again = "vessel_obj 1 (0, 0, 300, 300) (embedding 3)"
  let ?frames = "[(camera1, [vessel_obj 1 (0, 0, 100, 100) (embedding 10)])]"
  let ?res = "process_object example_config example_init camera2 ?first"
  have w: "well_formed example_init"
    unfolding example_init_def by (rule well_formed_VesselMCMOT_init)
  have l1: "\<not> isl ?res"
    by (simp add: vessel_defs example_defs Let_def)
  then have p1: "?res = Inr (fst (projr ?res), snd (projr ?res))"
    by (cases ?res) simp_all
  have g: "global_id (snd (projr ?res)) = Some 0"
    by (simp add: vessel_defs example_defs Let_def)
  have l2: "\<not> isl (run_frames example_config (fst (projr ?res)) ?frames)"
    by (simp add: vessel_defs example_defs Let_def)
  have two: "fst (projr (run_frames example_config (fst (projr ?res)) ?frames)) = two_registrations"
    by (simp add: two_registrations_def vessel_defs example_defs Let_def)
  from l2 two have r: "run_frames example_config (fst (projr ?res)) ?frames
      = Inr (two_registrations, snd (projr (run_frames example_config (fst (projr ?res)) ?frames)))"
    by (cases "run_frames example_config (fst (projr ?res)) ?frames") auto
  have k: "class_name ?again = class_name ?first" "local_id ?again = local_id ?first"
    "feature ?again = Some (embedding 3)"
    by (simp_all add: vessel_obj_def)
  from resolve_idempotent [OF w p1 g r k] w g l2
  show ?thesis by blast
qed

section \<open>Claim about the best shot\<close>

text \<open>
  Claim C4, as stated, fails in its conclusion.  The rule of \<open>update_gallery_feature\<close>
  compares a detection with the largest area recorded so far for (global id, camera), not
  with the detection before it.  Camera 1 sees one track with areas 10000, 2000 and 5000:
  all three detections are resolved to global id 0, the last two have areas \<open>a1 < a2\<close>
  and are applied in order, and the embedding stored afterwards is the one submitted with
  area 10000, not the one submitted with \<open>a2 = 5000\<close>.
\<close>

theorem earlier_larger_shot_stays:
  "\<not> isl (run_steps example_config example_init shrunk_shots) \<and>
   shots_of example_config example_init ''vessel'' 0 camera1 shrunk_shots =
     [(10000, embedding 0), (2000, embedding 3), (5000, embedding 5)] \<and>
   stored_feature (projr (run_steps example_config example_init shrunk_shots))
     ''vessel'' 0 camera1 = Some (embedding 0) \<and>
   embedding 0 \<noteq> embedding 5"
  by (simp add: shrunk_shots_def stored_feature_def vessel_defs example_defs Let_def)

text \<open>
  The record of areas \<open>max_size_record\<close> is keyed by the global id alone, while global ids
  are counted per class.  Registering the first truck (global id 0 of its class) replaces
  the record of vessel 0, so that a later detection of vessel 0 with area 5000 overwrites
  the embedding that was stored with area 10000.  The best-shot rule therefore holds of
  runs over one class only, and it is stated for them below.
\<close>

lemma registration_of_other_class_resets_record:
  "\<not> isl (run_steps example_config example_init mixed_class_shots) \<and>
   shots_of example_config example_init ''vessel'' 0 camera1 mixed_class_shots =
     [(10000, embedding 0), (5000, embedding 5)] \<and>
   current_shot (projr (run_steps example_config example_init mixed_class_shots))
     ''vessel'' 0 camera1 = Some (5000, embedding 5)"
  by (simp add: mixed_class_shots_def current_shot_def stored_feature_def truck_obj_def
      vessel_defs example_defs Let_def)

text \<open>
  Claim C4, amended.  Take any run of the loop body of \<open>process_camera_frame\<close> from the
  initial state that returns, over detections of one class \<open>t\<close>, with a positive size
  threshold or with detections of positive area, and any global id \<open>g\<close> and camera \<open>c\<close>.
  Let \<open>shots\<close> be the detections from \<open>c\<close> that the run resolved to \<open>g\<close>, by
  registration, by a match or by an existing binding, each with its area and embedding, in
  order.  Then the embedding stored for \<open>(g, c)\<close> and the area recorded for it are those
  of the shot that the best-shot rule keeps (a later shot replaces the kept one only if its
  area is strictly larger): nothing is stored when there are no shots, and otherwise the
  stored embedding belongs to the first shot of the largest area, all shots before it
  being strictly smaller and none after it larger.  For two shots \<open>a1 < a2\<close> applied last,
  the embedding submitted with \<open>a2\<close> is stored when all earlier shots are smaller than
  \<open>a2\<close>; otherwise the embedding kept before the two stays.  A further detection changes
  the stored embedding only if it is resolved to \<open>g\<close> from camera \<open>c\<close> with an area
  strictly above the areas of all shots so far; its embedding and area are then the ones
  stored and recorded.
\<close>

theorem best_shot_history:
  assumes "\<forall>(cam, obj) \<in> set steps. class_name obj = t"
    and "0 < thr \<or> (\<forall>(cam, obj) \<in> set steps. 0 < bbox_area (bbox obj))"
    and "run_steps cfg (VesselMCMOT_init cfg ts thr) steps = Inr s'"
  shows "(let shots = shots_of cfg (VesselMCMOT_init cfg ts thr) t g c steps in
          current_shot s' t g c = best_shot None shots \<and>
          (stored_feature s' t g c = None \<longleftrightarrow> shots = []) \<and>
          (\<forall>f. stored_feature s' t g c = Some f \<longrightarrow>
             (\<exists>ys zs. shots = ys @ (recorded_max_area s' g c, f) # zs \<and>
                (\<forall>y \<in> set ys. fst y < recorded_max_area s' g c) \<and>
                (\<forall>z \<in> set zs. fst z \<le> recorded_max_area s' g c))) \<and>
          (\<forall>ys a1 e1 a2 e2. shots = ys @ [(a1, e1), (a2, e2)] \<and> a1 < a2 \<longrightarrow>
             (if \<forall>y \<in> set ys. fst y < a2
              then stored_feature s' t g c = Some e2 \<and> recorded_max_area s' g c = a2
              else current_shot s' t g c = best_shot None ys)) \<and>
          (\<forall>cam obj s'' obj'.
             class_name obj = t \<and> (0 < thr \<or> 0 < bbox_area (bbox obj)) \<and>
             process_object cfg s' cam obj = Inr (s'', obj') \<and>
             stored_feature s'' t g c \<noteq> stored_feature s' t g c \<longrightarrow>
               cam = c \<and> global_id obj' = Some g \<and>
               stored_feature s'' t g c = feature obj \<and>
               recorded_max_area s'' g c = bbox_area (bbox obj) \<and>
               (\<forall>x \<in> set shots. fst x < bbox_area (bbox obj))))"
proof -
  let ?init = "VesselMCMOT_init cfg ts thr"
  define shots where "shots = shots_of cfg ?init t g c steps"
  have thr: "size_threshold ?init = thr" by (simp add: VesselMCMOT_init_def)
  have none: "current_shot ?init t g c = None"
    by (simp add: current_shot_def stored_feature_def VesselMCMOT_init_def per_type_apply
        split: option.splits)
  have steps: "\<forall>(cam, obj) \<in> set steps.
      class_name obj = t \<and> (0 < size_threshold ?init \<or> 0 < bbox_area (bbox obj))"
    using assms(1,2) thr by auto
  note run = run_steps_best_shot [OF areas_recorded_VesselMCMOT_init steps assms(3), of g c]
  have k: "areas_recorded s' t" and thr': "size_threshold s' = thr"
    using run thr by simp_all
  have cur: "current_shot s' t g c = best_shot None shots"
    using run none by (simp add: shots_def)
  have empty: "stored_feature s' t g c = None \<longleftrightarrow> shots = []"
    using cur best_shot_None [of shots] by (auto simp: current_shot_def split: option.splits)
  have first: "\<exists>ys zs. shots = ys @ (recorded_max_area s' g c, f) # zs \<and>
                (\<forall>y \<in> set ys. fst y < recorded_max_area s' g c) \<and>
                (\<forall>z \<in> set zs. fst z \<le> recorded_max_area s' g c)"
    if "stored_feature s' t g c = Some f" for f
  proof -
    from that cur have "best_shot None shots = Some (recorded_max_area s' g c, f)"
      by (simp add: current_shot_def)
    from best_shot_first_largest [OF this] show ?thesis by simp
  qed
  have two: "if \<forall>y \<in> set ys. fst y < a2
              then stored_feature s' t g c = Some e2 \<and> recorded_max_area s' g c = a2
              else current_shot s' t g c = best_shot None ys"
    if "shots = ys @ [(a1, e1), (a2, e2)]" "a1 < a2" for ys a1 e1 a2 e2
  proof -
    from cur that(1) best_shot_two_more [OF that(2), of ys e1 e2]
    have "current_shot s' t g c =
        (if \<forall>y \<in> set ys. fst y < a2 then Some (a2, e2) else best_shot None ys)"
      by simp
    then show ?thesis
      by (auto simp: current_shot_def split: option.splits if_splits)
  qed
  have next_shot: "cam = c \<and> global_id obj' = Some g \<and>
               stored_feature s'' t g c = feature obj \<and>
               recorded_max_area s'' g c = bbox_area (bbox obj) \<and>
               (\<forall>x \<in> set shots. fst x < bbox_area (bbox obj))"
    if "class_name obj = t" "0 < thr \<or> 0 < bbox_area (bbox obj)"
      "process_object cfg s' cam obj = Inr (s'', obj')"
      "stored_feature s'' t g c \<noteq> stored_feature s' t g c" for cam obj s'' obj'
  proof -
    from that(2) thr' have "0 < size_threshold s' \<or> 0 < bbox_area (bbox obj)" by simp
    from process_object_overwrites [OF k that(3) that(1) this cur that(4)]
    show ?thesis .
  qed
  from cur empty first two next_shot show ?thesis
    unfolding Let_def shots_def [symmetric] by blast
qed

theorem best_shot_history_witness:
  "\<not> isl (run_steps example_config example_init growing_shots) \<and>
   shots_of example_config example_init ''vessel'' 0 camera2 growing_shots =
     [(10000, embedding 0), (22500, embedding 3), (40000, embedding 5)] \<and>
   current_shot (projr (run_steps example_config example_init growing_shots))
     ''vessel'' 0 camera2 = Some (40000, embedding 5) \<and>
   stored_feature (projr (run_steps example_config example_init growing_shots))
     ''vessel'' 0 camera2 = Some (embedding 5) \<and>
   recorded_max_area (projr (run_steps example_config example_init growing_shots))
     0 camera2 = 40000 \<and>
   \<not> isl (process_object example_config
            (projr (run_steps example_config example_init growing_shots)) camera2
            (vessel_obj 7 (0, 0, 300, 300) (embedding 9))) \<and>
   stored_feature (fst (projr (process_object example_config
            (projr (run_steps example_config example_init growing_shots)) camera2
            (vessel_obj 7 (0, 0, 300, 300) (embedding 9))))) ''vessel'' 0 camera2
     = Some (embedding 9) \<and>
   recorded_max_area (fst (projr (process_object example_config
            (projr (run_steps example_config example_init growing_shots)) camera2
            (vessel_obj 7 (0, 0, 300, 300) (embedding 9))))) 0 camera2 = 90000"
proof -
  let ?init = "VesselMCMOT_init example_config [''vessel'', ''truck'', ''person'']
       (VESSEL_SIZE_THRESHOLD example_config)"
  let ?run = "run_steps example_config ?init growing_shots"
  let ?shots = "[(10000, embedding 0), (22500, embedding 3), (40000, embedding 5)]"
  let ?obj = "vessel_obj 7 (0, 0, 300, 300) (embedding 9)"
  let ?next = "process_object example_config (projr ?run) camera2 ?obj"
  have steps: "\<forall>(cam, obj) \<in> set growing_shots. class_name obj = ''vessel''"
    by (simp add: growing_shots_def vessel_obj_def)
  have pos: "0 < VESSEL_SIZE_THRESHOLD example_config \<or>
      (\<forall>(cam, obj) \<in> set growing_shots. 0 < bbox_area (bbox obj))"
    by (simp add: example_config_def)
  have l: "\<not> isl ?run"
    by (simp add: growing_shots_def vessel_defs example_defs Let_def)
  then have r: "?run = Inr (projr ?run)" by (cases ?run) simp_all
  have sh: "shots_of example_config ?init ''vessel'' 0 camera2 growing_shots = ?shots"
    by (simp add: growing_shots_def vessel_defs example_defs Let_def)
  note h = best_shot_history [OF steps pos r, of 0 camera2, unfolded Let_def sh]
  from h have cur: "current_shot (projr ?run) ''vessel'' 0 camera2 = Some (40000, embedding 5)"
    by simp
  from h have "\<forall>ys a1 e1 a2 e2. ?shots = ys @ [(a1, e1), (a2, e2)] \<and> a1 < a2 \<longrightarrow>
             (if \<forall>y \<in> set ys. fst y < a2
              then stored_feature (projr ?run) ''vessel'' 0 camera2 = Some e2 \<and>
                   recorded_max_area (projr ?run) 0 camera2 = a2
              else current_shot (projr ?run) ''vessel'' 0 camera2 = best_shot None ys)"
    by blast
  from this [rule_format, of "[(10000, embedding 0)]" 22500 "embedding 3" 40000 "embedding 5"]
  have st: "stored_feature (projr ?run) ''vessel'' 0 camera2 = Some (embedding 5) \<and>
            recorded_max_area (projr ?run) 0 camera2 = 40000"
    by simp
  have n: "\<not> isl ?next"
    by (simp add: growing_shots_def vessel_defs example_defs Let_def)
  then have p: "?next = Inr (fst (projr ?next), snd (projr ?next))"
    by (cases ?next) simp_all
  have after: "stored_feature (fst (projr ?next)) ''vessel'' 0 camera2 = Some (embedding 9)"
    by (simp add: growing_shots_def stored_feature_def vessel_defs example_defs Let_def)
  from h have "\<forall>cam obj s'' obj'.
             class_name obj = ''vessel'' \<and>
             (0 < VESSEL_SIZE_THRESHOLD example_config \<or> 0 < bbox_area (bbox obj)) \<and>
             process_object example_config (projr ?run) cam obj = Inr (s'', obj') \<and>
             stored_feature s'' ''vessel'' 0 camera2
               \<noteq> stored_feature (projr ?run) ''vessel'' 0 camera2 \<longrightarrow>
               cam = camera2 \<and> global_id obj' = Some 0 \<and>
               stored_feature s'' ''vessel'' 0 camera2 = feature obj \<and>
               recorded_max_area s'' 0 camera2 = bbox_area (bbox obj) \<and>
               (\<forall>x \<in> set ?shots. fst x < bbox_area (bbox obj))"
    by blast
  from this [rule_format, of ?obj camera2 "fst (projr ?next)" "snd (projr ?next)"] p st after
  have "recorded_max_area (fst (projr ?next)) 0 camera2 = bbox_area (bbox ?obj)"
    by (simp add: vessel_obj_def example_config_def)
  then have rec: "recorded_max_area (fst (projr ?next)) 0 camera2 = 90000"
    by (simp add: vessel_obj_def bbox_area_def)
  from l sh cur st n after rec show ?thesis by (simp add: example_init_def)
qed

section \<open>The counters of global ids\<close>

lemmas mcmot_defs =
  MCMOT_process_camera_frame_def MCMOT_process_object_def MCMOT_match_with_gallery_def
  MCMOT_register_object_in_gallery_def MCMOT_clear_type_def MCMOT_init_def binding_def
  bind_local_def bbox_area_def faiss_search_def faiss_add_def faiss_dim_def FLT_MAX_def
  py_index_def per_type_def vessel_obj_def eviction_frames_def MCMOT_reaches_registration_def

text \<open>
  Claim C6.  For every class, the global ids that successive registrations produce in a
  run, from any state and over any detections, are strictly increasing, hence pairwise
  distinct, and none is below the counter the run started with, so none repeats an id
  allocated before the run either.  This holds for \<open>VesselMCMOT\<close>, and for \<open>MCMOT\<close>,
  whose frames of camera 4 end with the loop that deletes gallery entries: the loop does
  not touch the counter.
\<close>

theorem global_ids_strictly_increasing:
  "sorted_wrt (<) (registered_ids cfg s t steps) \<and>
   distinct (registered_ids cfg s t steps) \<and>
   (\<forall>c. global_id_counter s t = Some c \<longrightarrow>
      (\<forall>g \<in> set (registered_ids cfg s t steps). c \<le> g)) \<and>
   sorted_wrt (<) (MCMOT_registered_ids b t frames) \<and>
   distinct (MCMOT_registered_ids b t frames) \<and>
   (\<forall>c. global_id_counter b t = Some c \<longrightarrow>
      (\<forall>g \<in> set (MCMOT_registered_ids b t frames). c \<le> g))"
  using registered_ids_increasing [of cfg s t steps] MCMOT_registered_ids_increasing [of b t frames]
  by (simp add: strict_sorted_iff)

theorem global_ids_strictly_increasing_witness:
  "global_id_counter (MCMOT_init [''vessel'']) ''vessel'' = Some 0 \<and>
   gallery (fst (projr (MCMOT_run_frames (MCMOT_init [''vessel'']) (take 2 eviction_frames))))
     ''vessel'' = Some [] \<and>
   MCMOT_registered_ids (MCMOT_init [''vessel'']) ''vessel'' eviction_frames = [0, 1] \<and>
   sorted_wrt (<) (MCMOT_registered_ids (MCMOT_init [''vessel'']) ''vessel'' eviction_frames) \<and>
   registered_ids example_config example_init ''vessel''
     [(camera2, vessel_obj 1 (0, 0, 100, 100) (embedding 0)),
      (camera1, vessel_obj 1 (0, 0, 100, 100) (embedding 10))] = [0, 1] \<and>
   distinct (registered_ids example_config example_init ''vessel''
     [(camera2, vessel_obj 1 (0, 0, 100, 100) (embedding 0)),
      (camera1, vessel_obj 1 (0, 0, 100, 100) (embedding 10))])"
proof -
  have a: "global_id_counter (MCMOT_init [''vessel'']) ''vessel'' = Some 0"
    by (simp add: MCMOT_init_def per_type_def)
  have b: "gallery (fst (projr (MCMOT_run_frames (MCMOT_init [''vessel''])
      (take 2 eviction_frames)))) ''vessel'' = Some []"
    by (simp add: mcmot_defs Let_def)
  have c: "MCMOT_registered_ids (MCMOT_init [''vessel'']) ''vessel'' eviction_frames = [0, 1]"
    by (simp add: mcmot_defs Let_def)
  have d: "registered_ids example_config example_init ''vessel''
     [(camera2, vessel_obj 1 (0, 0, 100, 100) (embedding 0)),
      (camera1, vessel_obj 1 (0, 0, 100, 100) (embedding 10))] = [0, 1]"
    by (simp add: reaches_registration_def vessel_defs example_defs Let_def)
  from global_ids_strictly_increasing [of example_config example_init "''vessel''"
     "[(camera2, vessel_obj 1 (0, 0, 100, 100) (embedding 0)),
       (camera1, vessel_obj 1 (0, 0, 100, 100) (embedding 10))]"
     "MCMOT_init [''vessel'']" eviction_frames] a b c d
  show ?thesis by blast
qed

section \<open>Claim about the reference scale\<close>

text \<open>
  Claim C9.  Numbers are reals here, not floats.  When the second calibration point is
  added (a new id, at another pixel), \<open>calculate_reference_line\<close> stores as scale the
  haversine distance of the two geographic coordinates, for the radius 6371000 set by
  \<open>__init__\<close>, divided by the Euclidean distance of the two pixel coordinates.  For all
  coordinates the code's \<open>haversine_distance\<close> is the haversine formula with the
  service's radius, and the haversine formula is the great-circle distance: the radius
  times the angle between the two points.  For the points \<open>(0, 0)\<close> and \<open>(1, 0)\<close> in
  degrees the distance is \<open>6371000 * pi / 180\<close>, which is within one metre of 111195.
\<close>

theorem reference_scale_haversine:
  "(i1 \<noteq> i2 \<and> px1 \<noteq> px2 \<longrightarrow>
      (\<exists>s1 s2. add_reference_point GridLocationService_init i1 px1 g1 = Inr s1 \<and>
          scale_factor s1 = None \<and>
          add_reference_point s1 i2 px2 g2 = Inr s2 \<and>
          scale_factor s2 =
            Some (haversine_formula 6371000 g1 g2
                  / sqrt ((fst px2 - fst px1)\<^sup>2 + (snd px2 - snd px1)\<^sup>2)))) \<and>
   haversine_distance s lat1 lon1 lat2 lon2
     = haversine_formula (earth_radius s) (lat1, lon1) (lat2, lon2) \<and>
   haversine_formula R p q = great_circle_distance R p q \<and>
   earth_radius GridLocationService_init = 6371000 \<and>
   haversine_formula 6371000 (0, 0) (1, 0) = 6371000 * pi / 180 \<and>
   \<bar>haversine_formula 6371000 (0, 0) (1, 0) - 111195\<bar> < 1"
proof -
  have r: "earth_radius GridLocationService_init = 6371000"
    by (simp add: GridLocationService_init_def)
  have f: "haversine_distance GridLocationService_init a b c d
      = haversine_formula 6371000 (a, b) (c, d)" for a b c d
    using haversine_distance_formula [of GridLocationService_init a b c d] r by simp
  have h: "haversine_formula 6371000 (0, 0) (1, 0) = 6371000 * pi / 180"
    using haversine_one_degree [of GridLocationService_init] r f [of 0 0 1 0] by simp
  have "111194 < 6371000 * pi / 180" "6371000 * pi / 180 < 111196"
    using pi_lower_bound pi_upper_bound by simp_all
  then have n: "\<bar>haversine_formula 6371000 (0, 0) (1, 0) - 111195\<bar> < 1"
    using h by simp
  have two: "\<exists>s1 s2. add_reference_point GridLocationService_init i1 px1 g1 = Inr s1 \<and>
          scale_factor s1 = None \<and>
          add_reference_point s1 i2 px2 g2 = Inr s2 \<and>
          scale_factor s2 =
            Some (haversine_formula 6371000 g1 g2
                  / sqrt ((fst px2 - fst px1)\<^sup>2 + (snd px2 - snd px1)\<^sup>2))"
    if "i1 \<noteq> i2" "px1 \<noteq> px2"
  proof -
    have nz: "sqrt ((fst px2 - fst px1)\<^sup>2 + (snd px2 - snd px1)\<^sup>2) \<noteq> 0"
      using that(2) pixel_distance_zero [of px2 px1] by blast
    have "\<exists>s1 s2. add_reference_point GridLocationService_init i1 px1 g1 = Inr s1 \<and>
          scale_factor s1 = None \<and>
          add_reference_point s1 i2 px2 g2 = Inr s2 \<and>
          scale_factor s2 =
            Some (haversine_distance GridLocationService_init (fst g1) (snd g1) (fst g2) (snd g2)
                  / sqrt ((fst px2 - fst px1)\<^sup>2 + (snd px2 - snd px1)\<^sup>2))"
      using that(1) nz
      by (simp add: add_reference_point_def calculate_reference_line_def
          GridLocationService_init_def Let_def haversine_distance_def)
    then show ?thesis
      by (simp add: f)
  qed
  from two r h n haversine_distance_formula [of s lat1 lon1 lat2 lon2]
    haversine_formula_great_circle [of R p q]
  show ?thesis by blast
qed

theorem reference_scale_haversine_witness:
  "''p1'' \<noteq> ''p2'' \<and> ((0, 0) :: real \<times> real) \<noteq> (3, 4) \<and>
   (\<exists>s1 s2. add_reference_point GridLocationService_init ''p1'' (0, 0) (0, 0) = Inr s1 \<and>
       add_reference_point s1 ''p2'' (3, 4) (1, 0) = Inr s2 \<and>
       scale_factor s2 = Some (6371000 * pi / 180 / 5))"
proof -
  note inst = reference_scale_haversine [of "''p1''" "''p2''" "(0, 0)" "(3, 4)" "(0, 0)" "(1, 0)"]
  have hyp: "''p1'' \<noteq> ''p2'' \<and> ((0, 0) :: real \<times> real) \<noteq> (3, 4)"
    by simp
  with inst obtain s1 s2 where
    a: "add_reference_point GridLocationService_init ''p1'' (0, 0) (0, 0) = Inr s1"
    and b: "add_reference_point s1 ''p2'' (3, 4) (1, 0) = Inr s2"
    and c: "scale_factor s2 = Some (haversine_formula 6371000 (0, 0) (1, 0)
        / sqrt ((fst ((3, 4) :: real \<times> real) - fst ((0, 0) :: real \<times> real))\<^sup>2
              + (snd ((3, 4) :: real \<times> real) - snd ((0, 0) :: real \<times> real))\<^sup>2))"
    by blast
  from inst have h: "haversine_formula 6371000 (0, 0) (1, 0) = 6371000 * pi / 180"
    by blast
  have d: "sqrt ((fst ((3, 4) :: real \<times> real) - fst ((0, 0) :: real \<times> real))\<^sup>2
              + (snd ((3, 4) :: real \<times> real) - snd ((0, 0) :: real \<times> real))\<^sup>2) = 5"
    by (rule real_sqrt_unique) simp_all
  have "scale_factor s2 = Some (6371000 * pi / 180 / 5)"
    using c by (simp only: h d)
  with hyp a b show ?thesis by blast
qed

end
